(* ===== verification/Prelude.thy ===== *)
theory Prelude
  imports Main "HOL-Library.Word" "HOL-Library.Sublist"
begin

section \<open>Shared types and lemmas\<close>

text \<open>
  What every component of the model shares: the error numbers of the C code as a datatype
  (\<open>errno\<close>, with the number each one stands for), results that are either an error number or
  a value, C strings as character lists with the terminating NUL made visible by \<open>cchar\<close>,
  the limits of the system headers, and the decimal conversions of \<open>snprintf("%d")\<close> and
  \<open>atoi\<close>.  The collections \<open>path_simps\<close> and \<open>ipc_simps\<close> gather the rewriting rules the
  path and the System V IPC theories prove for their own operations.
\<close>

named_theorems path_simps \<open>rewriting rules of the path components\<close>
named_theorems ipc_simps \<open>rewriting rules of the System V IPC components\<close>

subsection \<open>Error numbers\<close>

text \<open>
  The error numbers the modelled code returns, and their values on Linux.  \<open>EABORTED\<close> is none of
  them: it stands for a failed assertion inside the path functions (\<^verbatim>\<open>canon.c:370\<close>,
  \<^verbatim>\<open>path.c:366\<close>, \<^verbatim>\<open>binding.c:135\<close>), which end PRoot there.  Every function that
  returns a \<open>result\<close> hands it on, and the functions whose type has a value for the end of the
  program turn it into that one; its number is one no system call returns.
\<close>

datatype errno =
    EPERM | ENOENT | EINTR | EIO | E2BIG | EAGAIN | ENOMEM | EACCES | EFAULT | EEXIST
  | ENOTDIR | EINVAL | EFBIG | ENOSPC | ERANGE | ENAMETOOLONG | ENOSYS | ELOOP | ENOMSG
  | EIDRM | EBADF | ESRCH | ENOEXEC | ECHILD | EISDIR | EXDEV | ENODEV | ENOTTY | EROFS
  | ENOTEMPTY | EOVERFLOW | ENOTSUP | EADDRINUSE | EABORTED

fun errno_code :: "errno \<Rightarrow> int" where
  "errno_code EPERM = 1"
| "errno_code ENOENT = 2"
| "errno_code EINTR = 4"
| "errno_code ESRCH = 3"
| "errno_code EIO = 5"
| "errno_code E2BIG = 7"
| "errno_code ENOEXEC = 8"
| "errno_code EBADF = 9"
| "errno_code ECHILD = 10"
| "errno_code EAGAIN = 11"
| "errno_code ENOMEM = 12"
| "errno_code EACCES = 13"
| "errno_code EFAULT = 14"
| "errno_code EEXIST = 17"
| "errno_code EXDEV = 18"
| "errno_code ENODEV = 19"
| "errno_code ENOTDIR = 20"
| "errno_code EISDIR = 21"
| "errno_code EINVAL = 22"
| "errno_code ENOTTY = 25"
| "errno_code EFBIG = 27"
| "errno_code ENOSPC = 28"
| "errno_code EROFS = 30"
| "errno_code ERANGE = 34"
| "errno_code ENAMETOOLONG = 36"
| "errno_code ENOSYS = 38"
| "errno_code ENOTEMPTY = 39"
| "errno_code ELOOP = 40"
| "errno_code ENOMSG = 42"
| "errno_code EIDRM = 43"
| "errno_code EOVERFLOW = 75"
| "errno_code ENOTSUP = 95"
| "errno_code EADDRINUSE = 98"
| "errno_code EABORTED = 4095"

lemma errno_code_range: "0 < errno_code e \<and> errno_code e < 4096"
  by (cases e) auto

lemma errno_code_inject: "errno_code e = errno_code e' \<longleftrightarrow> e = e'"
  by (cases e; cases e') auto

text \<open>A C function that returns a negative error number or a value.\<close>

type_synonym 'a result = "errno + 'a"

subsection \<open>C strings\<close>

text \<open>
  A C string is the list of the characters before its NUL, so \<open>strlen\<close> is \<open>length\<close>; \<open>cchar s i\<close>
  is \<open>s[i]\<close> for \<open>i\<close> up to and including the position of the NUL.
\<close>

abbreviation slash :: char where "slash \<equiv> CHR ''/''"
abbreviation dot :: char where "dot \<equiv> CHR ''.''"
abbreviation NUL :: char where "NUL \<equiv> CHR 0x00"

definition cchar :: "string \<Rightarrow> nat \<Rightarrow> char" where
  "cchar s i = (if i < length s then s ! i else NUL)"

lemma cchar_less [simp]: "i < length s \<Longrightarrow> cchar s i = s ! i"
  by (simp add: cchar_def)

lemma cchar_end [simp]: "length s \<le> i \<Longrightarrow> cchar s i = NUL"
  by (simp add: cchar_def)

lemma cchar_Nil [simp]: "cchar [] i = NUL"
  by (simp add: cchar_def)

lemma cchar_Cons_0 [simp]: "cchar (c # s) 0 = c"
  by (simp add: cchar_def)

lemma cchar_last: "s \<noteq> [] \<Longrightarrow> cchar s (length s - 1) = last s"
  by (simp add: cchar_def last_conv_nth)

lemma cchar_append: "cchar (s @ t) (length s) = cchar t 0"
  by (cases t) (auto simp: cchar_def)

subsection \<open>Limits of the system headers\<close>

text \<open>Values of \<open>linux/limits.h\<close> and of glibc's \<open>sys/param.h\<close>.\<close>

definition PATH_MAX :: nat where "PATH_MAX = 4096"
definition NAME_MAX :: nat where "NAME_MAX = 255"
definition MAXSYMLINKS :: nat where "MAXSYMLINKS = 20"

subsection \<open>Decimal numbers\<close>

text \<open>\<open>snprintf("%d")\<close> of a number that is not negative.\<close>

fun show_nat :: "nat \<Rightarrow> string" where
  "show_nat n =
     (if n < 10 then [char_of (48 + n)] else show_nat (n div 10) @ [char_of (48 + n mod 10)])"

declare show_nat.simps [simp del]

definition is_digit :: "char \<Rightarrow> bool" where
  "is_digit c = (48 \<le> (of_char c :: nat) \<and> (of_char c :: nat) \<le> 57)"

definition digit_val :: "char \<Rightarrow> nat" where
  "digit_val c = (of_char c :: nat) - 48"

definition is_space :: "char \<Rightarrow> bool" where
  "is_space c = ((of_char c :: nat) = 32 \<or> 9 \<le> (of_char c :: nat) \<and> (of_char c :: nat) \<le> 13)"

definition digits_val :: "string \<Rightarrow> nat" where
  "digits_val ds = foldl (\<lambda>a d. 10 * a + digit_val d) 0 ds"

text \<open>
  \<open>atoi\<close>: white space, an optional sign, then the longest run of digits; \<open>0\<close> if there is none.
  C leaves a value outside of \<open>int\<close> undefined; the model keeps the mathematical value.
\<close>

definition atoi :: "string \<Rightarrow> int" where
  "atoi s =
     (let t = dropWhile is_space s;
          neg = (t \<noteq> [] \<and> hd t = CHR ''-'');
          u = (if t \<noteq> [] \<and> (hd t = CHR ''-'' \<or> hd t = CHR ''+'') then tl t else t);
          v = int (digits_val (takeWhile is_digit u))
      in if neg then - v else v)"

text \<open>
  A conversion \<open>%d\<close> of \<open>sscanf\<close>: white space, an optional sign and at least one digit; the value
  and what is left of the input.
\<close>

definition scan_int :: "string \<Rightarrow> (int \<times> string) option" where
  "scan_int s =
     (let t = dropWhile is_space s;
          u = (if t \<noteq> [] \<and> (hd t = CHR ''-'' \<or> hd t = CHR ''+'') then tl t else t)
      in if takeWhile is_digit u = [] then None else Some (atoi s, dropWhile is_digit u))"

lemma is_digit_char_of: "n < 10 \<Longrightarrow> is_digit (char_of (48 + n :: nat))"
  by (simp add: is_digit_def)

lemma digit_val_char_of: "n < 10 \<Longrightarrow> digit_val (char_of (48 + n :: nat)) = n"
  by (simp add: digit_val_def)

lemma show_nat_digits: "\<forall>c \<in> set (show_nat n). is_digit c"
proof (induction n rule: show_nat.induct)
  case (1 n)
  then show ?case
    by (subst show_nat.simps) (auto simp: is_digit_char_of)
qed

lemma show_nat_nonempty: "show_nat n \<noteq> []"
  by (subst show_nat.simps) simp

lemma digits_val_snoc: "digits_val (ds @ [d]) = 10 * digits_val ds + digit_val d"
  by (simp add: digits_val_def)

lemma digits_val_show_nat: "digits_val (show_nat n) = n"
proof (induction n rule: show_nat.induct)
  case (1 n)
  show ?case
  proof (cases "n < 10")
    case True
    then show ?thesis
      by (subst show_nat.simps) (simp add: digits_val_def digit_val_char_of)
  next
    case False
    then have "digits_val (show_nat n) =
        10 * digits_val (show_nat (n div 10)) + n mod 10"
      by (subst show_nat.simps) (simp add: digits_val_snoc digit_val_char_of)
    also have "\<dots> = 10 * (n div 10) + n mod 10" using 1 False by simp
    finally show ?thesis by simp
  qed
qed

lemma digit_chars:
  assumes "is_digit c"
  shows "\<not> is_space c" "c \<noteq> CHR ''-''" "c \<noteq> CHR ''+''" "c \<noteq> slash" "c \<noteq> dot" "c \<noteq> NUL"
  using assms by (auto simp: is_digit_def is_space_def)

text \<open>Parsing what was printed, when no further digit follows.\<close>

lemma atoi_show_nat:
  assumes "rest = [] \<or> \<not> is_digit (hd rest)"
  shows "atoi (show_nat n @ rest) = int n"
proof -
  obtain c cs where cs: "show_nat n = c # cs"
    using show_nat_nonempty by (cases "show_nat n") auto
  then have c: "is_digit c" using show_nat_digits[of n] by simp
  have tw: "takeWhile is_digit (show_nat n @ rest) = show_nat n"
    using assms show_nat_digits[of n] by (cases rest) (auto simp: takeWhile_append)
  have "atoi (show_nat n @ rest) =
      int (digits_val (takeWhile is_digit (show_nat n @ rest)))"
    using digit_chars[OF c] by (simp add: atoi_def cs Let_def)
  then show ?thesis by (simp add: tw digits_val_show_nat)
qed

lemma show_nat_no_slash: "slash \<notin> set (show_nat n)"
  using show_nat_digits digit_chars(4) by blast

lemma show_nat_no_dot: "dot \<notin> set (show_nat n)"
  using show_nat_digits digit_chars(5) by blast

end
