(* ===== verification/Paths.thy ===== *)
theory Paths
  imports Prelude
begin

section \<open>Path strings\<close>

text \<open>
  The string routines of \<^verbatim>\<open>path/path.c\<close> and \<^verbatim>\<open>path/canon.c\<close> that the whole path translation
  rests on: comparing two paths, joining paths within \<open>PATH_MAX\<close>, splitting off the next
  component, popping the last one, chopping a trailing separator, substituting a prefix.

  The abstract view is a list of component names.  \<open>render\<close> prints such a list as the string the
  code works on, and the lemmas state each routine as the list operation it implements.
\<close>

subsection \<open>Types of path.h\<close>

datatype Side = GUEST | HOST | PENDING

datatype Finality = NOT_FINAL | FINAL_NORMAL | FINAL_SLASH | FINAL_DOT

definition IS_FINAL :: "Finality \<Rightarrow> bool" where
  "IS_FINAL a = (a \<noteq> NOT_FINAL)"

datatype Comparison =
  PATHS_ARE_EQUAL | PATH1_IS_PREFIX | PATH2_IS_PREFIX | PATHS_ARE_NOT_COMPARABLE

record path_t =
  path_str :: string
  path_length :: nat

definition mk_path :: "string \<Rightarrow> path_t" where
  "mk_path s = \<lparr>path_str = s, path_length = length s\<rparr>"

lemma mk_path_sel [simp]: "path_str (mk_path s) = s" "path_length (mk_path s) = length s"
  by (simp_all add: mk_path_def)

subsection \<open>compare\_paths\<close>

text \<open>
  The two assertions on the lengths are followed in the source by a test that answers
  "not comparable", which is what the model does with an empty path.  \<open>strncmp(a, b, n) == 0\<close>
  on C strings is \<open>take n a = take n b\<close>.
\<close>

definition compare_paths2 :: "string \<Rightarrow> nat \<Rightarrow> string \<Rightarrow> nat \<Rightarrow> Comparison" where
  "compare_paths2 path1 length1 path2 length2 =
     (if length1 = 0 \<or> length2 = 0 then PATHS_ARE_NOT_COMPARABLE
      else
        let length1 = (if cchar path1 (length1 - 1) = slash then length1 - 1 else length1);
            length2 = (if cchar path2 (length2 - 1) = slash then length2 - 1 else length2);
            length_min = (if length1 < length2 then length1 else length2);
            sentinel = (if length1 < length2 then cchar path2 length_min
                        else cchar path1 length_min)
        in if sentinel \<noteq> slash \<and> sentinel \<noteq> NUL then PATHS_ARE_NOT_COMPARABLE
           else if take length_min path1 \<noteq> take length_min path2 then PATHS_ARE_NOT_COMPARABLE
           else if length1 = length2 then PATHS_ARE_EQUAL
           else if length1 < length2 then PATH1_IS_PREFIX
           else PATH2_IS_PREFIX)"

definition compare_paths :: "string \<Rightarrow> string \<Rightarrow> Comparison" where
  "compare_paths path1 path2 = compare_paths2 path1 (length path1) path2 (length path2)"

subsection \<open>join\_paths\<close>

text \<open>One turn of the loop: append a path to the result, with one separator in between.\<close>

definition join_step :: "string \<Rightarrow> string \<Rightarrow> string result" where
  "join_step res path =
     (if 0 < length res \<and> cchar res (length res - 1) \<noteq> slash \<and> cchar path 0 \<noteq> slash then
        (if length res + length path + 1 + 1 \<ge> PATH_MAX then Inl ENAMETOOLONG
         else Inr (res @ [slash] @ path))
      else if 0 < length res \<and> cchar res (length res - 1) = slash \<and> cchar path 0 = slash then
        (if length res + length path - 1 + 1 \<ge> PATH_MAX then Inl ENAMETOOLONG
         else Inr (res @ tl path))
      else
        (if length res + length path + 1 \<ge> PATH_MAX then Inl ENAMETOOLONG
         else Inr (res @ path)))"

fun join_loop :: "string \<Rightarrow> string option list \<Rightarrow> string result" where
  "join_loop res [] = Inr res"
| "join_loop res (None # ps) = join_loop res ps"
| "join_loop res (Some p # ps) =
     (case join_step res p of Inl e \<Rightarrow> Inl e | Inr res' \<Rightarrow> join_loop res' ps)"

definition join_paths :: "string option list \<Rightarrow> string result" where
  "join_paths ps = join_loop [] ps"

subsection \<open>chop\_finality\<close>

definition chop_finality :: "string \<Rightarrow> string" where
  "chop_finality path =
     (let n = length path in
      if cchar path (n - 1) = dot then
        (if n = 2 then take (n - 1) path else take (n - 2) path)
      else if cchar path (n - 1) = slash then
        (if 1 < n then take (n - 1) path else path)
      else path)"

subsection \<open>substitute\_path\_prefix\<close>

text \<open>
  The error is returned through a \<open>size_t\<close> and the buffer is left as it was; the caller
  (\<open>substitute_binding\<close>) does not look at the result.
\<close>

definition substitute_path_prefix :: "string \<Rightarrow> nat \<Rightarrow> string \<Rightarrow> nat \<Rightarrow> string result" where
  "substitute_path_prefix path old_prefix_length new_prefix new_prefix_length =
     (let path_length = length path in
      if new_prefix_length = 1 then
        (if path_length - old_prefix_length \<noteq> 0 then Inr (drop old_prefix_length path)
         else Inr [slash])
      else if old_prefix_length = 1 then
        (if new_prefix_length + path_length \<ge> PATH_MAX then Inl ENAMETOOLONG
         else if path_length > 1 then Inr (take new_prefix_length new_prefix @ path)
         else Inr (take new_prefix_length new_prefix))
      else
        (if path_length - old_prefix_length + new_prefix_length \<ge> PATH_MAX then Inl ENAMETOOLONG
         else Inr (take new_prefix_length new_prefix @ drop old_prefix_length path)))"

subsection \<open>pop\_component and next\_component\<close>

text \<open>The two loops of \<open>pop_component\<close>; both stop at offset 1.\<close>

fun pop_skip_seps :: "string \<Rightarrow> nat \<Rightarrow> nat" where
  "pop_skip_seps path (Suc (Suc n)) =
     (if cchar path (Suc (Suc n)) = slash then pop_skip_seps path (Suc n) else Suc (Suc n))"
| "pop_skip_seps path n = n"

fun pop_search_sep :: "string \<Rightarrow> nat \<Rightarrow> nat" where
  "pop_search_sep path (Suc (Suc n)) =
     (if cchar path (Suc (Suc n)) \<noteq> slash then pop_search_sep path (Suc n) else Suc (Suc n))"
| "pop_search_sep path n = n"

definition pop_component :: "string \<Rightarrow> string" where
  "pop_component path =
     (let offset = length path - 1 in
      if offset = 0 then path
      else take (pop_search_sep path (pop_skip_seps path offset)) path)"

text \<open>
  The cursor is the rest of the path.  \<open>skip_slashes\<close> and \<open>skip_name\<close> are the loops that advance
  it; \<open>first_name\<close> is what the second one passes over.  The result holds the finality, the
  component and the cursor after it.
\<close>

definition skip_slashes :: "string \<Rightarrow> string" where
  "skip_slashes s = dropWhile (\<lambda>c. c = slash) s"

definition first_name :: "string \<Rightarrow> string" where
  "first_name s = takeWhile (\<lambda>c. c \<noteq> slash) s"

definition skip_name :: "string \<Rightarrow> string" where
  "skip_name s = dropWhile (\<lambda>c. c \<noteq> slash) s"

definition next_component :: "string \<Rightarrow> (Finality \<times> string \<times> string) result" where
  "next_component cursor =
     (let start = skip_slashes cursor;
          component = first_name start;
          cursor = skip_name start
      in if length component \<ge> NAME_MAX then Inl ENAMETOOLONG
         else
           let want_dir = (cchar cursor 0 = slash);
               cursor = skip_slashes cursor
           in Inr (if cursor = [] then (if want_dir then FINAL_SLASH else FINAL_NORMAL)
                   else NOT_FINAL, component, cursor))"

subsection \<open>Component lists\<close>

text \<open>
  A component is a nonempty name without a separator (nor a NUL, which no C string holds); a canonical one is neither \<open>.\<close> nor \<open>..\<close>.
  \<open>body\<close> is the printed form without the special case of the root.
\<close>

definition comp_ok :: "string \<Rightarrow> bool" where
  "comp_ok c = (c \<noteq> [] \<and> slash \<notin> set c \<and> NUL \<notin> set c)"

definition name_ok :: "string \<Rightarrow> bool" where
  "name_ok c = (comp_ok c \<and> c \<noteq> ''.'' \<and> c \<noteq> ''..'')"

definition body :: "string list \<Rightarrow> string" where
  "body cs = concat (map (\<lambda>c. slash # c) cs)"

definition render :: "string list \<Rightarrow> string" where
  "render cs = (if cs = [] then [slash] else body cs)"

definition canonical :: "string \<Rightarrow> bool" where
  "canonical p = (\<exists>cs. list_all name_ok cs \<and> p = render cs)"

lemma body_simps [simp]:
  "body [] = []" "body (c # cs) = slash # c @ body cs" "body (cs @ ds) = body cs @ body ds"
  by (simp_all add: body_def)

lemma body_eq_Nil [simp]: "body cs = [] \<longleftrightarrow> cs = []"
  by (cases cs) auto

lemma Nil_eq_body [simp]: "[] = body cs \<longleftrightarrow> cs = []"
  by (cases cs) auto

lemma render_Nil [simp]: "render [] = [slash]"
  by (simp add: render_def)

lemma render_Cons: "cs \<noteq> [] \<Longrightarrow> render cs = body cs"
  by (simp add: render_def)

lemma render_nonempty [simp]: "render cs \<noteq> []"
  by (simp add: render_def)

lemma render_hd: "hd (render cs) = slash"
  by (cases cs) (auto simp: render_def)

lemma cchar_render_0 [simp]: "cchar (render cs) 0 = slash"
  by (cases cs) (auto simp: render_def)

lemma name_ok_comp: "name_ok c \<Longrightarrow> comp_ok c"
  by (simp add: name_ok_def)

lemma list_all_name_comp: "list_all name_ok cs \<Longrightarrow> list_all comp_ok cs"
  by (auto simp: list_all_iff name_ok_comp)

lemma last_body:
  assumes "list_all comp_ok cs" "cs \<noteq> []"
  shows "last (body cs) \<noteq> slash"
proof -
  obtain ds c where cs: "cs = ds @ [c]" using assms(2) by (metis rev_exhaust)
  then have "c \<noteq> []" "slash \<notin> set c" using assms(1) by (auto simp: comp_ok_def)
  moreover from this have "last (body cs) = last c" by (simp add: cs)
  ultimately show ?thesis by (metis last_in_set)
qed

lemma length_render_gt1: "list_all comp_ok cs \<Longrightarrow> cs \<noteq> [] \<Longrightarrow> 1 < length (render cs)"
  by (cases cs) (auto simp: render_def comp_ok_def Suc_lessI)

lemma length_render_1: "list_all comp_ok cs \<Longrightarrow> length (render cs) = 1 \<longleftrightarrow> cs = []"
  using length_render_gt1[of cs] by (cases "cs = []") (auto simp: less_le)

text \<open>Two components that are followed by the end or a separator are split the same way.\<close>

lemma comp_split:
  assumes "c1 @ r1 = c2 @ r2" "slash \<notin> set c1" "slash \<notin> set c2"
    and "r1 = [] \<or> hd r1 = slash" "r2 = [] \<or> hd r2 = slash"
  shows "c1 = c2 \<and> r1 = r2"
proof -
  have tw: "takeWhile (\<lambda>c. c \<noteq> slash) (c @ r) = c"
    if "slash \<notin> set c" "r = [] \<or> hd r = slash" for c r :: string
    using that by (induction c) (auto intro: takeWhile_eq_Nil_iff[THEN iffD2])
  from assms tw[of c1 r1] tw[of c2 r2] have "c1 = c2" by simp
  with assms(1) show ?thesis by simp
qed

lemma body_hd: "body cs = [] \<or> hd (body cs) = slash"
  by (cases cs) auto

lemma body_prefix:
  assumes "body as @ r = body bs" "list_all comp_ok as" "list_all comp_ok bs"
    and "r = [] \<or> hd r = slash"
  shows "\<exists>cs. bs = as @ cs \<and> r = body cs"
  using assms
proof (induction as arbitrary: bs)
  case Nil
  then show ?case by auto
next
  case (Cons a as)
  then obtain b bs' where bs: "bs = b # bs'" by (cases bs) auto
  from Cons.prems have eq: "a @ (body as @ r) = b @ body bs'" by (simp add: bs)
  have "a = b \<and> body as @ r = body bs'"
  proof (rule comp_split[OF eq])
    show "slash \<notin> set a" "slash \<notin> set b" using Cons.prems by (auto simp: bs comp_ok_def)
    show "body as @ r = [] \<or> hd (body as @ r) = slash"
      using Cons.prems(4) body_hd[of as] by (cases "body as") auto
    show "body bs' = [] \<or> hd (body bs') = slash" by (rule body_hd)
  qed
  with Cons.IH[of bs'] Cons.prems bs show ?case by auto
qed

lemma body_inject:
  "list_all comp_ok as \<Longrightarrow> list_all comp_ok bs \<Longrightarrow> body as = body bs \<longleftrightarrow> as = bs"
  using body_prefix[of as "[]" bs] by auto

lemma render_inject:
  "list_all comp_ok as \<Longrightarrow> list_all comp_ok bs \<Longrightarrow> render as = render bs \<longleftrightarrow> as = bs"
  using body_inject[of as bs] length_render_1[of as] length_render_1[of bs]
  by (metis length_render_1 list.size(3) length_Cons One_nat_def render_Nil render_Cons)

subsection \<open>compare\_paths on component lists\<close>

text \<open>A string denotes a component list with or without one trailing separator.\<close>

definition denotes :: "string \<Rightarrow> string list \<Rightarrow> bool" where
  "denotes p cs = (list_all comp_ok cs \<and> (p = body cs @ [slash] \<or> cs \<noteq> [] \<and> p = body cs))"

lemma denotes_render: "list_all comp_ok cs \<Longrightarrow> denotes (render cs) cs"
  by (auto simp: denotes_def render_def)

lemma denotes_absolute: "denotes p cs \<Longrightarrow> cchar p 0 = slash"
  by (cases cs) (auto simp: denotes_def body_def render_def cchar_def)

lemma denotes_root [simp]: "denotes [slash] []"
  by (simp add: denotes_def)

lemma denotes_slash: "list_all comp_ok cs \<Longrightarrow> denotes (body cs @ [slash]) cs"
  by (simp add: denotes_def)

lemma denotes_length: "denotes p cs \<Longrightarrow> p \<noteq> []"
  by (auto simp: denotes_def)

lemma denotes_eff_length:
  assumes "denotes p cs"
  shows "(if cchar p (length p - 1) = slash then length p - 1 else length p) = length (body cs)"
  using assms last_body[of cs] denotes_length[OF assms]
  by (auto simp: denotes_def cchar_last[unfolded One_nat_def] last_conv_nth)

lemma denotes_take: "denotes p cs \<Longrightarrow> take (length (body cs)) p = body cs"
  by (auto simp: denotes_def)

lemma body_no_NUL: "list_all comp_ok cs \<Longrightarrow> NUL \<notin> set (body cs)"
  by (induction cs) (auto simp: comp_ok_def)

lemma denotes_cchar_end:
  "denotes p cs \<Longrightarrow> cchar p (length (body cs)) = slash \<or> cchar p (length (body cs)) = NUL"
  by (auto simp: denotes_def cchar_def)

lemma denotes_sentinel:
  assumes p: "denotes p as" and q: "denotes q bs" and lt: "length (body as) < length (body bs)"
    and pre: "take (length (body as)) q = body as"
  shows "cchar q (length (body as)) = slash \<or> cchar q (length (body as)) = NUL
         \<longleftrightarrow> strict_prefix as bs"
proof -
  let ?n = "length (body as)"
  have qn: "cchar q ?n = body bs ! ?n" using q lt by (auto simp: denotes_def nth_append)
  have tk: "take ?n (body bs) = body as"
    using pre q lt by (auto simp: denotes_def)
  show ?thesis
  proof
    assume "cchar q ?n = slash \<or> cchar q ?n = NUL"
    moreover have "body bs ! ?n \<noteq> NUL"
      using body_no_NUL[of bs] q lt by (metis denotes_def nth_mem)
    ultimately have "body bs ! ?n = slash" using qn by simp
    then have "hd (drop ?n (body bs)) = slash" using lt by (simp add: hd_drop_conv_nth)
    moreover have "body as @ drop ?n (body bs) = body bs" using tk by (metis append_take_drop_id)
    ultimately obtain cs where "bs = as @ cs"
      using body_prefix[of as "drop ?n (body bs)" bs] p q by (auto simp: denotes_def)
    then show "strict_prefix as bs" using lt by (auto simp: strict_prefix_def)
  next
    assume "strict_prefix as bs"
    then obtain cs where cs: "bs = as @ cs" "cs \<noteq> []" by (auto simp: strict_prefix_def prefix_def)
    then have "body bs ! ?n = slash" by (cases cs) auto
    then show "cchar q ?n = slash \<or> cchar q ?n = NUL" using qn by simp
  qed
qed

lemma strict_prefix_take:
  "denotes q bs \<Longrightarrow> strict_prefix as bs \<Longrightarrow>
    length (body as) < length (body bs) \<and> take (length (body as)) q = body as"
  by (auto simp: denotes_def strict_prefix_def prefix_def)

lemma compare_paths_denotes:
  assumes p: "denotes p as" and q: "denotes q bs"
  shows "compare_paths p q =
    (if as = bs then PATHS_ARE_EQUAL
     else if strict_prefix as bs then PATH1_IS_PREFIX
     else if strict_prefix bs as then PATH2_IS_PREFIX
     else PATHS_ARE_NOT_COMPARABLE)"
proof -
  let ?m = "length (body as)" and ?n = "length (body bs)"
  note unf = compare_paths_def compare_paths2_def Let_def denotes_eff_length[OF p]
    denotes_eff_length[OF q]
  have ne: "p \<noteq> []" "q \<noteq> []" using p q denotes_length by auto
  have nsym: "\<not> (strict_prefix as bs \<and> strict_prefix bs as)" by auto
  consider "?m < ?n" | "?n < ?m" | "?m = ?n" by linarith
  then show ?thesis
  proof cases
    case 1
    then have "as \<noteq> bs" and "\<not> strict_prefix bs as"
      using strict_prefix_take[OF p, of bs] by auto
    with 1 ne denotes_take[OF p] denotes_sentinel[OF p q 1] strict_prefix_take[OF q, of as]
    show ?thesis unfolding unf by auto
  next
    case 2
    then have "as \<noteq> bs" and "\<not> strict_prefix as bs"
      using strict_prefix_take[OF q, of as] by auto
    with 2 ne denotes_take[OF q] denotes_sentinel[OF q p 2] strict_prefix_take[OF p, of bs]
    show ?thesis unfolding unf by auto
  next
    case 3
    then have ns: "\<not> strict_prefix as bs" "\<not> strict_prefix bs as"
      using strict_prefix_take[OF q, of as] strict_prefix_take[OF p, of bs] by auto
    have "take ?n p = take ?n q \<longleftrightarrow> as = bs"
      using 3 denotes_take[OF p] denotes_take[OF q] body_inject[of as bs] p q
      by (auto simp: denotes_def)
    with 3 ne ns denotes_cchar_end[OF p] show ?thesis unfolding unf by auto
  qed
qed

lemma compare_paths_render:
  assumes "list_all comp_ok as" "list_all comp_ok bs"
  shows "compare_paths (render as) (render bs) =
    (if as = bs then PATHS_ARE_EQUAL
     else if strict_prefix as bs then PATH1_IS_PREFIX
     else if strict_prefix bs as then PATH2_IS_PREFIX
     else PATHS_ARE_NOT_COMPARABLE)"
  using assms by (intro compare_paths_denotes denotes_render)

lemma compare_paths2_strlen [path_simps]:
  "compare_paths2 p (length p) q (length q) = compare_paths p q"
  by (simp add: compare_paths_def)

end
