(* ===== verification/Path_Lemmas.thy ===== *)
theory Path_Lemmas
  imports Paths
begin

section \<open>The path routines as operations on component lists\<close>

text \<open>
  Each string routine of \<^verbatim>\<open>Paths\<close> is shown to implement an operation on component lists:
  \<open>join_paths\<close> appends a component, \<open>pop_component\<close> drops the last one, \<open>next_component\<close> is
  the head of \<open>comps\<close>, \<open>substitute_path_prefix\<close> replaces a leading sublist, \<open>chop_finality\<close>
  removes a trailing separator.
\<close>

subsection \<open>join\_paths\<close>

lemma join_step_Nil: "join_step [] p = (if length p + 1 \<ge> PATH_MAX then Inl ENAMETOOLONG else Inr p)"
  by (simp add: join_step_def)

lemma join_paths_two:
  "join_paths [Some p, Some q] =
     (if length p + 1 \<ge> PATH_MAX then Inl ENAMETOOLONG else join_step p q)"
  by (simp add: join_paths_def join_step_Nil split: sum.split)

lemma join_step_length: "join_step p q = Inr r \<Longrightarrow> length r + 1 < PATH_MAX"
  by (cases q) (auto simp: join_step_def split: if_splits)

lemma join_paths_length: "join_paths [Some p, Some q] = Inr r \<Longrightarrow> length r + 1 < PATH_MAX"
  using join_step_length[of p q r] by (auto simp: join_paths_two split: if_splits)

lemma render_last_slash:
  "list_all comp_ok cs \<Longrightarrow> cchar (render cs) (length (render cs) - 1) = slash \<longleftrightarrow> cs = []"
  using last_body[of cs] by (cases "cs = []") (simp_all add: cchar_last render_Cons del: cchar_less One_nat_def)

lemma join_paths_component:
  assumes "list_all comp_ok cs" "comp_ok c"
  shows "join_paths [Some (render cs), Some c] =
    (if length (render (cs @ [c])) + 1 \<ge> PATH_MAX then Inl ENAMETOOLONG
     else Inr (render (cs @ [c])))"
proof -
  have c: "c \<noteq> []" "cchar c 0 \<noteq> slash" using assms(2) by (cases c; auto simp: comp_ok_def)+
  have "0 < length (render cs)" by simp
  with c render_last_slash[OF assms(1)] show ?thesis
    by (cases "cs = []") (auto simp: join_paths_two join_step_def render_def)
qed

lemma join_paths_empty:
  assumes "list_all comp_ok cs" "join_paths [Some (render cs), Some []] = Inr r"
  shows "r = body cs @ [slash]"
proof -
  have "0 < length (render cs)" by simp
  with assms render_last_slash[OF assms(1)] show ?thesis
    by (cases "cs = []") (auto simp: join_paths_two join_step_def render_def split: if_splits)
qed

lemma join_paths_hd:
  assumes "join_paths [Some p, Some q] = Inr r" "p \<noteq> []" "hd p = slash"
  shows "r \<noteq> [] \<and> hd r = slash"
  using assms by (auto simp: join_paths_two join_step_def split: if_splits)

subsection \<open>pop\_component\<close>

lemma pop_search_sep_eq:
  assumes "m \<le> i" "1 \<le> i" "cchar path m = slash"
    and "\<And>j. m < j \<Longrightarrow> j \<le> i \<Longrightarrow> cchar path j \<noteq> slash"
  shows "pop_search_sep path i = max 1 m"
  using assms
proof (induction path i rule: pop_search_sep.induct)
  case (1 path n)
  show ?case
  proof (cases "m = Suc (Suc n)")
    case True
    with 1 show ?thesis by simp
  next
    case False
    with 1 show ?thesis by (simp del: cchar_less)
  qed
qed (simp_all add: max_def)

lemma pop_component_render:
  assumes ok: "list_all comp_ok cs"
  shows "pop_component (render cs) = render (butlast cs)"
proof (cases cs rule: rev_cases)
  case Nil
  then show ?thesis by (simp add: pop_component_def)
next
  case (snoc ds c)
  then have c: "c \<noteq> []" "slash \<notin> set c" and ds: "list_all comp_ok ds"
    using ok by (auto simp: comp_ok_def)
  let ?p = "render cs" and ?m = "length (body ds)"
  have p: "?p = body ds @ slash # c" by (simp add: snoc render_def)
  have len: "length ?p - 1 = ?m + length c" by (simp add: p)
  have ns: "cchar ?p j \<noteq> slash" if "?m < j" "j \<le> ?m + length c" for j
    using that c(2) by (auto simp: p cchar_def nth_append nth_Cons' in_set_conv_nth)
  have "?m + length c \<noteq> 0" "1 \<le> ?m + length c" using c(1) by (auto simp: Suc_le_eq)
  moreover have "pop_skip_seps ?p (?m + length c) = ?m + length c"
    using ns[of "?m + length c"] c(1) by (cases "(?p, ?m + length c)" rule: pop_skip_seps.cases) auto
  moreover have "pop_search_sep ?p (?m + length c) = max 1 ?m"
    using ns \<open>1 \<le> ?m + length c\<close> by (intro pop_search_sep_eq) (auto simp: p cchar_def)
  ultimately have "pop_component ?p = take (max 1 ?m) ?p"
    unfolding pop_component_def Let_def len by (simp only: if_False)
  also have "\<dots> = render ds"
  proof (cases "ds = []")
    case True
    then show ?thesis by (simp add: p)
  next
    case False
    then have "1 < ?m" using length_render_gt1[OF ds] by (simp add: render_Cons)
    with False show ?thesis by (simp add: p render_Cons max_def)
  qed
  finally show ?thesis by (simp add: snoc)
qed

subsection \<open>next\_component\<close>

lemma skip_slashes_idem [simp]: "skip_slashes (skip_slashes s) = skip_slashes s"
  unfolding skip_slashes_def by (rule dropWhile_idem)

lemma skip_slashes_hd: "skip_slashes s \<noteq> [] \<Longrightarrow> hd (skip_slashes s) \<noteq> slash"
  unfolding skip_slashes_def by (rule hd_dropWhile)

lemma skip_slashes_length: "length (skip_slashes s) \<le> length s"
  by (simp add: skip_slashes_def length_dropWhile_le)

lemma skip_slashes_set: "set (skip_slashes s) \<subseteq> set s"
  by (auto simp: skip_slashes_def dest: set_dropWhileD)

lemma skip_slashes_Cons [simp]:
  "skip_slashes (c # s) = (if c = slash then skip_slashes s else c # s)" "skip_slashes [] = []"
  by (simp_all add: skip_slashes_def)

lemma skip_slashes_eq_Nil: "skip_slashes s = [] \<longleftrightarrow> set s \<subseteq> {slash}"
  by (induction s) auto

lemma skip_name_Cons [simp]:
  "skip_name (c # s) = (if c = slash then c # s else skip_name s)" "skip_name [] = []"
  by (simp_all add: skip_name_def)

lemma first_name_Cons [simp]:
  "first_name (c # s) = (if c = slash then [] else c # first_name s)" "first_name [] = []"
  by (simp_all add: first_name_def)

lemma skip_name_length: "length (skip_name s) \<le> length s"
  by (simp add: skip_name_def length_dropWhile_le)

lemma skip_name_set: "set (skip_name s) \<subseteq> set s"
  by (auto simp: skip_name_def dest: set_dropWhileD)

lemma first_name_set: "set (first_name s) \<subseteq> set s" "slash \<notin> set (first_name s)"
  by (auto simp: first_name_def dest: set_takeWhileD)

lemma skip_name_shorter: "s \<noteq> [] \<Longrightarrow> hd s \<noteq> slash \<Longrightarrow> length (skip_name s) < length s"
  using skip_name_length[of "tl s"] by (cases s) auto

lemma first_name_nonempty: "s \<noteq> [] \<Longrightarrow> hd s \<noteq> slash \<Longrightarrow> first_name s \<noteq> []"
  by (cases s) auto

lemma first_skip_append:
  assumes "slash \<notin> set c" "r = [] \<or> hd r = slash"
  shows "first_name (c @ r) = c" "skip_name (c @ r) = r"
  using assms by (induction c; cases r; auto)+

text \<open>The components of any path: the maximal runs of characters between separators.\<close>

function comps :: "string \<Rightarrow> string list" where
  "comps s =
     (if skip_slashes s = [] then []
      else first_name (skip_slashes s) # comps (skip_name (skip_slashes s)))"
  by pat_completeness auto
termination
  by (relation "measure length")
    (auto intro: less_le_trans[OF skip_name_shorter skip_slashes_length] dest: skip_slashes_hd)

declare comps.simps [simp del]

lemma comps_Nil: "skip_slashes s = [] \<Longrightarrow> comps s = []"
  by (subst comps.simps) simp

lemma comps_Cons:
  "skip_slashes s \<noteq> [] \<Longrightarrow>
    comps s = first_name (skip_slashes s) # comps (skip_name (skip_slashes s))"
  by (subst comps.simps) simp

lemma comps_skip_slashes: "comps (skip_slashes s) = comps s"
  by (cases "skip_slashes s = []") (simp_all add: comps_Nil comps_Cons)

lemma next_component_unfold:
  "next_component cur = Inr (fin, c, rest) \<longleftrightarrow>
     (length (first_name (skip_slashes cur)) < NAME_MAX \<and>
      c = first_name (skip_slashes cur) \<and> rest = skip_slashes (skip_name (skip_slashes cur)) \<and>
      fin = (if rest = [] then (if cchar (skip_name (skip_slashes cur)) 0 = slash then FINAL_SLASH
                                else FINAL_NORMAL) else NOT_FINAL))"
  by (auto simp: next_component_def Let_def)

lemma next_component_cases:
  assumes "next_component cur = Inr (fin, c, rest)"
  shows "(c = [] \<and> comps cur = [] \<and> rest = [] \<and> fin = FINAL_NORMAL \<and> set cur \<subseteq> {slash}) \<or>
         (c \<noteq> [] \<and> slash \<notin> set c \<and> comps cur = c # comps rest \<and> length rest < length cur)"
proof -
  let ?t = "skip_slashes cur"
  have c: "c = first_name ?t" and rest: "rest = skip_slashes (skip_name ?t)"
    and fin: "fin = (if rest = [] then (if cchar (skip_name ?t) 0 = slash then FINAL_SLASH
                                        else FINAL_NORMAL) else NOT_FINAL)"
    using assms by (simp_all add: next_component_unfold)
  show ?thesis
  proof (cases "?t = []")
    case True
    with c rest fin have "c = []" "rest = []" "fin = FINAL_NORMAL" by auto
    with True show ?thesis by (simp add: comps_Nil skip_slashes_eq_Nil)
  next
    case False
    have "length rest \<le> length (skip_name ?t)" by (simp add: rest skip_slashes_length)
    also have "\<dots> < length ?t" using False skip_slashes_hd by (intro skip_name_shorter) auto
    also have "\<dots> \<le> length cur" by (rule skip_slashes_length)
    finally have "length rest < length cur" .
    moreover have "comps cur = c # comps rest"
      using False by (simp add: comps_Cons c rest comps_skip_slashes)
    moreover have "c \<noteq> []" using False skip_slashes_hd c first_name_nonempty by simp
    ultimately show ?thesis using first_name_set(2) c by simp
  qed
qed

lemma next_component_not_final:
  assumes "next_component cur = Inr (NOT_FINAL, c, rest)"
  shows "length rest < length cur \<and> rest \<noteq> []"
  using assms next_component_cases[OF assms] by (auto simp: next_component_unfold split: if_splits)

lemma next_component_final:
  "next_component cur = Inr (fin, c, rest) \<Longrightarrow> IS_FINAL fin \<longleftrightarrow> rest = []"
  by (auto simp: next_component_unfold IS_FINAL_def)

lemma next_component_set:
  assumes "next_component cur = Inr (fin, c, rest)"
  shows "set c \<subseteq> set cur" "set rest \<subseteq> set cur"
  using assms skip_slashes_set skip_name_set first_name_set(1)
  unfolding next_component_unfold by (metis subset_trans)+

lemma next_component_comp_ok:
  assumes "next_component cur = Inr (fin, c, rest)" "NUL \<notin> set cur" "c \<noteq> []"
  shows "comp_ok c"
  using next_component_cases[OF assms(1)] next_component_set[OF assms(1)] assms(2,3)
  by (auto simp: comp_ok_def)

lemma comps_no_NUL: "NUL \<notin> set s \<Longrightarrow> list_all comp_ok (comps s)"
proof (induction s rule: comps.induct)
  case (1 s)
  show ?case
  proof (cases "skip_slashes s = []")
    case True
    then show ?thesis by (simp add: comps_Nil)
  next
    case False
    have "NUL \<notin> set (first_name (skip_slashes s))" "NUL \<notin> set (skip_name (skip_slashes s))"
      using 1(2) skip_slashes_set skip_name_set first_name_set(1) by blast+
    with 1(1) False first_name_nonempty[OF False skip_slashes_hd[OF False]] first_name_set(2)
    show ?thesis by (simp add: comps_Cons comp_ok_def)
  qed
qed

lemma comps_prepend:
  assumes "comp_ok c" "r = [] \<or> hd r = slash"
  shows "comps (slash # c @ r) = c # comps r"
proof -
  obtain a as where "c = a # as" "a \<noteq> slash" "slash \<notin> set c"
    using assms(1) by (cases c) (auto simp: comp_ok_def)
  then have "skip_slashes (slash # c @ r) = c @ r" by simp
  with first_skip_append[of c r] assms show ?thesis
    by (simp add: comps_Cons comp_ok_def)
qed

lemma comps_body: "list_all comp_ok cs \<Longrightarrow> comps (body cs) = cs"
proof (induction cs)
  case Nil
  show ?case by (simp add: comps_Nil)
next
  case (Cons c cs)
  then show ?case using comps_prepend[of c "body cs"] body_hd[of cs] by simp
qed

text \<open>Printing then splitting gives the component list back.\<close>

lemma comps_render: "list_all comp_ok cs \<Longrightarrow> comps (render cs) = cs"
proof (cases "cs = []")
  case True
  then show ?thesis by (simp add: comps_Nil)
qed (simp add: render_Cons comps_body)

subsection \<open>substitute\_path\_prefix\<close>

lemma substitute_path_prefix_denotes:
  assumes p: "denotes p (old @ rest)" and new: "list_all comp_ok new"
    and asym: "old \<noteq> [] \<or> new \<noteq> []"
  shows "case substitute_path_prefix p (length (render old)) (render new) (length (render new)) of
      Inl e \<Rightarrow> e = ENAMETOOLONG \<and> length (render new) + length p \<ge> PATH_MAX
    | Inr r \<Rightarrow> denotes r (new @ rest)"
proof -
  have old: "list_all comp_ok old" and rest: "list_all comp_ok rest"
    using p by (auto simp: denotes_def)
  consider "new = []" "old \<noteq> []" | "old = []" "new \<noteq> []" | "old \<noteq> []" "new \<noteq> []"
    using asym by auto
  then show ?thesis
  proof cases
    case 1
    then show ?thesis using p rest
      by (auto simp: substitute_path_prefix_def Let_def render_Cons denotes_def)
  next
    case 2
    then have "length (render new) \<noteq> 1" using new length_render_1 by blast
    moreover have "1 < length p \<or> rest = []"
      using length_render_gt1[OF rest] p 2 by (auto simp: denotes_def render_Cons)
    ultimately show ?thesis using 2 p rest new
      by (auto simp: substitute_path_prefix_def Let_def render_Cons denotes_def)
  next
    case 3
    then have "length (render new) \<noteq> 1" "length (render old) \<noteq> 1"
      using new old length_render_1 by blast+
    with 3 p rest new show ?thesis
      by (auto simp: substitute_path_prefix_def Let_def render_Cons denotes_def)
  qed
qed

lemma substitute_path_prefix_short:
  assumes "length new + length p < PATH_MAX"
  shows "\<exists>r. substitute_path_prefix p n new (length new) = Inr r"
  using assms by (auto simp: substitute_path_prefix_def Let_def)

subsection \<open>chop\_finality\<close>

lemma chop_finality_slash: "cs \<noteq> [] \<Longrightarrow> chop_finality (body cs @ [slash]) = body cs"
  by (simp add: chop_finality_def nth_append)

lemma chop_finality_dot:
  "chop_finality (body cs @ [slash, dot]) = render cs"
  by (auto simp: chop_finality_def nth_append render_def)

lemma chop_finality_id:
  assumes "list_all comp_ok cs" "cs \<noteq> [] \<Longrightarrow> last (last cs) \<noteq> dot"
  shows "chop_finality (render cs) = render cs"
proof (cases cs rule: rev_cases)
  case Nil
  then show ?thesis by (simp add: chop_finality_def)
next
  case (snoc ds c)
  then have "c \<noteq> []" "last c \<noteq> dot" "slash \<notin> set c"
    using assms by (auto simp: comp_ok_def)
  then have "last c \<noteq> slash" by (metis last_in_set)
  moreover have "cchar (render cs) (length (render cs) - 1) = last c"
    using \<open>c \<noteq> []\<close> by (subst cchar_last) (auto simp: snoc render_def)
  ultimately show ?thesis using \<open>last c \<noteq> dot\<close>
    unfolding chop_finality_def Let_def by (simp only: if_False)
qed

end
