(* ===== verification/Bindings.thy ===== *)
theory Bindings
  imports Path_Lemmas
begin

section \<open>Bindings\<close>

text \<open>
  \<^verbatim>\<open>path/binding.c\<close>: the lists of bindings of a tracee, the look-up of the binding a path belongs
  to, the substitution of a prefix, and the sorted insertion.  A circular queue is the list of
  its elements; the three queues of \<open>fs->bindings\<close> are options, \<open>None\<close> for a queue that is not
  allocated.  A binding is shared by several queues and removed from them by identity, so it
  carries one (\<open>b_id\<close>, the address of the C object).
\<close>

subsection \<open>State\<close>

text \<open>File types: \<open>st_mode & S_IFMT\<close>; \<open>S_NONE\<close> is 0.\<close>

datatype ftype = S_NONE | S_IFREG | S_IFDIR | S_IFLNK | S_IFCHR | S_IFBLK | S_IFIFO | S_IFSOCK

record binding =
  b_id :: nat
  host :: path_t
  guest :: path_t
  need_substitution :: bool

record fs_state =
  bs_pending :: "binding list option"
  bs_guest :: "binding list option"
  bs_host :: "binding list option"
  cwd :: string
  glue :: "string option"
  glue_type :: ftype
  next_id :: nat

definition queue_of :: "fs_state \<Rightarrow> Side \<Rightarrow> binding list option" where
  "queue_of t side =
     (case side of GUEST \<Rightarrow> bs_guest t | HOST \<Rightarrow> bs_host t | PENDING \<Rightarrow> bs_pending t)"

definition head_of :: "fs_state \<Rightarrow> Side \<Rightarrow> binding list" where
  "head_of t side = (case queue_of t side of None \<Rightarrow> [] | Some l \<Rightarrow> l)"

definition set_queue :: "fs_state \<Rightarrow> Side \<Rightarrow> binding list \<Rightarrow> fs_state" where
  "set_queue t side l =
     (case side of
        GUEST \<Rightarrow> t\<lparr>bs_guest := Some l\<rparr>
      | HOST \<Rightarrow> t\<lparr>bs_host := Some l\<rparr>
      | PENDING \<Rightarrow> t\<lparr>bs_pending := Some l\<rparr>)"

text \<open>The path a queue is sorted by: pending bindings are compared by their guest path.\<close>

definition side_path :: "Side \<Rightarrow> binding \<Rightarrow> path_t" where
  "side_path side b = (case side of HOST \<Rightarrow> host b | _ \<Rightarrow> guest b)"

subsection \<open>Look-up and substitution\<close>

text \<open>
  Once the guest queue is allocated, \<open>get_root\<close> asserts that it is not empty and that its last
  binding is the one of \<^verbatim>\<open>/\<close>; \<open>root_asserted\<close> is the conjunction of the two, which
  \<open>fs_ok_root_asserted\<close> derives from the invariant of the queues, and \<open>None\<close> is the answer where
  they fail.
\<close>

definition get_root :: "fs_state \<Rightarrow> string option" where
  "get_root t =
     (case bs_guest t of
        None \<Rightarrow>
          (case bs_pending t of
             None \<Rightarrow> None
           | Some l \<Rightarrow>
               (if l = [] then None
                else if compare_paths (path_str (guest (last l))) [slash] \<noteq> PATHS_ARE_EQUAL then None
                else Some (path_str (host (last l)))))
      | Some l \<Rightarrow>
          (if l = [] \<or> path_str (guest (last l)) \<noteq> [slash] then None
           else Some (path_str (host (last l)))))"

definition root_asserted :: "fs_state \<Rightarrow> bool" where
  "root_asserted t =
     (case bs_guest t of None \<Rightarrow> True | Some l \<Rightarrow> l \<noteq> [] \<and> path_str (guest (last l)) = [slash])"

definition belongs_to_guestfs :: "fs_state \<Rightarrow> string \<Rightarrow> bool" where
  "belongs_to_guestfs t host_path =
     (case get_root t of
        None \<Rightarrow> False
      | Some root \<Rightarrow>
          compare_paths root host_path = PATHS_ARE_EQUAL \<or>
          compare_paths root host_path = PATH1_IS_PREFIX)"

definition root_is_slash :: "fs_state \<Rightarrow> bool" where
  "root_is_slash t =
     (case get_root t of None \<Rightarrow> False | Some root \<Rightarrow> compare_paths root [slash] = PATHS_ARE_EQUAL)"

definition binding_matches :: "fs_state \<Rightarrow> Side \<Rightarrow> string \<Rightarrow> binding \<Rightarrow> bool" where
  "binding_matches t side path b =
     (let ref = side_path side b;
          comparison = compare_paths2 (path_str ref) (path_length ref) path (length path)
      in if comparison \<noteq> PATHS_ARE_EQUAL \<and> comparison \<noteq> PATH1_IS_PREFIX then False
         else if side = HOST \<and> \<not> root_is_slash t \<and> belongs_to_guestfs t path then False
         else True)"

text \<open>
  \<open>get_binding\<close> below its assertion \<open>path[0] == '/'\<close>; the functions that call it make the
  assertion part of their result.
\<close>

definition get_binding :: "fs_state \<Rightarrow> Side \<Rightarrow> string \<Rightarrow> binding option" where
  "get_binding t side path =
     (if side = PENDING then None else find (binding_matches t side path) (head_of t side))"

definition get_path_binding :: "fs_state \<Rightarrow> Side \<Rightarrow> string \<Rightarrow> string option" where
  "get_path_binding t side path =
     (case get_binding t side path of
        None \<Rightarrow> None
      | Some b \<Rightarrow>
          (case side of
             GUEST \<Rightarrow> Some (path_str (guest b))
           | HOST \<Rightarrow> Some (path_str (host b))
           | PENDING \<Rightarrow> None))"

text \<open>
  The result is the status (0 or 1) and the buffer.  The status of \<open>substitute_path_prefix\<close> is
  ignored: when it fails, the buffer keeps the path it had and the status is still 1.
  \<open>EABORTED\<close> is the assertion of \<open>get_binding\<close>.
\<close>

definition substitute_binding :: "fs_state \<Rightarrow> Side \<Rightarrow> string \<Rightarrow> (nat \<times> string) result" where
  "substitute_binding t side path =
     (if cchar path 0 \<noteq> slash then Inl EABORTED
      else case get_binding t side path of
        None \<Rightarrow> Inl ENOENT
      | Some b \<Rightarrow>
          (if \<not> need_substitution b then Inr (0, path)
           else
             (case side of
                PENDING \<Rightarrow> Inl EACCES
              | _ \<Rightarrow>
                  (let ref = (if side = GUEST then guest b else host b);
                       reverse_ref = (if side = GUEST then host b else guest b)
                   in case substitute_path_prefix path (path_length ref)
                             (path_str reverse_ref) (path_length reverse_ref) of
                        Inl _ \<Rightarrow> Inr (1, path)
                      | Inr path' \<Rightarrow> Inr (1, path')))))"

subsection \<open>Sorted insertion\<close>

definition remove_id :: "nat \<Rightarrow> binding list option \<Rightarrow> binding list option" where
  "remove_id i q = map_option (filter (\<lambda>b. b_id b \<noteq> i)) q"

definition remove_binding_from_all_lists :: "fs_state \<Rightarrow> binding \<Rightarrow> fs_state" where
  "remove_binding_from_all_lists t b =
     t\<lparr>bs_pending := remove_id (b_id b) (bs_pending t),
       bs_guest := remove_id (b_id b) (bs_guest t),
       bs_host := remove_id (b_id b) (bs_host t)\<rparr>"

text \<open>
  The loop of \<open>insort_binding\<close> either finds the entry to replace or ends with \<open>previous\<close> and
  \<open>next\<close>, positions in the queue; \<open>None\<close> for \<open>next\<close> is the head of the circular queue.
\<close>

datatype insort_pos = Replace nat | Place "nat option" "nat option"

fun insort_loop ::
  "Side \<Rightarrow> binding \<Rightarrow> binding list \<Rightarrow> nat \<Rightarrow> nat option \<Rightarrow> nat option \<Rightarrow> insort_pos" where
  "insort_loop side b [] i prev nxt = Place prev nxt"
| "insort_loop side b (it # l) i prev nxt =
     (case compare_paths2 (path_str (side_path side b)) (path_length (side_path side b))
             (path_str (side_path side it)) (path_length (side_path side it)) of
        PATHS_ARE_EQUAL \<Rightarrow>
          (if side = HOST then insort_loop side b l (Suc i) (Some i) nxt else Replace i)
      | PATH1_IS_PREFIX \<Rightarrow> insort_loop side b l (Suc i) (Some i) nxt
      | PATH2_IS_PREFIX \<Rightarrow>
          insort_loop side b l (Suc i) prev (if nxt = None then Some i else nxt)
      | PATHS_ARE_NOT_COMPARABLE \<Rightarrow> insort_loop side b l (Suc i) prev nxt)"

definition insert_at :: "nat \<Rightarrow> 'a \<Rightarrow> 'a list \<Rightarrow> 'a list" where
  "insert_at n x l = take n l @ x # drop n l"

definition insort_binding :: "fs_state \<Rightarrow> Side \<Rightarrow> binding \<Rightarrow> fs_state" where
  "insort_binding t side b =
     (let l = head_of t side in
      case insort_loop side b l 0 None (if l = [] then None else Some 0) of
        Replace i \<Rightarrow>
          remove_binding_from_all_lists (set_queue t side (insert_at (Suc i) b l)) (l ! i)
      | Place (Some p) _ \<Rightarrow> set_queue t side (insert_at (Suc p) b l)
      | Place None (Some n) \<Rightarrow> set_queue t side (insert_at n b l)
      | Place None None \<Rightarrow> set_queue t side (b # l))"

definition insort_binding2 :: "fs_state \<Rightarrow> binding \<Rightarrow> fs_state" where
  "insort_binding2 t b =
     (let b = b\<lparr>need_substitution :=
                  (compare_paths (path_str (host b)) (path_str (guest b)) \<noteq> PATHS_ARE_EQUAL)\<rparr>
      in insort_binding (insort_binding t GUEST b) HOST b)"

definition new_binding_object :: "fs_state \<Rightarrow> string \<Rightarrow> string \<Rightarrow> binding \<times> fs_state" where
  "new_binding_object t host_path guest_path =
     (\<lparr>b_id = next_id t, host = mk_path host_path, guest = mk_path guest_path,
       need_substitution = False\<rparr>, t\<lparr>next_id := Suc (next_id t)\<rparr>)"

definition insort_binding3 :: "fs_state \<Rightarrow> string \<Rightarrow> string \<Rightarrow> fs_state" where
  "insort_binding3 t host_path guest_path =
     (case new_binding_object t host_path guest_path of (b, t) \<Rightarrow> insort_binding2 t b)"

subsection \<open>The order of a queue\<close>

text \<open>
  The interface the look-up relies on: entries with a component list each and a comparison that
  decides the prefix relation between them.  A queue is in order when no entry stands before
  one that it strictly contains.
\<close>

locale nested_paths =
  fixes ok :: "'b \<Rightarrow> bool"
    and key :: "'b \<Rightarrow> string list"
    and cmp :: "'b \<Rightarrow> 'b \<Rightarrow> Comparison"
  assumes cmp_key: "ok a \<Longrightarrow> ok b \<Longrightarrow> cmp a b =
    (if key a = key b then PATHS_ARE_EQUAL
     else if strict_prefix (key a) (key b) then PATH1_IS_PREFIX
     else if strict_prefix (key b) (key a) then PATH2_IS_PREFIX
     else PATHS_ARE_NOT_COMPARABLE)"
begin

definition in_order :: "'b list \<Rightarrow> bool" where
  "in_order l = (list_all ok l \<and> sorted_wrt (\<lambda>a b. \<not> strict_prefix (key a) (key b)) l)"

lemma in_order_append:
  "in_order (xs @ ys) \<longleftrightarrow> in_order xs \<and> in_order ys \<and>
     (\<forall>x\<in>set xs. \<forall>y\<in>set ys. \<not> strict_prefix (key x) (key y))"
  by (auto simp: in_order_def sorted_wrt_append)

lemma in_order_filter: "in_order l \<Longrightarrow> in_order (filter P l)"
  by (auto simp: in_order_def sorted_wrt_filter list_all_iff)

lemma in_order_insert:
  assumes "in_order (xs @ ys)" "ok b"
    and after: "\<And>y. y \<in> set ys \<Longrightarrow> \<not> strict_prefix (key b) (key y)"
    and before: "xs \<noteq> [] \<Longrightarrow> prefix (key b) (key (last xs))"
  shows "in_order (xs @ b # ys)"
proof -
  have "\<not> strict_prefix (key x) (key b)" if x: "x \<in> set xs" for x
  proof
    assume sp: "strict_prefix (key x) (key b)"
    from x have ne: "xs \<noteq> []" by auto
    have sl: "strict_prefix (key x) (key (last xs))"
      using sp before[OF ne] by (meson prefix_order.less_le_trans)
    then have "x \<in> set (butlast xs)"
      using x ne by (metis append_butlast_last_id in_set_butlast_appendI set_ConsD Un_iff
          list.set(1) empty_iff set_append prefix_order.less_irrefl)
    moreover have "sorted_wrt (\<lambda>a b. \<not> strict_prefix (key a) (key b)) (butlast xs @ [last xs])"
      using assms(1) ne by (simp add: in_order_def sorted_wrt_append)
    ultimately show False using sl by (auto simp: sorted_wrt_append)
  qed
  with assms(1,2) after show ?thesis by (auto simp: in_order_def sorted_wrt_append)
qed

lemma in_order_replace:
  assumes "in_order (xs @ a # ys)" "ok b" "key b = key a"
  shows "in_order (xs @ b # ys)"
  using assms by (auto simp: in_order_def sorted_wrt_append)

text \<open>The first entry that contains a path is the deepest one that does.\<close>

lemma first_is_deepest:
  assumes "in_order l" "find (\<lambda>b. prefix (key b) p) l = Some b"
    and "b' \<in> set l" "prefix (key b') p"
  shows "length (key b') \<le> length (key b)"
proof (rule ccontr)
  assume nle: "\<not> ?thesis"
  from assms(2) obtain i where i: "i < length l" "prefix (key (l ! i)) p" "b = l ! i"
    and first: "\<And>j. j < i \<Longrightarrow> \<not> prefix (key (l ! j)) p"
    by (auto simp: find_Some_iff)
  from assms(3) obtain j where j: "j < length l" "b' = l ! j" by (auto simp: in_set_conv_nth)
  have sp: "strict_prefix (key b) (key b')"
    using nle i(2,3) assms(4) by (auto simp: strict_prefix_def dest: prefix_length_prefix)
  have "i \<noteq> j" using nle i(3) j(2) by auto
  moreover have "\<not> j < i" using first assms(4) j(2) by auto
  ultimately have "i < j" by simp
  with assms(1) i(3) j sp show False by (auto simp: in_order_def sorted_wrt_iff_nth_less)
qed

end

end
