(* ===== verification/Binding_Order.thy ===== *)
theory Binding_Order
  imports Bindings
begin

section \<open>The invariant of the binding queues\<close>

text \<open>
  The paths of a binding are canonical component lists, the guest and the host queue hold the
  same bindings, each queue is in order (no entry stands before one it strictly contains), guest
  paths are unique and the binding of the guest root is the last one.  The sorted insertion keeps
  all of this, and it is what makes the first match of \<open>get_binding\<close> the deepest one.
\<close>

definition wf_path :: "path_t \<Rightarrow> bool" where
  "wf_path p = (path_length p = length (path_str p) \<and> list_all comp_ok (comps (path_str p)) \<and>
                path_str p = render (comps (path_str p)))"

definition side_key :: "Side \<Rightarrow> binding \<Rightarrow> string list" where
  "side_key side b = comps (path_str (side_path side b))"

definition wf_binding :: "binding \<Rightarrow> bool" where
  "wf_binding b = (wf_path (host b) \<and> wf_path (guest b))"

definition queue_ordered :: "Side \<Rightarrow> binding list \<Rightarrow> bool" where
  "queue_ordered side l =
     (list_all wf_binding l \<and>
      sorted_wrt (\<lambda>a b. \<not> strict_prefix (side_key side a) (side_key side b)) l)"

definition cmp_side :: "Side \<Rightarrow> binding \<Rightarrow> binding \<Rightarrow> Comparison" where
  "cmp_side side a b =
     compare_paths2 (path_str (side_path side a)) (path_length (side_path side a))
       (path_str (side_path side b)) (path_length (side_path side b))"

definition fs_ok :: "fs_state \<Rightarrow> bool" where
  "fs_ok t =
     (\<exists>gl hl. bs_guest t = Some gl \<and> bs_host t = Some hl \<and> set gl = set hl \<and>
        queue_ordered GUEST gl \<and> queue_ordered HOST hl \<and>
        distinct (map b_id gl) \<and> distinct (map b_id hl) \<and> (\<forall>b\<in>set gl. b_id b < next_id t) \<and>
        distinct (map (side_key GUEST) gl) \<and>
        (\<forall>b\<in>set gl. need_substitution b = (side_key HOST b \<noteq> side_key GUEST b)) \<and>
        gl \<noteq> [] \<and> side_key GUEST (last gl) = [])"

lemma wf_path_mk:
  "list_all comp_ok cs \<Longrightarrow> wf_path (mk_path (render cs))"
  by (simp add: wf_path_def comps_render)

lemma wf_side: "wf_binding b \<Longrightarrow> wf_path (side_path side b)"
  by (simp add: wf_binding_def side_path_def split: Side.split)

lemma wf_path_denotes: "wf_path p \<Longrightarrow> denotes (path_str p) (comps (path_str p))"
  unfolding wf_path_def by (metis denotes_render)

lemma denotes_comps: "denotes p cs \<Longrightarrow> comps p = cs"
proof -
  have "comps (body cs @ [slash]) = cs" if "list_all comp_ok cs" for cs
    using that
  proof (induction cs)
    case Nil
    show ?case by (simp add: comps_Nil)
  next
    case (Cons c cs)
    then show ?case using comps_prepend[of c "body cs @ [slash]"] body_hd[of cs]
      by (cases "body cs") auto
  qed
  then show "denotes p cs \<Longrightarrow> comps p = cs"
    by (auto simp: denotes_def comps_body)
qed

lemma compare_wf_path:
  assumes "wf_path p" "denotes q bs"
  shows "compare_paths2 (path_str p) (path_length p) q (length q) =
    (if comps (path_str p) = bs then PATHS_ARE_EQUAL
     else if strict_prefix (comps (path_str p)) bs then PATH1_IS_PREFIX
     else if strict_prefix bs (comps (path_str p)) then PATH2_IS_PREFIX
     else PATHS_ARE_NOT_COMPARABLE)"
  using compare_paths_denotes[OF wf_path_denotes[OF assms(1)] assms(2)] assms(1)
  by (simp add: wf_path_def compare_paths_def)

interpretation by_side: nested_paths wf_binding "side_key side" "cmp_side side" for side
proof unfold_locales
  fix a b assume "wf_binding a" "wf_binding b"
  then have "wf_path (side_path side a)" "wf_path (side_path side b)" by (auto intro: wf_side)
  then show "cmp_side side a b =
    (if side_key side a = side_key side b then PATHS_ARE_EQUAL
     else if strict_prefix (side_key side a) (side_key side b) then PATH1_IS_PREFIX
     else if strict_prefix (side_key side b) (side_key side a) then PATH2_IS_PREFIX
     else PATHS_ARE_NOT_COMPARABLE)"
    using compare_wf_path[OF _ wf_path_denotes]
    unfolding cmp_side_def side_key_def by (metis wf_path_def)
qed

lemma queue_ordered_in_order: "queue_ordered side l = by_side.in_order side l"
  by (simp add: queue_ordered_def by_side.in_order_def)

subsection \<open>Where the loop of insort\_binding places an entry\<close>

text \<open>The position of the last entry with a property, the loop's \<open>previous\<close>.\<close>

fun last_at :: "('a \<Rightarrow> bool) \<Rightarrow> 'a list \<Rightarrow> nat \<Rightarrow> nat option \<Rightarrow> nat option" where
  "last_at P [] i prev = prev"
| "last_at P (x # l) i prev = last_at P l (Suc i) (if P x then Some i else prev)"

lemma last_at_none: "\<forall>x\<in>set l. \<not> P x \<Longrightarrow> last_at P l i prev = prev"
  by (induction l arbitrary: i) auto

lemma last_at_split:
  "P x \<Longrightarrow> \<forall>y\<in>set ys. \<not> P y \<Longrightarrow> last_at P (xs @ x # ys) i prev = Some (i + length xs)"
  by (induction xs arbitrary: i prev) (auto simp: last_at_none)

definition within :: "Side \<Rightarrow> binding \<Rightarrow> binding \<Rightarrow> bool" where
  "within side b x = prefix (side_key side b) (side_key side x)"

lemma insort_loop_Cons:
  assumes "wf_binding b" "wf_binding it"
  shows "insort_loop side b (it # l) i prev nxt =
    (if side_key side b = side_key side it \<and> side \<noteq> HOST then Replace i
     else insort_loop side b l (Suc i) (if within side b it then Some i else prev)
       (if strict_prefix (side_key side it) (side_key side b) \<and> nxt = None then Some i else nxt))"
  using by_side.cmp_key[OF assms, of side]
  by (auto simp: cmp_side_def within_def strict_prefix_def)

lemma insort_loop_place:
  assumes "wf_binding b" "list_all wf_binding l"
    and "side \<noteq> HOST \<Longrightarrow> side_key side b \<notin> side_key side ` set l"
  shows "insort_loop side b l i prev (Some n) = Place (last_at (within side b) l i prev) (Some n)"
  using assms(2,3)
proof (induction l arbitrary: i prev)
  case (Cons it l)
  then show ?case using assms(1) by (auto simp: insort_loop_Cons simp del: insort_loop.simps)
qed simp

lemma insort_loop_replace:
  assumes "wf_binding b" "list_all wf_binding (xs @ it # ys)" "side \<noteq> HOST"
    and "side_key side it = side_key side b" "side_key side b \<notin> side_key side ` set xs"
  shows "insort_loop side b (xs @ it # ys) i prev nxt = Replace (i + length xs)"
  using assms(2,5)
proof (induction xs arbitrary: i prev nxt)
  case Nil
  then show ?case using assms(1,3,4) by (simp add: insort_loop_Cons del: insort_loop.simps)
next
  case (Cons x xs)
  then show ?case using assms(1) by (auto simp: insort_loop_Cons simp del: insort_loop.simps)
qed

text \<open>
  The three outcomes of an insertion.  The branch of the source that inserts before \<open>next\<close> is
  taken with \<open>next\<close> the first entry only: \<open>next\<close> starts as the first entry, so the assignment
  for "use the deepest container" never happens.
\<close>

lemma insort_binding_cases:
  assumes "wf_binding b" "list_all wf_binding (head_of t side)"
  obtains
    (replace) xs it ys where "side \<noteq> HOST" "head_of t side = xs @ it # ys"
      "side_key side it = side_key side b"
      "insort_binding t side b =
         remove_binding_from_all_lists (set_queue t side (xs @ it # b # ys)) it"
  | (after) xs x ys where "head_of t side = xs @ x # ys" "within side b x"
      "\<forall>y\<in>set ys. \<not> within side b y"
      "side \<noteq> HOST \<Longrightarrow> side_key side b \<notin> side_key side ` set (head_of t side)"
      "insort_binding t side b = set_queue t side (xs @ x # b # ys)"
  | (first) "\<forall>y\<in>set (head_of t side). \<not> within side b y"
      "insort_binding t side b = set_queue t side (b # head_of t side)"
proof -
  let ?l = "head_of t side"
  show ?thesis
  proof (cases "side \<noteq> HOST \<and> side_key side b \<in> side_key side ` set ?l")
    case True
    then have "\<exists>x\<in>set ?l. side_key side x = side_key side b" by force
    then obtain xs it ys where l: "?l = xs @ it # ys" "side_key side it = side_key side b"
      "\<forall>x\<in>set xs. side_key side x \<noteq> side_key side b"
      using split_list_first_prop[of ?l "\<lambda>x. side_key side x = side_key side b"] by blast
    then have "insort_loop side b ?l 0 None nxt = Replace (length xs)" for nxt
      using insort_loop_replace[OF assms(1), of xs it ys side 0 None nxt] True assms(2) by force
    then have "insort_binding t side b =
        remove_binding_from_all_lists (set_queue t side (xs @ it # b # ys)) it"
      by (simp add: insort_binding_def Let_def insert_at_def l(1))
    with True l replace show ?thesis by blast
  next
    case False
    then have place: "insort_loop side b ?l 0 None (Some n) =
        Place (last_at (within side b) ?l 0 None) (Some n)" for n
      using insort_loop_place[OF assms] by blast
    show ?thesis
    proof (cases "\<exists>x\<in>set ?l. within side b x")
      case True
      then obtain xs x ys where l: "?l = xs @ x # ys" "within side b x"
        "\<forall>y\<in>set ys. \<not> within side b y"
        using split_list_last_prop[of ?l "within side b"] by blast
      then have "last_at (within side b) ?l 0 None = Some (length xs)"
        by (simp add: last_at_split)
      then have "insort_binding t side b = set_queue t side (xs @ x # b # ys)"
        using place[of 0] by (simp add: insort_binding_def Let_def insert_at_def l(1))
      with l False after show ?thesis by blast
    next
      case none: False
      then have "last_at (within side b) ?l 0 None = None" by (simp add: last_at_none)
      then have "insort_binding t side b = set_queue t side (b # ?l)"
        using place[of 0] by (simp add: insort_binding_def Let_def insert_at_def)
      with none first show ?thesis by blast
    qed
  qed
qed

subsection \<open>Insertion keeps the order\<close>

lemma queue_ordered_insert_after:
  assumes "queue_ordered side (xs @ x # ys)" "wf_binding b" "within side b x"
    and "\<forall>y\<in>set ys. \<not> within side b y"
  shows "queue_ordered side (xs @ x # b # ys)"
  using by_side.in_order_insert[of side "xs @ [x]" ys b] assms
  by (auto simp: queue_ordered_in_order within_def strict_prefix_def)

lemma queue_ordered_insert_first:
  assumes "queue_ordered side l" "wf_binding b" "\<forall>y\<in>set l. \<not> within side b y"
  shows "queue_ordered side (b # l)"
  using by_side.in_order_insert[of side "[]" l b] assms
  by (auto simp: queue_ordered_in_order within_def strict_prefix_def)

lemma queue_ordered_filter: "queue_ordered side l \<Longrightarrow> queue_ordered side (filter P l)"
  by (simp add: queue_ordered_in_order by_side.in_order_filter)

lemma queue_ordered_replace:
  assumes "queue_ordered side (xs @ it # ys)" "wf_binding b" "side_key side it = side_key side b"
  shows "queue_ordered side (xs @ b # ys)"
  using by_side.in_order_replace[of side xs it ys b] assms
  by (simp add: queue_ordered_in_order)

lemma filter_id_notin: "i \<notin> b_id ` set l \<Longrightarrow> filter (\<lambda>b. b_id b \<noteq> i) l = l"
  by (induction l) auto

end
