(* ===== verification/Binding_Invariant.thy ===== *)
theory Binding_Invariant
  imports Binding_Order
begin

section \<open>Insertion and look-up of bindings\<close>

text \<open>
  \<open>insort_binding2\<close> keeps the invariant \<open>fs_ok\<close> and leaves the root alone; \<open>get_binding\<close> finds the
  deepest binding; \<open>substitute_binding\<close> maps a guest path into the host directory of its binding
  whenever the result fits a buffer.
\<close>

lemma set_queue_sel [simp]:
  "bs_guest (set_queue t side l) = (if side = GUEST then Some l else bs_guest t)"
  "bs_host (set_queue t side l) = (if side = HOST then Some l else bs_host t)"
  "bs_pending (set_queue t side l) = (if side = PENDING then Some l else bs_pending t)"
  "next_id (set_queue t side l) = next_id t" "cwd (set_queue t side l) = cwd t"
  "glue (set_queue t side l) = glue t" "glue_type (set_queue t side l) = glue_type t"
  by (cases side; simp add: set_queue_def)+

lemma remove_all_sel [simp]:
  "bs_guest (remove_binding_from_all_lists t b) = remove_id (b_id b) (bs_guest t)"
  "bs_host (remove_binding_from_all_lists t b) = remove_id (b_id b) (bs_host t)"
  "next_id (remove_binding_from_all_lists t b) = next_id t"
  "cwd (remove_binding_from_all_lists t b) = cwd t"
  "glue (remove_binding_from_all_lists t b) = glue t"
  "glue_type (remove_binding_from_all_lists t b) = glue_type t"
  by (simp_all add: remove_binding_from_all_lists_def)

lemma insort_binding_frame [simp]:
  "cwd (insort_binding t side b) = cwd t" "glue (insort_binding t side b) = glue t"
  "glue_type (insort_binding t side b) = glue_type t"
  "next_id (insort_binding t side b) = next_id t"
  by (simp_all add: insort_binding_def Let_def split: insort_pos.split option.split)

lemma insort_binding2_frame [simp]:
  "cwd (insort_binding2 t b) = cwd t" "glue (insort_binding2 t b) = glue t"
  "glue_type (insort_binding2 t b) = glue_type t" "next_id (insort_binding2 t b) = next_id t"
  by (simp_all add: insort_binding2_def Let_def)

lemma insort_binding3_frame [simp]:
  "cwd (insort_binding3 t h g) = cwd t" "glue (insort_binding3 t h g) = glue t"
  "glue_type (insort_binding3 t h g) = glue_type t"
  by (simp_all add: insort_binding3_def new_binding_object_def)

subsection \<open>The invariant is kept\<close>

text \<open>What the first of the two insertions establishes.\<close>

definition guest_inserted :: "fs_state \<Rightarrow> fs_state \<Rightarrow> binding \<Rightarrow> bool" where
  "guest_inserted t t' b =
     (\<exists>gl hl. bs_guest t' = Some gl \<and> bs_host t' = Some hl \<and> set gl = insert b (set hl) \<and>
        b \<notin> set hl \<and> set hl \<subseteq> set (head_of t GUEST) \<and>
        queue_ordered GUEST gl \<and> queue_ordered HOST hl \<and>
        distinct (map b_id gl) \<and> distinct (map b_id hl) \<and>
        distinct (map (side_key GUEST) gl) \<and> gl \<noteq> [] \<and> side_key GUEST (last gl) = [] \<and>
        (side_key GUEST b \<noteq> [] \<longrightarrow> last gl = last (head_of t GUEST)))"

lemma guest_insertedI:
  assumes "bs_guest t' = Some gl" "bs_host t' = Some hl" "set gl = insert b (set hl)"
    "b \<notin> set hl" "set hl \<subseteq> set (head_of t GUEST)"
    "queue_ordered GUEST gl" "queue_ordered HOST hl"
    "distinct (map b_id gl)" "distinct (map b_id hl)" "distinct (map (side_key GUEST) gl)"
    "gl \<noteq> []" "side_key GUEST (last gl) = []" "last gl = last (head_of t GUEST)"
  shows "guest_inserted t t' b"
  using assms unfolding guest_inserted_def by blast

lemma fs_ok_head: "fs_ok t \<Longrightarrow> bs_guest t = Some (head_of t GUEST) \<and> bs_host t = Some (head_of t HOST)"
  by (auto simp: fs_ok_def head_of_def queue_of_def)

lemma in_set_map_distinct:
  "distinct (map f l) \<Longrightarrow> x \<in> set l \<Longrightarrow> y \<in> set l \<Longrightarrow> f x = f y \<Longrightarrow> x = y"
  by (simp add: distinct_map inj_on_def)

lemma guest_inserted_insort:
  assumes ok: "fs_ok t" and wf: "wf_binding b" and fresh: "b_id b \<notin> b_id ` set (head_of t GUEST)"
  shows "guest_inserted t (insort_binding t GUEST b) b"
proof -
  let ?gl = "head_of t GUEST" and ?hl = "head_of t HOST"
  have q: "bs_guest t = Some ?gl" "bs_host t = Some ?hl" using fs_ok_head[OF ok] by auto
  from ok q have inv: "set ?gl = set ?hl" "queue_ordered GUEST ?gl" "queue_ordered HOST ?hl"
    "distinct (map b_id ?gl)" "distinct (map b_id ?hl)" "distinct (map (side_key GUEST) ?gl)"
    "?gl \<noteq> []" "side_key GUEST (last ?gl) = []"
    by (auto simp: fs_ok_def)
  have wfl: "list_all wf_binding ?gl" using inv(2) by (simp add: queue_ordered_def)
  have bn: "b \<notin> set ?hl" using fresh inv(1) by blast
  from wf wfl show ?thesis
  proof (cases rule: insort_binding_cases)
    case (replace xs it ys)
    have d: "distinct (map b_id (xs @ it # ys))" "distinct (map (side_key GUEST) (xs @ it # ys))"
      using inv(4,6) replace(2) by auto
    have bid: "b_id it \<noteq> b_id b" using fresh replace(2) by auto
    have g: "bs_guest (insort_binding t GUEST b) = Some (xs @ b # ys)"
      using d(1) bid by (simp add: replace(4) remove_id_def filter_id_notin)
    have h: "bs_host (insort_binding t GUEST b) = Some (filter (\<lambda>x. b_id x \<noteq> b_id it) ?hl)"
      using q(2) by (simp add: replace(4) remove_id_def)
    have hs: "set (filter (\<lambda>x. b_id x \<noteq> b_id it) ?hl) = set xs \<union> set ys"
    proof -
      have "set (filter (\<lambda>x. b_id x \<noteq> b_id it) ?hl) = {x \<in> set (xs @ it # ys). b_id x \<noteq> b_id it}"
        using inv(1) replace(2) by auto
      also have "\<dots> = set xs \<union> set ys" using d(1) by auto (metis imageI)+
      finally show ?thesis .
    qed
    have l: "side_key GUEST b \<noteq> [] \<longrightarrow> ys \<noteq> []" using inv(8) replace(2,3) by auto
    have ord: "queue_ordered GUEST (xs @ b # ys)"
      using queue_ordered_replace[of GUEST xs it ys b] inv(2) wf replace(2,3) by simp
    have "side_key GUEST (last (xs @ b # ys)) = []"
      using inv(8) replace(2,3) by (cases ys) auto
    moreover have "distinct (map b_id (xs @ b # ys))" using d(1) fresh replace(2) by auto
    moreover have "distinct (map (side_key GUEST) (xs @ b # ys))" using d(2) replace(3) by auto
    moreover have "b \<notin> set xs \<union> set ys" using fresh replace(2) by auto
    ultimately show ?thesis unfolding guest_inserted_def
      using g h hs l ord queue_ordered_filter[OF inv(3)] inv(5)
      by (intro exI[of _ "xs @ b # ys"] exI[of _ "filter (\<lambda>x. b_id x \<noteq> b_id it) ?hl"])
        (auto simp: replace(2) distinct_map_filter)
  next
    case (after xs x ys)
    have key: "side_key GUEST b \<notin> side_key GUEST ` set ?gl" using after(4) by simp
    have ord: "queue_ordered GUEST (xs @ x # b # ys)"
      using queue_ordered_insert_after[of GUEST xs x ys b] inv(2) wf after(1,2,3) by simp
    have set_eq: "set (xs @ x # b # ys) = insert b (set ?hl)" using inv(1) after(1) by auto
    have dist: "distinct (map b_id (xs @ x # b # ys))"
      "distinct (map (side_key GUEST) (xs @ x # b # ys))"
      using inv(4,6) fresh key unfolding after(1) by auto
    have "ys \<noteq> []"
    proof
      assume "ys = []"
      then have "side_key GUEST x = []" using inv(8) after(1) by simp
      then have "side_key GUEST b = side_key GUEST x" using after(2) by (simp add: within_def)
      then show False using key after(1) by auto
    qed
    then have "last (xs @ x # b # ys) = last ?gl" using after(1) by simp
    then have last: "side_key GUEST (last (xs @ x # b # ys)) = []" using inv(8) by simp
    have g: "bs_guest (insort_binding t GUEST b) = Some (xs @ x # b # ys)"
      and h: "bs_host (insort_binding t GUEST b) = Some ?hl"
      using q by (simp_all add: after(5))
    show ?thesis
      by (rule guest_insertedI[OF g h set_eq bn _ ord inv(3) dist(1) inv(5) dist(2) _ last
            \<open>last (xs @ x # b # ys) = last ?gl\<close>]) (simp_all add: inv(1))
  next
    case first
    have ord: "queue_ordered GUEST (b # ?gl)"
      using queue_ordered_insert_first[of GUEST ?gl b] inv(2) wf first(1) by simp
    have key: "side_key GUEST b \<notin> side_key GUEST ` set ?gl"
      using first(1) by (auto simp: within_def)
    then show ?thesis using ord inv q(2) fresh
      by (intro guest_insertedI[of _ "b # ?gl" ?hl]) (auto simp: first(2) bn)
  qed
qed

lemma host_insort:
  assumes "bs_host t = Some hl" "queue_ordered HOST hl" "wf_binding b"
    and "b_id b \<notin> b_id ` set hl" "distinct (map b_id hl)"
  obtains hl' where "bs_host (insort_binding t HOST b) = Some hl'" "queue_ordered HOST hl'"
    "set hl' = insert b (set hl)" "distinct (map b_id hl')"
    "bs_guest (insort_binding t HOST b) = bs_guest t"
proof -
  have hd: "head_of t HOST = hl" by (simp add: head_of_def queue_of_def assms(1))
  have wfl: "list_all wf_binding (head_of t HOST)" using assms(2) by (simp add: hd queue_ordered_def)
  from assms(3) wfl show ?thesis
  proof (cases rule: insort_binding_cases)
    case (replace xs it ys)
    then show ?thesis by simp
  next
    case (after xs x ys)
    then show ?thesis
      using that[of "xs @ x # b # ys"] queue_ordered_insert_after[of HOST xs x ys b] assms hd by auto
  next
    case first
    then show ?thesis
      using that[of "b # hl"] queue_ordered_insert_first[of HOST hl b] assms hd by auto
  qed
qed

lemma fs_ok_insort_binding2:
  assumes ok: "fs_ok t" and wf: "wf_binding b" and fresh: "b_id b \<notin> b_id ` set (head_of t GUEST)"
    and id: "b_id b < next_id t"
  shows "fs_ok (insort_binding2 t b)"
    and "side_key GUEST b \<noteq> [] \<Longrightarrow> get_root (insort_binding2 t b) = get_root t"
    and "\<exists>b'. b' \<in> set (head_of (insort_binding2 t b) GUEST) \<and> b_id b' = b_id b \<and>
           host b' = host b \<and> guest b' = guest b"
proof -
  let ?b = "b\<lparr>need_substitution := (compare_paths (path_str (host b)) (path_str (guest b))
                                     \<noteq> PATHS_ARE_EQUAL)\<rparr>"
  let ?t1 = "insort_binding t GUEST ?b"
  have keyb: "side_key side ?b = side_key side b" for side
    by (simp add: side_key_def side_path_def split: Side.split)
  have wfb: "wf_binding ?b" using wf by (simp add: wf_binding_def)
  have sub: "need_substitution ?b = (side_key HOST ?b \<noteq> side_key GUEST ?b)"
    using compare_paths_denotes[OF wf_path_denotes wf_path_denotes, of "host b" "guest b"] wf
    by (simp add: side_key_def side_path_def wf_binding_def)
  have "guest_inserted t ?t1 ?b" by (rule guest_inserted_insort[OF ok wfb]) (simp add: fresh)
  then obtain gl hl where q: "bs_guest ?t1 = Some gl" "bs_host ?t1 = Some hl"
    and s: "set gl = insert ?b (set hl)" "?b \<notin> set hl" "set hl \<subseteq> set (head_of t GUEST)"
    and o: "queue_ordered GUEST gl" "queue_ordered HOST hl"
    and d: "distinct (map b_id gl)" "distinct (map b_id hl)" "distinct (map (side_key GUEST) gl)"
    and l: "gl \<noteq> []" "side_key GUEST (last gl) = []"
    and r: "side_key GUEST ?b \<noteq> [] \<longrightarrow> last gl = last (head_of t GUEST)"
    unfolding guest_inserted_def by blast
  have "b_id ?b \<notin> b_id ` set hl" using fresh s(3) by auto
  then obtain hl' where h: "bs_host (insort_binding2 t b) = Some hl'" "queue_ordered HOST hl'"
    "set hl' = insert ?b (set hl)" "distinct (map b_id hl')"
    "bs_guest (insort_binding2 t b) = Some gl"
    using host_insort[OF q(2) o(2) wfb _ d(2)] q(1) unfolding insort_binding2_def Let_def by metis
  have old: "\<forall>x\<in>set hl. b_id x < next_id t \<and> need_substitution x = (side_key HOST x \<noteq> side_key GUEST x)"
    using ok s(3) by (auto simp: fs_ok_def head_of_def queue_of_def)
  show "fs_ok (insort_binding2 t b)"
    unfolding fs_ok_def using h s(1) o(1) d(1,3) l old id sub by auto
  show "get_root (insort_binding2 t b) = get_root t" if "side_key GUEST b \<noteq> []"
  proof -
    from that keyb r have "last gl = last (head_of t GUEST)" by simp
    moreover have "bs_guest t = Some (head_of t GUEST)" "head_of t GUEST \<noteq> []"
      using fs_ok_head[OF ok] ok by (auto simp: fs_ok_def)
    ultimately show ?thesis using h(5) l(1) by (simp add: get_root_def)
  qed
  show "\<exists>b'. b' \<in> set (head_of (insort_binding2 t b) GUEST) \<and> b_id b' = b_id b \<and>
      host b' = host b \<and> guest b' = guest b"
    using h(5) s(1) by (intro exI[of _ ?b]) (simp add: head_of_def queue_of_def)
qed

lemma fs_ok_next_id: "fs_ok t \<Longrightarrow> fs_ok (t\<lparr>next_id := Suc (next_id t)\<rparr>)"
  unfolding fs_ok_def by (auto simp: less_Suc_eq)

lemma fs_ok_insort_binding3:
  assumes ok: "fs_ok t" and cs: "list_all comp_ok hs" "list_all comp_ok gs"
  shows "fs_ok (insort_binding3 t (render hs) (render gs))"
    and "gs \<noteq> [] \<Longrightarrow> get_root (insort_binding3 t (render hs) (render gs)) = get_root t"
    and "\<exists>b'. b' \<in> set (head_of (insort_binding3 t (render hs) (render gs)) GUEST) \<and>
           host b' = mk_path (render hs) \<and> guest b' = mk_path (render gs)"
proof -
  let ?t = "t\<lparr>next_id := Suc (next_id t)\<rparr>"
  let ?b = "\<lparr>b_id = next_id t, host = mk_path (render hs), guest = mk_path (render gs),
             need_substitution = False\<rparr>"
  have eq: "insort_binding3 t (render hs) (render gs) = insort_binding2 ?t ?b"
    by (simp add: insort_binding3_def new_binding_object_def)
  have hd: "head_of ?t GUEST = head_of t GUEST" by (simp add: head_of_def queue_of_def)
  have "\<forall>b\<in>set (head_of t GUEST). b_id b < next_id t"
    using ok fs_ok_head[OF ok] unfolding fs_ok_def by (metis option.inject)
  then have fresh: "b_id ?b \<notin> b_id ` set (head_of ?t GUEST)" by (auto simp: hd)
  have wf: "wf_binding ?b" using cs by (simp add: wf_binding_def wf_path_mk)
  note ins = fs_ok_insort_binding2[OF fs_ok_next_id[OF ok] wf fresh]
  show "fs_ok (insort_binding3 t (render hs) (render gs))" using ins(1) by (simp add: eq)
  have rt: "get_root ?t = get_root t" by (simp add: get_root_def split: option.split)
  show "get_root (insort_binding3 t (render hs) (render gs)) = get_root t" if "gs \<noteq> []"
    using ins(2) that cs rt by (simp add: eq side_key_def side_path_def comps_render)
  show "\<exists>b'. b' \<in> set (head_of (insort_binding3 t (render hs) (render gs)) GUEST) \<and>
           host b' = mk_path (render hs) \<and> guest b' = mk_path (render gs)"
    using ins(3) unfolding eq by auto
qed

subsection \<open>Look-up\<close>

lemma guest_queue_facts:
  assumes "fs_ok t" "b \<in> set (head_of t GUEST)"
  shows "wf_binding b" "need_substitution b = (side_key HOST b \<noteq> side_key GUEST b)"
    "b \<in> set (head_of t HOST)"
  using assms by (auto simp: fs_ok_def head_of_def queue_of_def queue_ordered_def list_all_iff)

text \<open>The assertions of \<open>get_root\<close> hold, and the comparisons get paths that are not empty.\<close>

lemma wf_path_nonempty: "wf_path p \<Longrightarrow> path_str p \<noteq> [] \<and> 0 < path_length p"
  unfolding wf_path_def by (metis length_greater_0_conv render_nonempty)

lemma fs_ok_root_asserted:
  assumes "fs_ok t"
  shows "root_asserted t"
proof -
  obtain gl where gl: "bs_guest t = Some gl" "gl \<noteq> []" "side_key GUEST (last gl) = []"
    "wf_path (guest (last gl))"
    using assms by (auto simp: fs_ok_def queue_ordered_def list_all_iff wf_binding_def)
  then have "path_str (guest (last gl)) = render []"
    unfolding wf_path_def side_key_def side_path_def by simp
  then show ?thesis using gl by (simp add: root_asserted_def render_def)
qed

lemma fs_ok_paths_asserted:
  assumes "fs_ok t" "b \<in> set (head_of t GUEST)"
  shows "0 < path_length (side_path side b)"
  using wf_path_nonempty[OF wf_side[OF guest_queue_facts(1)[OF assms]]] by blast

lemma binding_matches_guest:
  assumes "fs_ok t" "b \<in> set (head_of t GUEST)" "denotes p cs"
  shows "binding_matches t GUEST p b = prefix (side_key GUEST b) cs"
  using compare_wf_path[OF _ assms(3), of "guest b"] guest_queue_facts(1)[OF assms(1,2)]
  by (auto simp: binding_matches_def side_path_def side_key_def wf_binding_def strict_prefix_def
      Let_def)

lemma find_cong_set: "(\<And>x. x \<in> set l \<Longrightarrow> P x = Q x) \<Longrightarrow> find P l = find Q l"
  by (induction l) auto

lemma get_binding_guest:
  assumes "fs_ok t" "denotes p cs"
  shows "get_binding t GUEST p =
    find (\<lambda>b. prefix (side_key GUEST b) cs) (head_of t GUEST)"
  unfolding get_binding_def using binding_matches_guest[OF assms(1) _ assms(2)]
  by (auto intro: find_cong_set)

lemma get_binding_guest_deepest:
  assumes ok: "fs_ok t" and p: "denotes p cs"
  obtains b where "get_binding t GUEST p = Some b" "b \<in> set (head_of t GUEST)"
    "prefix (side_key GUEST b) cs"
    "\<And>b'. b' \<in> set (head_of t GUEST) \<Longrightarrow> prefix (side_key GUEST b') cs \<Longrightarrow>
       length (side_key GUEST b') \<le> length (side_key GUEST b)"
proof -
  let ?gl = "head_of t GUEST" and ?P = "\<lambda>b. prefix (side_key GUEST b) cs"
  have gl: "?gl \<noteq> []" "side_key GUEST (last ?gl) = []" "queue_ordered GUEST ?gl"
    using ok by (auto simp: fs_ok_def head_of_def queue_of_def)
  then have "\<exists>x\<in>set ?gl. ?P x" by (intro bexI[of _ "last ?gl"]) auto
  then obtain b where b: "find ?P ?gl = Some b"
    by (metis (mono_tags, lifting) find_None_iff not_Some_eq)
  then have "b \<in> set ?gl" "?P b" by (auto simp: find_Some_iff)
  moreover have "length (side_key GUEST b') \<le> length (side_key GUEST b)"
    if "b' \<in> set ?gl" "prefix (side_key GUEST b') cs" for b'
    using by_side.first_is_deepest[of GUEST ?gl cs b b'] gl(3) b that
    by (simp add: queue_ordered_in_order)
  ultimately show ?thesis using that b get_binding_guest[OF ok p] by simp
qed

text \<open>Substitution on the guest side: into the host directory of the binding, if it fits.\<close>

lemma substitute_binding_guest:
  assumes ok: "fs_ok t" and p: "denotes p cs" and b: "get_binding t GUEST p = Some b"
    and fits: "length (path_str (host b)) + length p < PATH_MAX"
  shows "\<exists>n q. substitute_binding t GUEST p = Inr (n, q) \<and>
           denotes q (side_key HOST b @ drop (length (side_key GUEST b)) cs)"
proof -
  from get_binding_guest_deepest[OF ok p] b
  have mem: "b \<in> set (head_of t GUEST)" and pre: "prefix (side_key GUEST b) cs" by auto
  note facts = guest_queue_facts[OF ok mem]
  from pre obtain rest where cs: "cs = side_key GUEST b @ rest" by (auto simp: prefix_def)
  show ?thesis
  proof (cases "need_substitution b")
    case False
    then have "side_key HOST b = side_key GUEST b" using facts(2) by simp
    then show ?thesis using False b p cs denotes_absolute[OF p] by (simp add: substitute_binding_def)
  next
    case True
    then have ne: "side_key GUEST b \<noteq> [] \<or> side_key HOST b \<noteq> []" using facts(2) by metis
    have g: "path_length (guest b) = length (render (side_key GUEST b))"
      and h: "path_str (host b) = render (side_key HOST b)"
      "path_length (host b) = length (render (side_key HOST b))"
      and hok: "list_all comp_ok (side_key HOST b)"
      using facts(1) by (auto simp: wf_binding_def wf_path_def side_key_def side_path_def)
    obtain q where q: "substitute_path_prefix p (path_length (guest b)) (path_str (host b))
        (path_length (host b)) = Inr q"
      using substitute_path_prefix_short[OF fits, of "path_length (guest b)"] h by auto
    have "denotes q (side_key HOST b @ rest)"
      using substitute_path_prefix_denotes[of p "side_key GUEST b" rest "side_key HOST b"]
        p cs hok ne q g h by simp
    then show ?thesis using True b q cs denotes_absolute[OF p] by (simp add: substitute_binding_def)
  qed
qed

end
