(* ===== verification/Canon.thy ===== *)
theory Canon
  imports Binding_Invariant
begin

section \<open>Canonicalisation and translation of paths\<close>

text \<open>
  \<^verbatim>\<open>path/proc.c\<close>, \<^verbatim>\<open>path/glue.c\<close>, \<^verbatim>\<open>path/canon.c\<close> and the translation functions of
  \<^verbatim>\<open>path/path.c\<close>.  What these functions ask of the operating system, and the hooks of the
  extensions, are the fields of the record \<open>os\<close>, over a world \<open>'w\<close> that the calls may change.
  The state is the file-system state of the tracee and the world.
\<close>

subsection \<open>The environment\<close>

record tracee_view =
  tv_exe :: string
  tv_cwd :: string
  tv_root :: string

text \<open>
  \<open>os_host_path\<close>, \<open>os_guest_path\<close> and \<open>os_translated_path\<close> are \<open>notify_extensions\<close> for the events
  of these names: the status (an error, or for \<open>GUEST_PATH\<close> whether it is positive) and the
  buffer.  \<open>os_placeholder\<close> is \<open>set_placeholder_destructor\<close>.
\<close>

record 'w os =
  os_pid :: nat
  os_get_tracee :: "'w \<Rightarrow> int \<Rightarrow> tracee_view option"
  os_lstat :: "'w \<Rightarrow> string \<Rightarrow> ftype result"
  os_readlink :: "'w \<Rightarrow> string \<Rightarrow> string result"
  os_skip_f2fs :: "'w \<Rightarrow> string \<Rightarrow> bool"
  os_mkdir :: "'w \<Rightarrow> string \<Rightarrow> nat \<Rightarrow> errno option \<times> 'w"
  os_mknod :: "'w \<Rightarrow> string \<Rightarrow> ftype \<Rightarrow> nat \<Rightarrow> errno option \<times> 'w"
  os_temp_directory :: "'w \<Rightarrow> string option \<times> 'w"
  os_placeholder :: "'w \<Rightarrow> string \<Rightarrow> 'w"
  os_dont_pollute :: bool
  os_host_path :: "'w \<Rightarrow> string \<Rightarrow> bool \<Rightarrow> string result \<times> 'w"
  os_guest_path :: "'w \<Rightarrow> string \<Rightarrow> string \<Rightarrow> (bool \<times> string) result \<times> 'w"
  os_translated_path :: "'w \<Rightarrow> string \<Rightarrow> string result \<times> 'w"

type_synonym 'w st = "fs_state \<times> 'w"

subsection \<open>readlink\_proc\<close>

datatype Action = DEFAULT | CANONICALIZE string | DONT_CANONICALIZE string

definition show_int :: "int \<Rightarrow> string" where
  "show_int i = (if i < 0 then CHR ''-'' # show_nat (nat (- i)) else show_nat (nat i))"

text \<open>\<open>strtol(component, &end_ptr, 10)\<close> consumed something and did not overflow a 64-bit \<open>long\<close>.\<close>

definition strtol_ok :: "string \<Rightarrow> bool" where
  "strtol_ok s =
     (let t = dropWhile is_space s;
          u = (if t \<noteq> [] \<and> (hd t = CHR ''-'' \<or> hd t = CHR ''+'') then tl t else t)
      in takeWhile is_digit u \<noteq> [] \<and> - (2 ^ 63) \<le> atoi s \<and> atoi s < 2 ^ 63)"

definition substitute_view :: "tracee_view \<Rightarrow> string \<Rightarrow> Action result" where
  "substitute_view v component =
     (if component = ''exe'' then
        (if length (tv_exe v) \<ge> PATH_MAX then Inl EPERM else Inr (CANONICALIZE (tv_exe v)))
      else if component = ''cwd'' then
        (if length (tv_cwd v) \<ge> PATH_MAX then Inl EPERM else Inr (CANONICALIZE (tv_cwd v)))
      else if component = ''root'' then
        (if length (tv_root v) \<ge> PATH_MAX then Inl EPERM else Inr (CANONICALIZE (tv_root v)))
      else Inr DEFAULT)"

definition normalize_self :: "nat \<Rightarrow> string \<Rightarrow> string" where
  "normalize_self pid base =
     (if take 4 (drop 6 base) = ''self'' \<and> (cchar base 10 = slash \<or> cchar base 10 = NUL)
      then ''/proc/'' @ show_nat pid @ drop 10 base
      else base)"

text \<open>
  \<open>base + strlen("/proc/")\<close> is \<open>drop 6 base\<close>.  When \<open>readlink_proc2\<close> calls with \<open>base\<close> equal to
  \<^verbatim>\<open>/proc\<close>, the C code reads past the NUL, into what is left of the referrer; whatever is there,
  none of the branches below \<open>PATH1_IS_PREFIX\<close> applies to the base \<^verbatim>\<open>/proc\<close>, and the answer is
  \<open>DEFAULT\<close> as here.
\<close>

definition readlink_proc ::
  "(int \<Rightarrow> tracee_view option) \<Rightarrow> nat \<Rightarrow> string \<Rightarrow> string \<Rightarrow> Comparison \<Rightarrow> Action result" where
  "readlink_proc get_tracee my_pid base component comparison =
     (case comparison of
        PATHS_ARE_EQUAL \<Rightarrow>
          (if component \<noteq> ''self'' then Inr DEFAULT
           else if length (''/proc/'' @ show_nat my_pid) \<ge> PATH_MAX then Inl EPERM
           else Inr (CANONICALIZE (''/proc/'' @ show_nat my_pid)))
      | PATH1_IS_PREFIX \<Rightarrow>
          (let base = normalize_self my_pid base;
               pid = atoi (drop 6 base);
               proc_path = ''/proc/'' @ show_int pid
           in if length base \<ge> PATH_MAX then Inl EPERM
              else if pid = 0 then Inr DEFAULT
              else
                (case compare_paths proc_path base of
                   PATHS_ARE_EQUAL \<Rightarrow>
                     (case get_tracee pid of
                        None \<Rightarrow> Inr DEFAULT
                      | Some v \<Rightarrow> substitute_view v component)
                 | PATH1_IS_PREFIX \<Rightarrow>
                     (if compare_paths (proc_path @ ''/fd'') base = PATHS_ARE_EQUAL then
                        (if \<not> strtol_ok component then Inl EPERM
                         else if length (base @ slash # component) \<ge> PATH_MAX then Inl EPERM
                         else Inr (DONT_CANONICALIZE (base @ slash # component)))
                      else Inr DEFAULT)
                 | _ \<Rightarrow> Inr DEFAULT))
      | _ \<Rightarrow> Inr DEFAULT)"

text \<open>
  \<open>readlink_proc2\<close>: the emulated link if there is one.  An error of \<open>readlink_proc\<close> is compared
  with the action \<open>CANONICALIZE\<close> only, so it answers 0 (no emulation).
\<close>

definition readlink_proc2 ::
  "(int \<Rightarrow> tracee_view option) \<Rightarrow> nat \<Rightarrow> string \<Rightarrow> string option result" where
  "readlink_proc2 get_tracee my_pid referer =
     (if length referer \<ge> PATH_MAX then Inl ENAMETOOLONG
      else
        (let component = rev (takeWhile (\<lambda>c. c \<noteq> slash) (rev referer));
             base = take (length referer - length component - 1) referer
         in if component = [] then Inr None
            else
              (case readlink_proc get_tracee my_pid base component PATH1_IS_PREFIX of
                 Inr (CANONICALIZE s) \<Rightarrow> Inr (if s = [] then None else Some s)
               | _ \<Rightarrow> Inr None)))"

subsection \<open>detranslate\_path\<close>

text \<open>The switch on the comparison of the root with the path; the status is \<open>new_length + 1\<close>.\<close>

definition detranslate_root :: "fs_state \<Rightarrow> string \<Rightarrow> bool \<Rightarrow> (nat \<times> string) result" where
  "detranslate_root t path sanity_check =
     (case get_root t of
        None \<Rightarrow> (if sanity_check then Inl EPERM else Inr (0, path))
      | Some root \<Rightarrow>
          (case compare_paths root path of
             PATH1_IS_PREFIX \<Rightarrow>
               (let prefix_length = (if length root = 1 then 0 else length root);
                    path' = drop prefix_length path
                in Inr (length path' + 1, path'))
           | PATHS_ARE_EQUAL \<Rightarrow> Inr (2, [slash])
           | _ \<Rightarrow> (if sanity_check then Inl EPERM else Inr (0, path))))"

definition detranslate_follow ::
  "fs_state \<Rightarrow> string \<Rightarrow> bool \<Rightarrow> bool \<Rightarrow> (nat \<times> string) result" where
  "detranslate_follow t path sanity_check follow_binding =
     (if follow_binding then
        (case substitute_binding t HOST path of
           Inr (n, path') \<Rightarrow> (if n = 0 then Inr (0, path') else Inr (length path' + 1, path'))
         | Inl _ \<Rightarrow> detranslate_root t path sanity_check)
      else detranslate_root t path sanity_check)"

definition referrer_same_binding :: "fs_state \<Rightarrow> string \<Rightarrow> string \<Rightarrow> bool" where
  "referrer_same_binding t path referrer =
     (case get_path_binding t HOST path of
        None \<Rightarrow> False
      | Some binding_referree \<Rightarrow>
          (case get_path_binding t HOST referrer of
             None \<Rightarrow> False
           | Some binding_referrer \<Rightarrow>
               compare_paths binding_referree binding_referrer = PATHS_ARE_EQUAL))"

text \<open>
  \<open>EABORTED\<close> is an assertion on the referrer: \<open>compare_paths\<close> asserts that it is not empty,
  \<open>get_path_binding\<close> that it is absolute.
\<close>

definition detranslate_path ::
  "'w os \<Rightarrow> 'w st \<Rightarrow> string \<Rightarrow> string option \<Rightarrow> (nat \<times> string) result" where
  "detranslate_path os s path t_referrer =
     (if length path \<ge> PATH_MAX then Inl ENAMETOOLONG
      else if cchar path 0 \<noteq> slash then Inr (0, path)
      else
        (case t_referrer of
           None \<Rightarrow> detranslate_follow (fst s) path True True
         | Some referrer \<Rightarrow>
             (if referrer = [] then Inl EABORTED
              else if compare_paths ''/proc'' referrer = PATH1_IS_PREFIX then
                (case readlink_proc2 (os_get_tracee os (snd s)) (os_pid os) referrer of
                   Inl e \<Rightarrow> Inl e
                 | Inr (Some proc_path) \<Rightarrow> Inr (length proc_path + 1, proc_path)
                 | Inr None \<Rightarrow> detranslate_follow (fst s) path False True)
              else if \<not> belongs_to_guestfs (fst s) referrer then
                if get_path_binding (fst s) HOST path \<noteq> None \<and> cchar referrer 0 \<noteq> slash
                then Inl EABORTED
                else detranslate_follow (fst s) path False (referrer_same_binding (fst s) path referrer)
              else detranslate_follow (fst s) path False False)))"

subsection \<open>build\_glue\<close>

definition glue_directory :: "'w os \<Rightarrow> 'w st \<Rightarrow> 'w st" where
  "glue_directory os s =
     (case s of (t, w) \<Rightarrow>
        (case glue t of
           Some _ \<Rightarrow> (t, w)
         | None \<Rightarrow> (case os_temp_directory os w of (d, w) \<Rightarrow> (t\<lparr>glue := d\<rparr>, w))))"

definition create_glue_binding :: "'w st \<Rightarrow> string \<Rightarrow> string \<Rightarrow> ftype \<Rightarrow> ftype \<times> 'w st" where
  "create_glue_binding s glue_path guest_path type =
     (if length glue_path \<ge> PATH_MAX \<or> length guest_path \<ge> PATH_MAX then (S_NONE, s)
      else (type, (insort_binding3 (fst s) glue_path guest_path, snd s)))"

text \<open>\<open>mkdir\<close> or \<open>mknod\<close>, and the placeholder destructor outside of the glue directory.\<close>

definition create_component ::
  "'w os \<Rightarrow> 'w \<Rightarrow> string \<Rightarrow> ftype \<Rightarrow> nat \<Rightarrow> bool \<Rightarrow> errno option \<times> 'w" where
  "create_component os w host_path type mode belongs_to_gluefs =
     (case (if type = S_IFDIR then os_mkdir os w host_path mode
            else os_mknod os w host_path type mode) of
        (status, w) \<Rightarrow>
          (status, if status = None \<and> \<not> belongs_to_gluefs then os_placeholder os w host_path else w))"

definition build_glue ::
  "'w os \<Rightarrow> 'w st \<Rightarrow> string \<Rightarrow> string \<Rightarrow> Finality \<Rightarrow> ftype \<times> 'w st" where
  "build_glue os s guest_path host_path finality =
     (let s = glue_directory os s in
      case glue (fst s) of
        None \<Rightarrow> (S_NONE, s)
      | Some glue_path \<Rightarrow>
          (let belongs_to_gluefs =
                 (compare_paths glue_path host_path = PATHS_ARE_EQUAL \<or>
                  compare_paths glue_path host_path = PATH1_IS_PREFIX);
               type = (if IS_FINAL finality then glue_type (fst s) else S_IFDIR);
               mode = (if IS_FINAL finality then (if belongs_to_gluefs then 511 else 0) else 511)
           in if os_dont_pollute os \<and> \<not> belongs_to_gluefs then
                create_glue_binding s glue_path guest_path type
              else
                (case create_component os (snd s) host_path type mode belongs_to_gluefs of
                   (status, w) \<Rightarrow>
                     (if status = None \<or> status = Some EEXIST \<or> IS_FINAL finality
                      then (type, (fst s, w))
                      else if belongs_to_gluefs then (S_NONE, (fst s, w))
                      else create_glue_binding (fst s, w) glue_path guest_path type))))"

subsection \<open>canonicalize\<close>

text \<open>The file type of the host path: the status of \<open>lstat\<close> and \<open>st_mode\<close>.\<close>

definition stat_host_path :: "'w os \<Rightarrow> 'w \<Rightarrow> string \<Rightarrow> bool \<times> ftype" where
  "stat_host_path os w host_path =
     (if os_skip_f2fs os w host_path then (False, S_NONE)
      else
        (case os_lstat os w host_path of
           Inr ty \<Rightarrow> (True, ty)
         | Inl e \<Rightarrow> (if e = EACCES \<and> host_path = ''/linkerconfig'' then (True, S_IFDIR)
                     else (False, S_NONE))))"

text \<open>The result: whether the path is a symbolic link, and the host path.\<close>

definition substitute_binding_stat ::
  "'w os \<Rightarrow> 'w st \<Rightarrow> Finality \<Rightarrow> nat \<Rightarrow> string \<Rightarrow> (bool \<times> string) result \<times> 'w st" where
  "substitute_binding_stat os s finality recursion_level guest_path =
     (case substitute_binding (fst s) GUEST guest_path of
        Inl e \<Rightarrow> (Inl e, s)
      | Inr (_, host_path) \<Rightarrow>
          (case (if glue_type (fst s) = S_NONE
                 then os_host_path os (snd s) host_path (IS_FINAL finality \<and> recursion_level = 0)
                 else (Inr host_path, snd s)) of
             (Inl e, w) \<Rightarrow> (Inl e, (fst s, w))
           | (Inr host_path, w) \<Rightarrow>
               (let (found, mode) = stat_host_path os w host_path;
                    s = (fst s, w);
                    (mode, s) = (if \<not> found \<and> glue_type (fst s) \<noteq> S_NONE
                                 then build_glue os s guest_path host_path finality
                                 else (mode, s))
                in if \<not> IS_FINAL finality \<and> mode \<noteq> S_IFDIR \<and> mode \<noteq> S_IFLNK
                   then (Inl (if found then ENOTDIR else ENOENT), s)
                   else (Inr (mode = S_IFLNK, host_path), s))))"

text \<open>
  What happens to a link that has to be dereferenced: fail, stop with a path that must not be
  dereferenced, or canonicalise the target.
\<close>

datatype link_action = Link_Fail errno | Link_Stop string | Link_Canon string

definition alias_base :: "fs_state \<Rightarrow> string \<Rightarrow> Comparison \<times> string" where
  "alias_base t guest_path =
     (let comparison = compare_paths ''/proc'' guest_path in
      if comparison \<noteq> PATHS_ARE_EQUAL \<and> comparison \<noteq> PATH1_IS_PREFIX then
        (let alias = take (PATH_MAX - 1) guest_path;
             alias = (case substitute_binding t GUEST alias of Inr (_, a) \<Rightarrow> a | Inl _ \<Rightarrow> alias)
         in if alias \<noteq> guest_path then (compare_paths ''/proc'' alias, alias)
            else (comparison, guest_path))
      else (comparison, guest_path))"

definition read_link :: "'w os \<Rightarrow> 'w st \<Rightarrow> string \<Rightarrow> link_action" where
  "read_link os s host_path =
     (case os_readlink os (snd s) host_path of
        Inl e \<Rightarrow> Link_Fail e
      | Inr target \<Rightarrow>
          (if length target \<ge> PATH_MAX then Link_Fail ENAMETOOLONG
           else
             (case detranslate_path os s target (Some host_path) of
                Inl e \<Rightarrow> Link_Fail e
              | Inr (_, target) \<Rightarrow> Link_Canon target)))"

definition resolve_link ::
  "'w os \<Rightarrow> 'w st \<Rightarrow> string \<Rightarrow> string \<Rightarrow> Finality \<Rightarrow> string \<Rightarrow> link_action" where
  "resolve_link os s guest_path component finality host_path =
     (case alias_base (fst s) guest_path of
        (comparison, proc_base) \<Rightarrow>
          (if comparison = PATHS_ARE_EQUAL \<or> comparison = PATH1_IS_PREFIX then
             (case readlink_proc (os_get_tracee os (snd s)) (os_pid os) proc_base component comparison of
                Inl e \<Rightarrow> Link_Fail e
              | Inr (CANONICALIZE target) \<Rightarrow> Link_Canon target
              | Inr (DONT_CANONICALIZE target) \<Rightarrow>
                  (if finality = FINAL_NORMAL then Link_Stop target else read_link os s host_path)
              | Inr DEFAULT \<Rightarrow> read_link os s host_path)
           else read_link os s host_path))"

definition canon_exit :: "nat \<Rightarrow> Finality \<Rightarrow> string \<Rightarrow> string result" where
  "canon_exit recursion_level finality guest_path =
     (if recursion_level = 0 then
        (case finality of
           FINAL_SLASH \<Rightarrow> join_paths [Some guest_path, Some []]
         | FINAL_DOT \<Rightarrow> join_paths [Some guest_path, Some ''.'']
         | _ \<Rightarrow> Inr guest_path)
      else Inr guest_path)"

lemma next_component_less:
  "next_component cur = Inr (fin, c, rest) \<Longrightarrow> \<not> IS_FINAL fin \<Longrightarrow> length rest < length cur"
  using next_component_not_final by (auto simp: IS_FINAL_def)

text \<open>
  The pattern of the assertion on what a dereferenced link leads to,
  \<open>sscanf(guest_path, "/proc/%*d/fd/%d", &status) == 1\<close>.
\<close>

definition names_proc_fd :: "string \<Rightarrow> bool" where
  "names_proc_fd path =
     (take 6 path = ''/proc/'' \<and>
      (case scan_int (drop 6 path) of
         None \<Rightarrow> False
       | Some (_, rest) \<Rightarrow> take 4 rest = ''/fd/'' \<and> scan_int (drop 4 rest) \<noteq> None))"

text \<open>
  \<open>canon_loop\<close> is the \<open>while\<close> loop from a cursor on, \<open>n\<close> the number of symbolic links followed so
  far; it returns the path and the finality the loop ends with.  After a link was followed the path
  must not name a link again, unless it names an open file of a process: \<open>EABORTED\<close> is that
  assertion.
\<close>

function (sequential)
  canonicalize ::
    "'w os \<Rightarrow> 'w st \<Rightarrow> string \<Rightarrow> bool \<Rightarrow> string \<Rightarrow> nat \<Rightarrow> string result \<times> 'w st" and
  canon_loop ::
    "'w os \<Rightarrow> 'w st \<Rightarrow> string \<Rightarrow> bool \<Rightarrow> string \<Rightarrow> nat \<Rightarrow> nat \<Rightarrow>
      (string \<times> Finality) result \<times> 'w st" where
  "canonicalize os s user_path deref_final guest_path level =
     (if level > MAXSYMLINKS then (Inl ELOOP, s)
      else if length guest_path \<ge> PATH_MAX then (Inl ENAMETOOLONG, s)
      else if cchar user_path 0 \<noteq> slash \<and> cchar guest_path 0 \<noteq> slash then (Inl EINVAL, s)
      else
        (case canon_loop os s user_path deref_final
                (if cchar user_path 0 \<noteq> slash then guest_path else [slash]) level 0 of
           (Inl e, s') \<Rightarrow> (Inl e, s')
         | (Inr (guest_path', finality), s') \<Rightarrow> (canon_exit level finality guest_path', s')))"
| "canon_loop os s cursor deref_final guest_path level n =
     (case next_component cursor of
        Inl e \<Rightarrow> (Inl e, s)
      | Inr (finality, component, cursor') \<Rightarrow>
          (if component = ''.'' then
             (if IS_FINAL finality then (Inr (guest_path, FINAL_DOT), s)
              else canon_loop os s cursor' deref_final guest_path level n)
           else if component = ''..'' then
             (if IS_FINAL finality then (Inr (pop_component guest_path, FINAL_SLASH), s)
              else canon_loop os s cursor' deref_final (pop_component guest_path) level n)
           else
             (case join_paths [Some guest_path, Some component] of
                Inl e \<Rightarrow> (Inl e, s)
              | Inr scratch_path \<Rightarrow>
                  (case substitute_binding_stat os s finality level scratch_path of
                     (Inl e, s1) \<Rightarrow> (Inl e, s1)
                   | (Inr (is_link, host_path), s1) \<Rightarrow>
                       (if \<not> is_link \<or> (finality = FINAL_NORMAL \<and> \<not> deref_final) then
                          (if IS_FINAL finality then (Inr (scratch_path, finality), s1)
                           else canon_loop os s1 cursor' deref_final scratch_path level n)
                        else
                          (case resolve_link os s1 guest_path component finality host_path of
                             Link_Fail e \<Rightarrow> (Inl e, s1)
                           | Link_Stop target \<Rightarrow> (Inr (target, FINAL_NORMAL), s1)
                           | Link_Canon target \<Rightarrow>
                               (case canonicalize os s1 target True guest_path (level + Suc n) of
                                  (Inl e, s2) \<Rightarrow> (Inl e, s2)
                                | (Inr guest_path', s2) \<Rightarrow>
                                    (case substitute_binding_stat os s2 finality level guest_path' of
                                       (Inl e, s3) \<Rightarrow> (Inl e, s3)
                                     | (Inr (still_link, _), s3) \<Rightarrow>
                                         (if still_link \<and> \<not> names_proc_fd guest_path' then
                                            (Inl EABORTED, s3)
                                          else if IS_FINAL finality then (Inr (guest_path', finality), s3)
                                          else canon_loop os s3 cursor' deref_final guest_path' level
                                                 (Suc n)))))))))) "
  by pat_completeness auto

termination
  by (relation "measures
      [\<lambda>x. case x of Inl (os, s, u, d, g, level) \<Rightarrow> Suc MAXSYMLINKS - level
                   | Inr (os, s, c, d, g, level, n) \<Rightarrow> Suc MAXSYMLINKS - level,
       \<lambda>x. case x of Inl (os, s, u, d, g, level) \<Rightarrow>
                       (if level > MAXSYMLINKS then 0 else Suc (Suc (length u)))
                   | Inr (os, s, c, d, g, level, n) \<Rightarrow> Suc (length c)]")
    (auto dest: next_component_less)

declare canonicalize.simps [simp del] canon_loop.simps [simp del]

end
