(* ===== verification/Canon_Safety.thy ===== *)
theory Canon_Safety
  imports Canon
begin

section \<open>Canonicalisation yields canonical guest paths\<close>

text \<open>
  Whatever the file system answers, a successful \<open>canonicalize\<close> returns an absolute path without
  \<open>..\<close>, without \<open>.\<close> but for a final one, and without empty components, and the binding queues
  keep their invariant.  \<open>env_ok\<close> states what is relied on: \<open>readlink(2)\<close> returns neither an empty
  target nor a NUL, the emulated links of \<^verbatim>\<open>/proc\<close> are not empty, and the temporary directory is
  an absolute canonical path.
\<close>

definition clean :: "string \<Rightarrow> bool" where
  "clean p = (p \<noteq> [] \<and> NUL \<notin> set p)"

definition rendered :: "string \<Rightarrow> bool" where
  "rendered p = (\<exists>cs. list_all comp_ok cs \<and> p = render cs)"

definition env_ok :: "'w os \<Rightarrow> bool" where
  "env_ok os =
     ((\<forall>w p t. os_readlink os w p = Inr t \<longrightarrow> clean t) \<and>
      (\<forall>w i v. os_get_tracee os w i = Some v \<longrightarrow>
         clean (tv_exe v) \<and> clean (tv_cwd v) \<and> clean (tv_root v)) \<and>
      (\<forall>w d w'. os_temp_directory os w = (Some d, w') \<longrightarrow> rendered d))"

definition st_ok :: "'w st \<Rightarrow> bool" where
  "st_ok s = (fs_ok (fst s) \<and> (\<forall>d. glue (fst s) = Some d \<longrightarrow> rendered d))"

definition canon_guest :: "string \<Rightarrow> bool" where
  "canon_guest g = ((\<exists>gs. list_all name_ok gs \<and> g = render gs) \<and> length g < PATH_MAX)"

text \<open>The forms a result can have at the first level of the recursion.\<close>

definition final_form :: "string \<Rightarrow> string list \<Rightarrow> bool" where
  "final_form g gs = (g = render gs \<or> g = body gs @ [slash] \<or> g = render (gs @ [''.'']))"

lemma body_clean: "list_all comp_ok cs \<Longrightarrow> cs \<noteq> [] \<Longrightarrow> clean (body cs)"
  by (simp add: clean_def body_no_NUL)

lemma render_clean: "list_all comp_ok cs \<Longrightarrow> clean (render cs)"
  by (cases "cs = []") (simp_all add: body_clean render_Cons, simp add: clean_def)

subsection \<open>Substitution and detranslation\<close>

lemma substitute_path_prefix_clean:
  assumes "substitute_path_prefix p n new (length new) = Inr q" "clean p" "clean new"
  shows "clean q"
proof -
  have "NUL \<notin> set (drop n p)" using assms(2) by (auto simp: clean_def dest: in_set_dropD)
  with assms show ?thesis
    by (auto simp: substitute_path_prefix_def Let_def clean_def split: if_splits)
qed

lemma get_binding_mem: "get_binding t side p = Some b \<Longrightarrow> b \<in> set (head_of t side)"
  by (auto simp: get_binding_def find_Some_iff split: if_splits)

lemma fs_ok_wf_binding: "fs_ok t \<Longrightarrow> side \<noteq> PENDING \<Longrightarrow> b \<in> set (head_of t side) \<Longrightarrow> wf_binding b"
  by (cases side) (auto simp: fs_ok_def head_of_def queue_of_def queue_ordered_def list_all_iff)

lemma wf_path_clean: "wf_path p \<Longrightarrow> clean (path_str p) \<and> path_length p = length (path_str p)"
  using render_clean unfolding wf_path_def by metis

lemma substitute_binding_clean:
  assumes "fs_ok t" "substitute_binding t side p = Inr (n, q)" "clean p"
  shows "clean q"
proof -
  obtain b where b: "get_binding t side p = Some b"
    using assms(2) by (auto simp: substitute_binding_def split: option.splits if_splits)
  then have "side \<noteq> PENDING" by (auto simp: get_binding_def)
  then have "wf_binding b" using fs_ok_wf_binding[OF assms(1) _ get_binding_mem[OF b]] by simp
  then have "clean (path_str (host b))" "clean (path_str (guest b))"
    "path_length (host b) = length (path_str (host b))"
    "path_length (guest b) = length (path_str (guest b))"
    by (auto simp: wf_binding_def wf_path_clean)
  with assms(2,3) b show ?thesis
    by (auto simp: substitute_binding_def substitute_path_prefix_clean Let_def
        split: if_splits Side.splits sum.splits)
qed

lemma compare_prefix_length:
  assumes "compare_paths root p = PATH1_IS_PREFIX" "rendered root"
  shows "length root = 1 \<or> length root < length p"
proof -
  obtain cs where cs: "list_all comp_ok cs" "root = render cs" using assms(2) by (auto simp: rendered_def)
  show ?thesis
  proof (cases "cs = []")
    case False
    then have "cchar root (length root - 1) \<noteq> slash" using render_last_slash cs by auto
    with assms(1) show ?thesis
      by (auto simp: compare_paths_def compare_paths2_def Let_def simp del: cchar_less split: if_splits)
  qed (simp add: cs)
qed

lemma detranslate_follow_clean:
  assumes "fs_ok t" "detranslate_follow t p c f = Inr (n, q)" "clean p"
  shows "clean q"
proof -
  have root: "clean q" if r: "detranslate_root t p c = Inr (n, q)"
  proof -
    have "clean (drop (length root) p)"
      if "get_root t = Some root" "compare_paths root p = PATH1_IS_PREFIX" "length root \<noteq> 1" for root
    proof -
      have "rendered root" using that(1) assms(1)
        by (auto simp: get_root_def fs_ok_def queue_ordered_def list_all_iff wf_binding_def
            wf_path_def rendered_def split: if_splits)
          (metis last_in_set)
      then have "length root < length p" using compare_prefix_length that(2,3) by blast
      then show ?thesis using assms(3) by (auto simp: clean_def dest: in_set_dropD)
    qed
    with r assms(3) show ?thesis
      by (auto simp: detranslate_root_def Let_def clean_def
          split: option.splits Comparison.splits if_splits)
  qed
  then show ?thesis using assms
    by (auto simp: detranslate_follow_def substitute_binding_clean split: if_splits sum.splits)
qed

lemma substitute_view_clean:
  assumes "substitute_view v c = Inr (CANONICALIZE q)"
    "clean (tv_exe v) \<and> clean (tv_cwd v) \<and> clean (tv_root v)"
  shows "clean q"
  using assms by (auto simp: substitute_view_def split: if_splits)

lemma show_nat_clean: "NUL \<notin> set (show_nat n)"
  using show_nat_digits digit_chars(6) by blast

lemma readlink_proc_clean:
  assumes "readlink_proc gt pid base c cmp = Inr (CANONICALIZE q)"
    "\<And>i v. gt i = Some v \<Longrightarrow> clean (tv_exe v) \<and> clean (tv_cwd v) \<and> clean (tv_root v)"
  shows "clean q"
  using assms
  by (auto simp: readlink_proc_def Let_def clean_def show_nat_clean
      split: Comparison.splits if_splits option.splits dest!: substitute_view_clean)

lemma readlink_proc2_clean:
  assumes "readlink_proc2 gt pid r = Inr (Some q)"
    "\<And>i v. gt i = Some v \<Longrightarrow> clean (tv_exe v) \<and> clean (tv_cwd v) \<and> clean (tv_root v)"
  shows "clean q"
  using assms readlink_proc_clean[OF _ assms(2)]
  by (auto simp: readlink_proc2_def Let_def split: if_splits sum.splits Action.splits)

lemma env_tracee:
  "env_ok os \<Longrightarrow> os_get_tracee os w i = Some v \<Longrightarrow>
    clean (tv_exe v) \<and> clean (tv_cwd v) \<and> clean (tv_root v)"
  by (simp add: env_ok_def)

lemma detranslate_path_clean:
  assumes "st_ok s" "env_ok os" "detranslate_path os s p r = Inr (n, q)" "clean p"
  shows "clean q"
proof -
  have ok: "fs_ok (fst s)" using assms(1) by (simp add: st_ok_def)
  show ?thesis using assms(3,4) detranslate_follow_clean[OF ok]
      readlink_proc2_clean[OF _ env_tracee[OF assms(2)]]
    by (auto simp: detranslate_path_def split: if_splits option.splits sum.splits)
qed

subsection \<open>Glue keeps the invariant\<close>

lemma fs_ok_glue [simp]: "fs_ok (t\<lparr>glue := d\<rparr>) = fs_ok t"
  by (simp add: fs_ok_def)

lemma glue_directory_ok:
  assumes "env_ok os" "st_ok s"
  shows "st_ok (glue_directory os s)"
proof -
  have "rendered d" if "os_temp_directory os w = (Some d, w')" for w d w'
    using assms(1) that unfolding env_ok_def by blast
  then show ?thesis using assms(2)
    by (auto simp: glue_directory_def st_ok_def split: prod.splits option.splits)
qed

lemma create_glue_binding_ok:
  assumes "st_ok s" "glue (fst s) = Some d" "rendered g"
  shows "st_ok (snd (create_glue_binding s d g ty))"
proof -
  obtain ds gs where "d = render ds" "list_all comp_ok ds" "g = render gs" "list_all comp_ok gs"
    using assms by (auto simp: st_ok_def rendered_def)
  with assms fs_ok_insort_binding3(1)[of "fst s" ds gs] show ?thesis
    by (auto simp: create_glue_binding_def st_ok_def)
qed

lemma build_glue_ok:
  fixes os :: "'w os"
  assumes "env_ok os" "st_ok s" "rendered g"
  shows "st_ok (snd (build_glue os s g h fin))"
proof -
  let ?s = "glue_directory os s"
  have ok: "st_ok ?s" using assms(1,2) by (rule glue_directory_ok)
  have w: "st_ok (fst ?s, w)" for w :: 'w using ok by (simp add: st_ok_def)
  show ?thesis
  proof (cases "glue (fst ?s)")
    case None
    then show ?thesis using ok by (simp add: build_glue_def)
  next
    case (Some d)
    have c: "st_ok (snd (create_glue_binding ?s d g ty))"
      "st_ok (snd (create_glue_binding (fst ?s, w) d g ty))" for w :: 'w and ty
      by (rule create_glue_binding_ok[OF ok Some assms(3)])
        (rule create_glue_binding_ok[OF w _ assms(3)], simp add: Some)
    show ?thesis
      by (simp add: build_glue_def Let_def Some c w split: prod.split)
  qed
qed

lemma substitute_binding_stat_ok:
  fixes os :: "'w os"
  assumes "env_ok os" "st_ok s" "rendered g"
  shows "st_ok (snd (substitute_binding_stat os s fin level g))"
proof (cases "substitute_binding (fst s) GUEST g")
  case (Inl e)
  then show ?thesis using assms(2) by (simp add: substitute_binding_stat_def)
next
  case (Inr nh)
  obtain n h where nh: "nh = (n, h)" by (cases nh)
  have w: "st_ok (fst s, w)" for w :: 'w using assms(2) by (simp add: st_ok_def)
  obtain r w where r: "(if glue_type (fst s) = S_NONE
      then os_host_path os (snd s) h (IS_FINAL fin \<and> level = 0) else (Inr h, snd s)) = (r, w)"
    by fastforce
  show ?thesis
  proof (cases r)
    case (Inl e)
    then show ?thesis using Inr nh r w by (simp add: substitute_binding_stat_def)
  next
    case r': (Inr h')
    obtain found mode where st: "stat_host_path os w h' = (found, mode)" by fastforce
    obtain m s' where bg: "build_glue os (fst s, w) g h' fin = (m, s')"
      by (cases "build_glue os (fst s, w) g h' fin")
    have "st_ok s'" using build_glue_ok[OF assms(1) w assms(3), of w h' fin] bg by simp
    then show ?thesis using Inr nh r r' st bg w
      by (simp add: substitute_binding_stat_def Let_def)
  qed
qed

subsection \<open>Links below /proc\<close>

lemma substitute_path_prefix_render:
  assumes ok: "list_all comp_ok (old @ rest)" and new: "list_all comp_ok new"
    and asym: "old \<noteq> [] \<or> new \<noteq> []"
    and q: "substitute_path_prefix (render (old @ rest)) (length (render old)) (render new)
              (length (render new)) = Inr q"
  shows "q = render (new @ rest)"
proof -
  have p: "denotes (render (old @ rest)) (old @ rest)" using ok by (rule denotes_render)
  have "denotes q (new @ rest)"
    using substitute_path_prefix_denotes[OF p new asym] q by simp
  moreover have "q \<noteq> body (new @ rest) @ [slash] \<or> new @ rest = []"
  proof (cases "rest = []")
    case True
    then show ?thesis using q new length_render_1[OF new] length_render_1[of old] ok asym
      by (auto simp: substitute_path_prefix_def Let_def render_Cons split: if_splits)
  next
    case False
    have "length (render rest) > 1" using length_render_gt1[of rest] ok False by simp
    then show ?thesis using q new length_render_1[OF new] length_render_1[of old] ok asym False
      by (cases "old = []"; cases "new = []")
        (auto simp: substitute_path_prefix_def Let_def render_Cons split: if_splits)
  qed
  ultimately show ?thesis by (auto simp: denotes_def render_def split: if_splits)
qed

lemma substitute_binding_rendered:
  assumes ok: "fs_ok t" and p: "rendered p" and q: "substitute_binding t GUEST p = Inr (n, q)"
  shows "rendered q"
proof -
  obtain cs where cs: "list_all comp_ok cs" "p = render cs" using p by (auto simp: rendered_def)
  obtain b where b: "get_binding t GUEST p = Some b" "prefix (side_key GUEST b) cs"
    "b \<in> set (head_of t GUEST)"
    using get_binding_guest_deepest[OF ok denotes_render[OF cs(1)]] cs(2) by metis
  note facts = guest_queue_facts[OF ok b(3)]
  from b(2) obtain rest where rest: "cs = side_key GUEST b @ rest" by (auto simp: prefix_def)
  show ?thesis
  proof (cases "need_substitution b")
    case False
    then show ?thesis using b q p by (simp add: substitute_binding_def split: if_splits)
  next
    case True
    then have ne: "side_key GUEST b \<noteq> [] \<or> side_key HOST b \<noteq> []" using facts(2) by metis
    have g: "path_length (guest b) = length (render (side_key GUEST b))"
      and h: "path_str (host b) = render (side_key HOST b)"
      "path_length (host b) = length (render (side_key HOST b))"
      and hok: "list_all comp_ok (side_key HOST b)"
      using facts(1) by (auto simp: wf_binding_def wf_path_def side_key_def side_path_def)
    have "q' = render (side_key HOST b @ rest)"
      if "substitute_path_prefix p (path_length (guest b)) (path_str (host b))
        (path_length (host b)) = Inr q'" for q'
      using substitute_path_prefix_render[of "side_key GUEST b" rest "side_key HOST b" q'] that
        cs hok ne rest g h by simp
    moreover have "list_all comp_ok (side_key HOST b @ rest)" using hok cs(1) rest by simp
    ultimately have "rendered q'"
      if "substitute_path_prefix p (path_length (guest b)) (path_str (host b))
        (path_length (host b)) = Inr q'" for q'
      using that unfolding rendered_def by blast
    then show ?thesis using True b(1) q p
      by (auto simp: substitute_binding_def Let_def split: sum.splits if_splits)
  qed
qed

lemma canon_guest_rendered: "canon_guest g \<Longrightarrow> rendered g"
  unfolding canon_guest_def rendered_def by (blast intro: list_all_name_comp)

lemma alias_base_rendered:
  assumes "fs_ok t" "canon_guest g" "alias_base t g = (cmp, base)"
  shows "rendered base"
  using assms substitute_binding_rendered[OF assms(1) canon_guest_rendered[OF assms(2)]]
    canon_guest_rendered[OF assms(2)]
  by (auto simp: alias_base_def Let_def canon_guest_def split: if_splits sum.splits)

lemma name_ok_show_nat: "name_ok (show_nat n)"
proof -
  have "dot \<notin> set (show_nat n)" by (rule show_nat_no_dot)
  then show ?thesis
    using show_nat_nonempty[of n] show_nat_no_slash[of n] show_nat_clean[of n]
    by (auto simp: name_ok_def comp_ok_def)
qed

lemma name_ok_show_int: "name_ok (show_int i)"
  using name_ok_show_nat[of "nat i"] name_ok_show_nat[of "nat (- i)"]
  by (auto simp: show_int_def name_ok_def comp_ok_def)

lemma body_proc: "body (''proc'' # n # cs) = ''/proc/'' @ n @ body cs"
  by simp

text \<open>The normalised base is canonical: \<open>self\<close> is replaced as a whole component.\<close>

lemma normalize_self_rendered:
  assumes "rendered base" "compare_paths ''/proc'' base = PATH1_IS_PREFIX"
  shows "rendered (normalize_self pid base)"
proof -
  obtain bs where bs: "list_all comp_ok bs" "base = render bs"
    using assms(1) by (auto simp: rendered_def)
  have pr: "render [''proc''] = ''/proc''" by (simp add: render_def)
  have okp: "list_all comp_ok [''proc'']" by (simp add: comp_ok_def)
  have "strict_prefix [''proc''] bs"
    using compare_paths_render[OF okp bs(1)] assms(2) bs(2) pr by (auto split: if_splits)
  then obtain zs where zs: "bs = ''proc'' # zs" "zs \<noteq> []"
    by (auto simp: strict_prefix_def prefix_def)
  then obtain n cs where ncs: "bs = ''proc'' # n # cs" by (cases zs) auto
  then have base: "base = ''/proc/'' @ n @ body cs" using bs(2) by (simp add: render_def)
  show ?thesis
  proof (cases "take 4 (drop 6 base) = ''self'' \<and> (cchar base 10 = slash \<or> cchar base 10 = NUL)")
    case False
    then show ?thesis using assms(1) unfolding normalize_self_def by (simp only: if_False)
  next
    case True
    then have tk: "take 4 (n @ body cs) = ''self''" by (simp add: base)
    have split: "n @ body cs = ''self'' @ drop 4 (n @ body cs)"
      using tk by (metis append_take_drop_id)
    have dr: "drop 10 base = drop 4 (n @ body cs)" by (simp add: base)
    have c10: "cchar base 10 = cchar (drop 4 (n @ body cs)) 0"
      by (subst base) (use split in \<open>auto simp: cchar_def\<close>)
    have nn: "NUL \<notin> set (drop 4 (n @ body cs))"
      using bs(1) ncs body_no_NUL[of cs] by (auto simp: comp_ok_def dest!: in_set_dropD)
    have hd: "drop 4 (n @ body cs) = [] \<or> hd (drop 4 (n @ body cs)) = slash"
    proof -
      obtain d where d: "drop 4 (n @ body cs) = d" by simp
      show ?thesis using True c10 nn unfolding d by (cases d) auto
    qed
    have "n = ''self'' \<and> body cs = drop 4 (n @ body cs)"
      using bs(1) ncs body_hd[of cs] hd
      by (intro comp_split[OF split]) (auto simp: comp_ok_def)
    then have "normalize_self pid base = render (''proc'' # show_nat pid # cs)"
      using True dr unfolding normalize_self_def by (simp add: render_def)
    moreover have "list_all comp_ok (''proc'' # show_nat pid # cs)"
      using bs(1) ncs name_ok_show_nat[of pid] by (simp add: name_ok_def)
    ultimately show ?thesis unfolding rendered_def by blast
  qed
qed

lemma readlink_proc_stop:
  assumes "readlink_proc gt pid base c cmp = Inr (DONT_CANONICALIZE q)" "rendered base"
    and "name_ok c" "cmp = compare_paths ''/proc'' base"
  shows "canon_guest q"
proof -
  let ?b = "normalize_self pid base"
  let ?i = "show_int (atoi (drop 6 ?b))"
  have cmp: "compare_paths ''/proc'' base = PATH1_IS_PREFIX"
    and eq: "compare_paths ((''/proc/'' @ ?i) @ ''/fd'') ?b = PATHS_ARE_EQUAL"
    and q: "q = ?b @ slash # c" "length q < PATH_MAX"
    using assms(1,4)
    by (auto simp: readlink_proc_def Let_def substitute_view_def
        split: Comparison.splits if_splits option.splits)
  obtain bs where bs: "list_all comp_ok bs" "?b = render bs"
    using normalize_self_rendered[OF assms(2) cmp] by (auto simp: rendered_def)
  have r: "(''/proc/'' @ ?i) @ ''/fd'' = render [''proc'', ?i, ''fd'']" by (simp add: render_def)
  have names: "list_all name_ok [''proc'', ?i, ''fd'', c]"
    using assms(3) name_ok_show_int by (simp add: name_ok_def comp_ok_def)
  then have ok: "list_all comp_ok [''proc'', ?i, ''fd'']" by (simp add: name_ok_def)
  define i where "i = ?i"
  have "bs = [''proc'', i, ''fd'']"
    using eq compare_paths_render[OF ok bs(1)] r bs(2) unfolding i_def by (metis Comparison.distinct(1,3,5))
  then have "q = render [''proc'', i, ''fd'', c]" using q(1) bs(2) by (simp add: render_def)
  then show ?thesis unfolding canon_guest_def using names q(2) unfolding i_def by blast
qed

lemma read_link_clean:
  assumes "env_ok os" "st_ok s" "read_link os s h = Link_Canon q"
  shows "clean q"
proof -
  obtain t n where t: "os_readlink os (snd s) h = Inr t"
    "detranslate_path os s t (Some h) = Inr (n, q)"
    using assms(3) by (auto simp: read_link_def split: sum.splits if_splits)
  then have "clean t" using assms(1) unfolding env_ok_def by blast
  then show ?thesis using detranslate_path_clean[OF assms(2,1) t(2)] by simp
qed

lemma read_link_not_stop: "read_link os s h \<noteq> Link_Stop q"
  by (auto simp: read_link_def split: sum.split prod.split)

lemma alias_base_cmp: "alias_base t g = (cmp, base) \<Longrightarrow> cmp = compare_paths ''/proc'' base"
  by (auto simp: alias_base_def Let_def split: if_splits)

lemma resolve_link_canon:
  assumes "env_ok os" "st_ok s" "resolve_link os s g c fin h = Link_Canon q"
  shows "clean q"
  using assms read_link_clean[OF assms(1,2)] readlink_proc_clean[OF _ env_tracee[OF assms(1)]]
  by (auto simp: resolve_link_def split: prod.splits if_splits sum.splits Action.splits)

lemma resolve_link_stop:
  assumes "st_ok s" "canon_guest g" "name_ok c \<or> c = []" "resolve_link os s g c fin h = Link_Stop q"
  shows "canon_guest q"
proof -
  obtain cmp base where ab: "alias_base (fst s) g = (cmp, base)" by (cases "alias_base (fst s) g")
  have "rendered base" using alias_base_rendered[OF _ assms(2) ab] assms(1) by (simp add: st_ok_def)
  moreover have stop: "readlink_proc (os_get_tracee os (snd s)) (os_pid os) base c cmp =
      Inr (DONT_CANONICALIZE q)"
    using assms(4) ab
    by (auto simp: resolve_link_def read_link_not_stop split: if_splits sum.splits Action.splits)
  moreover have "c \<noteq> []"
    using stop by (auto simp: readlink_proc_def Let_def substitute_view_def strtol_ok_def
        split: Comparison.splits if_splits option.splits)
  ultimately show ?thesis using readlink_proc_stop assms(3) alias_base_cmp[OF ab] by blast
qed

subsection \<open>The recursion\<close>

definition canon_result :: "nat \<Rightarrow> string \<Rightarrow> bool" where
  "canon_result level g =
     (if level = 0 then \<exists>gs. list_all name_ok gs \<and> final_form g gs else canon_guest g)"

definition canon_post :: "nat \<Rightarrow> string result \<times> 'w st \<Rightarrow> bool" where
  "canon_post level r = (st_ok (snd r) \<and> (\<forall>g. fst r = Inr g \<longrightarrow> canon_result level g))"

definition loop_post :: "(string \<times> Finality) result \<times> 'w st \<Rightarrow> bool" where
  "loop_post r = (st_ok (snd r) \<and> (\<forall>g fin. fst r = Inr (g, fin) \<longrightarrow> canon_guest g))"

lemma canon_guest_root: "canon_guest [slash]"
  unfolding canon_guest_def by (auto simp: PATH_MAX_def intro!: exI[of _ "[]"])

lemma canon_guest_pop: "canon_guest g \<Longrightarrow> canon_guest (pop_component g)"
proof -
  assume "canon_guest g"
  then obtain gs where gs: "list_all name_ok gs" "g = render gs" "length g < PATH_MAX"
    by (auto simp: canon_guest_def)
  have "pop_component g = render (butlast gs)"
    using pop_component_render[OF list_all_name_comp[OF gs(1)]] gs(2) by simp
  moreover have "list_all name_ok (butlast gs)" using gs(1) by (auto simp: list_all_iff dest: in_set_butlastD)
  moreover have "length (pop_component g) \<le> length g" by (simp add: pop_component_def Let_def)
  ultimately show ?thesis using gs(3) unfolding canon_guest_def by auto
qed

lemma canon_guest_join:
  assumes "canon_guest g" "name_ok c \<or> (c = [] \<and> g = [slash])"
    and "join_paths [Some g, Some c] = Inr r"
  shows "canon_guest r"
proof -
  obtain gs where gs: "list_all name_ok gs" "g = render gs" using assms(1) by (auto simp: canon_guest_def)
  have len: "length r < PATH_MAX" using join_paths_length[OF assms(3)] by simp
  show ?thesis
  proof (cases "c = []")
    case True
    with assms(2) have "g = [slash]" by (auto simp: name_ok_def comp_ok_def)
    then show ?thesis using assms(3) True canon_guest_root
      by (auto simp: join_paths_two join_step_def split: if_splits)
  next
    case False
    then have c: "name_ok c" using assms(2) by simp
    then have "r = render (gs @ [c])"
      using join_paths_component[OF list_all_name_comp[OF gs(1)] name_ok_comp[OF c]] assms(3) gs(2)
      by (auto split: if_splits)
    then show ?thesis unfolding canon_guest_def using gs(1) c len by (intro conjI exI[of _ "gs @ [c]"]) auto
  qed
qed

lemma canon_exit_result:
  assumes "canon_guest g" "canon_exit level fin g = Inr r"
  shows "canon_result level r"
proof (cases "level = 0")
  case False
  then show ?thesis using assms by (simp add: canon_exit_def canon_result_def)
next
  case True
  obtain gs where gs: "list_all name_ok gs" "g = render gs" using assms(1) by (auto simp: canon_guest_def)
  note ok = list_all_name_comp[OF gs(1)]
  have "final_form r gs"
    using assms(2) True gs(2) join_paths_empty[OF ok, of r] join_paths_component[OF ok, of "''.''"]
    by (auto simp: canon_exit_def final_form_def comp_ok_def split: Finality.splits if_splits)
  then show ?thesis using True gs(1) by (auto simp: canon_result_def)
qed

text \<open>The component of one turn: a canonical name, or empty when the path is made of separators.\<close>

lemma loop_component:
  assumes "next_component cur = Inr (fin, c, rest)" "NUL \<notin> set cur" "c \<noteq> ''.''" "c \<noteq> ''..''"
    and "comps cur = [] \<longrightarrow> g = [slash]"
  shows "name_ok c \<or> (c = [] \<and> g = [slash])"
  using next_component_cases[OF assms(1)] next_component_comp_ok[OF assms(1,2)] assms(3,4,5)
  by (auto simp: name_ok_def)

lemma comps_nonempty: "skip_slashes s \<noteq> [] \<Longrightarrow> comps s \<noteq> []"
  by (subst comps_Cons) simp_all

lemma loop_rest:
  assumes "next_component cur = Inr (fin, c, rest)" "NUL \<notin> set cur" "\<not> IS_FINAL fin"
  shows "NUL \<notin> set rest" "comps rest \<noteq> []"
proof -
  show "NUL \<notin> set rest" using next_component_set(2)[OF assms(1)] assms(2) by blast
  have "rest \<noteq> []" using next_component_final[OF assms(1)] assms(3) by simp
  moreover have "skip_slashes rest = rest"
    using assms(1) by (simp add: next_component_unfold)
  ultimately show "comps rest \<noteq> []" by (simp add: comps_nonempty)
qed

lemma clean_comps_first:
  assumes "clean p" "cchar p 0 \<noteq> slash"
  shows "comps p \<noteq> []"
  using assms by (intro comps_nonempty) (cases p; auto simp: clean_def)


lemma canonical_paths:
  fixes os os' :: "'w os"
  shows "env_ok os \<Longrightarrow> st_ok s \<Longrightarrow> clean user \<Longrightarrow> (cchar user 0 \<noteq> slash \<longrightarrow> canon_guest gp) \<Longrightarrow>
      canon_post level (canonicalize os s user deref gp level)"
    and "env_ok os' \<Longrightarrow> st_ok s' \<Longrightarrow> NUL \<notin> set cur \<Longrightarrow> canon_guest gp' \<Longrightarrow>
      (comps cur = [] \<longrightarrow> gp' = [slash]) \<Longrightarrow>
      loop_post (canon_loop os' s' cur deref' gp' level' n)"
proof (induction os s user deref gp level and os' s' cur deref' gp' level' n
    rule: canonicalize_canon_loop.induct)
  case (1 os s user deref gp level)
  let ?g = "if cchar user 0 \<noteq> slash then gp else [slash]"
  show ?case
  proof (cases "level > MAXSYMLINKS \<or> length gp \<ge> PATH_MAX \<or>
      cchar user 0 \<noteq> slash \<and> cchar gp 0 \<noteq> slash")
    case True
    then show ?thesis using 1(3) by (subst canonicalize.simps) (auto simp: canon_post_def)
  next
    case False
    then have c: "\<not> level > MAXSYMLINKS" "\<not> length gp \<ge> PATH_MAX"
      "\<not> (cchar user 0 \<noteq> slash \<and> cchar gp 0 \<noteq> slash)" by auto
    have "loop_post (canon_loop os s user deref ?g level 0)"
      using 1(2-5) clean_comps_first[of user] canon_guest_root
      by (intro 1(1)[OF c]) (auto simp: clean_def)
    then show ?thesis unfolding canonicalize.simps[of os s user deref gp level]
      using c canon_exit_result
      by (cases "canon_loop os s user deref ?g level 0")
        (auto simp: canon_post_def loop_post_def split: sum.split)
  qed
next
  case (2 os s cur deref gp level n)
  note simps = canon_loop.simps[of os s cur deref gp level n]
  show ?case
  proof (cases "next_component cur")
    case (Inl e)
    then show ?thesis unfolding simps using 2(7) by (simp add: loop_post_def)
  next
    case (Inr r)
    then obtain fin c rest where nc: "next_component cur = Inr (fin, c, rest)" by (cases r) auto
    note nr = loop_rest[OF nc 2(8)]
    consider (dot) "c = ''.''" | (dots) "c = ''..''" | (name) "c \<noteq> ''.''" "c \<noteq> ''..''" by blast
    then show ?thesis
    proof cases
      case dot
      have "loop_post (canon_loop os s rest deref gp level n)" if "\<not> IS_FINAL fin"
        using 2(1)[OF nc refl refl dot that 2(6,7) nr(1)[OF that] 2(9)] nr(2)[OF that] by blast
      then show ?thesis unfolding simps using nc dot 2(7,9) by (simp add: loop_post_def)
    next
      case dots
      then have nd: "c \<noteq> ''.''" by simp
      have "loop_post (canon_loop os s rest deref (pop_component gp) level n)" if "\<not> IS_FINAL fin"
        using 2(2)[OF nc refl refl nd dots that 2(6,7) nr(1)[OF that] canon_guest_pop[OF 2(9)]]
          nr(2)[OF that] by blast
      then show ?thesis unfolding simps using nc dots 2(7) canon_guest_pop[OF 2(9)]
        by (simp add: loop_post_def)
    next
      case name
      note cok = loop_component[OF nc 2(8) name 2(10)]
      show ?thesis
      proof (cases "join_paths [Some gp, Some c]")
        case (Inl e)
        then show ?thesis unfolding simps using nc name 2(7) by (simp add: loop_post_def)
      next
        case scratch: (Inr scratch)
        have sg: "canon_guest scratch" by (rule canon_guest_join[OF 2(9) cok scratch])
        obtain q s1 where sbs: "(q, s1) = substitute_binding_stat os s fin level scratch"
          by (cases "substitute_binding_stat os s fin level scratch") auto
        have s1: "st_ok s1"
          using substitute_binding_stat_ok[OF 2(6,7) canon_guest_rendered[OF sg], of fin level] sbs[symmetric]
          by simp
        show ?thesis
        proof (cases q)
          case (Inl e)
          then show ?thesis unfolding simps using nc name scratch sbs[symmetric] s1
            by (simp add: loop_post_def)
        next
          case q: (Inr lh)
          then obtain is_link host_path where lh: "(is_link, host_path) = lh" by (cases lh) auto
          note prefix = nc refl refl name scratch sbs q lh
          note eqs = nc name scratch sbs[symmetric] q lh[symmetric]
          show ?thesis
          proof (cases "\<not> is_link \<or> (fin = FINAL_NORMAL \<and> \<not> deref)")
            case True
            have "loop_post (canon_loop os s1 rest deref scratch level n)" if "\<not> IS_FINAL fin"
              using 2(3)[OF prefix True that 2(6) s1 nr(1)[OF that] sg] nr(2)[OF that] by blast
            then show ?thesis unfolding simps using eqs True s1 sg
              by (simp add: loop_post_def)
          next
            case link: False
            show ?thesis
            proof (cases "resolve_link os s1 gp c fin host_path")
              case (Link_Fail e)
              then show ?thesis unfolding simps using eqs link s1 by (auto simp: loop_post_def)
            next
              case (Link_Stop t)
              have "name_ok c \<or> c = []" using cok by blast
              then have "canon_guest t" by (rule resolve_link_stop[OF s1 2(9) _ Link_Stop])
              then show ?thesis unfolding simps using eqs link Link_Stop s1
                by (auto simp: loop_post_def)
            next
              case (Link_Canon t)
              obtain q2 s2 where can: "(q2, s2) = canonicalize os s1 t True gp (level + Suc n)"
                by (cases "canonicalize os s1 t True gp (level + Suc n)") auto
              have "canon_post (level + Suc n) (canonicalize os s1 t True gp (level + Suc n))"
                using 2(4)[OF prefix link Link_Canon 2(6) s1 resolve_link_canon[OF 2(6) s1 Link_Canon]]
                  2(9) by blast
              then have s2: "st_ok s2" and g2: "\<And>g. q2 = Inr g \<Longrightarrow> canon_guest g"
                unfolding can[symmetric] canon_post_def canon_result_def by auto
              show ?thesis
              proof (cases q2)
                case (Inl e)
                then show ?thesis unfolding simps using eqs link Link_Canon can[symmetric] s2
                  by (auto simp: loop_post_def)
              next
                case q2: (Inr g)
                obtain q3 s3 where sbs3: "(q3, s3) = substitute_binding_stat os s2 fin level g"
                  by (cases "substitute_binding_stat os s2 fin level g") auto
                have s3: "st_ok s3"
                  using substitute_binding_stat_ok[OF 2(6) s2 canon_guest_rendered[OF g2[OF q2]],
                      of fin level] sbs3[symmetric] by simp
                show ?thesis
                proof (cases q3)
                  case (Inl e)
                  then show ?thesis
                    unfolding simps using eqs link Link_Canon can[symmetric] q2 sbs3[symmetric] s3
                    by (auto simp: loop_post_def)
                next
                  case q3: (Inr x)
                  obtain still h' where x: "(still, h') = x" by (cases x) auto
                  have "loop_post (canon_loop os s3 rest deref g level (Suc n))" if "\<not> (still \<and> \<not> names_proc_fd g)" "\<not> IS_FINAL fin"
                    using 2(5)[OF prefix link Link_Canon can q2 sbs3 q3 x that 2(6) s3 nr(1)[OF that(2)]
                        g2[OF q2]] nr(2)[OF that(2)] by blast
                  then show ?thesis
                    unfolding simps
                    using eqs link Link_Canon can[symmetric] q2 q3 x[symmetric] sbs3[symmetric] s3 g2[OF q2]
                    by (auto simp: loop_post_def)
                qed
              qed
            qed
          qed
        qed
      qed
    qed
  qed
qed

end
