(* ===== verification/Translate.thy ===== *)
theory Translate
  imports Canon_Safety
begin

section \<open>translate\_path\<close>

text \<open>
  \<open>translate_path\<close> of \<^verbatim>\<open>path/path.c\<close> and what it promises: the host path it returns lies in the
  host directory of one of the bindings, \<open>detranslate_path\<close> undoes it below the root, and where
  there are no symbolic links the canonicalisation is the lexical one.
\<close>

subsection \<open>The code\<close>

definition AT_FDCWD :: int where "AT_FDCWD = -100"

definition readlink_proc_pid_fd :: "'w os \<Rightarrow> 'w \<Rightarrow> nat \<Rightarrow> int \<Rightarrow> string result" where
  "readlink_proc_pid_fd os w pid fd =
     (let link = ''/proc/'' @ show_nat pid @ ''/fd/'' @ show_int fd in
      if length link \<ge> 32 then Inl EBADF
      else
        (case os_readlink os w link of
           Inl _ \<Rightarrow> Inl EBADF
         | Inr path \<Rightarrow> (if length path \<ge> PATH_MAX then Inl ENAMETOOLONG else Inr path)))"

definition getcwd2 :: "fs_state \<Rightarrow> string result" where
  "getcwd2 t = (if length (cwd t) \<ge> PATH_MAX then Inl ENAMETOOLONG else Inr (cwd t))"

definition translate_base :: "'w os \<Rightarrow> 'w st \<Rightarrow> int \<Rightarrow> string \<Rightarrow> string result" where
  "translate_base os s dir_fd user_path =
     (if cchar user_path 0 = slash then Inr [slash]
      else if dir_fd \<noteq> AT_FDCWD then
        (case readlink_proc_pid_fd os (snd s) (os_pid os) dir_fd of
           Inl e \<Rightarrow> Inl e
         | Inr path \<Rightarrow>
             (if cchar path 0 \<noteq> slash then Inl ENOTDIR
              else
                (case detranslate_path os s path None of
                   Inl e \<Rightarrow> Inl e
                 | Inr (_, path) \<Rightarrow> Inr path)))
      else getcwd2 (fst s))"

text \<open>The second half of \<open>translate_path\<close>; the base is asserted to be absolute.\<close>

definition translate_joined :: "'w os \<Rightarrow> 'w st \<Rightarrow> string \<Rightarrow> string \<Rightarrow> bool \<Rightarrow> string result \<times> 'w st" where
  "translate_joined os s base user_path deref_final =
     (if cchar base 0 \<noteq> slash then (Inl EABORTED, s)
      else case join_paths [Some base, Some user_path] of
        Inl e \<Rightarrow> (Inl e, s)
      | Inr guest_path \<Rightarrow>
          (case canonicalize os s guest_path deref_final [slash] 0 of
             (Inl e, s) \<Rightarrow> (Inl e, s)
           | (Inr path, s) \<Rightarrow>
               (case substitute_binding (fst s) GUEST path of
                  Inl e \<Rightarrow> (Inl e, s)
                | Inr (_, path) \<Rightarrow> (Inr path, s))))"

definition notify_translated :: "'w os \<Rightarrow> 'w st \<Rightarrow> string \<Rightarrow> string result \<times> 'w st" where
  "notify_translated os s path =
     (case os_translated_path os (snd s) path of (r, w) \<Rightarrow> (r, (fst s, w)))"

definition translate_path ::
  "'w os \<Rightarrow> 'w st \<Rightarrow> int \<Rightarrow> string \<Rightarrow> bool \<Rightarrow> string result \<times> 'w st" where
  "translate_path os s dir_fd user_path deref_final =
     (case translate_base os s dir_fd user_path of
        Inl e \<Rightarrow> (Inl e, s)
      | Inr base \<Rightarrow>
          (case os_guest_path os (snd s) base user_path of
             (Inl e, w) \<Rightarrow> (Inl e, (fst s, w))
           | (Inr (skip, path), w) \<Rightarrow>
               (if skip then notify_translated os (fst s, w) path
                else
                  (case translate_joined os (fst s, w) path user_path deref_final of
                     (Inl e, s) \<Rightarrow> (Inl e, s)
                   | (Inr path, s) \<Rightarrow> notify_translated os s path))))"




subsection \<open>Containment\<close>

definition no_dotdot :: "string list \<Rightarrow> bool" where
  "no_dotdot cs = list_all (\<lambda>c. c \<noteq> ''..'') cs"

lemma final_form_denotes:
  assumes "list_all name_ok gs" "final_form g gs"
  shows "\<exists>cs. denotes g cs \<and> no_dotdot cs"
proof -
  have "list_all comp_ok gs" "list_all comp_ok (gs @ [''.''])" "no_dotdot gs" "no_dotdot (gs @ [''.''])"
    using assms(1) by (auto simp: list_all_name_comp comp_ok_def no_dotdot_def list_all_iff name_ok_def)
  with assms(2) show ?thesis
    unfolding final_form_def by (metis denotes_render denotes_slash)
qed

text \<open>
  The host path lies below the host directory of the binding that was found, at the place the guest
  path has below its guest directory; the path that does not fit the buffer stays as it is.
\<close>

definition lands_in :: "fs_state \<Rightarrow> string \<Rightarrow> binding \<Rightarrow> string \<Rightarrow> bool" where
  "lands_in t g b h =
     (get_binding t GUEST g = Some b \<and> b \<in> set (head_of t GUEST) \<and>
      ((\<exists>rest. comps g = comps (path_str (guest b)) @ rest \<and>
               denotes h (comps (path_str (host b)) @ rest) \<and> no_dotdot rest) \<or>
       h = g \<and> need_substitution b \<and> PATH_MAX \<le> length (path_str (host b)) + length g))"

lemma substitute_contained:
  assumes ok: "fs_ok t" and p: "denotes p cs" "no_dotdot cs"
    and q: "substitute_binding t GUEST p = Inr (n, q)"
  shows "\<exists>b. lands_in t p b q"
proof -
  obtain b where b: "get_binding t GUEST p = Some b" "b \<in> set (head_of t GUEST)"
    "prefix (side_key GUEST b) cs"
    using get_binding_guest_deepest[OF ok p(1)] by metis
  obtain rest where rest: "cs = side_key GUEST b @ rest" using b(3) by (auto simp: prefix_def)
  then have nd: "no_dotdot rest" using p(2) by (simp add: no_dotdot_def)
  note facts = guest_queue_facts[OF ok b(2)]
  have comps: "comps p = side_key GUEST b @ rest" using denotes_comps[OF p(1)] rest by simp
  have below: "lands_in t p b q" if "denotes q (side_key HOST b @ rest)"
    using that b comps nd by (auto simp: lands_in_def side_key_def side_path_def)
  show ?thesis
  proof (cases "need_substitution b")
    case False
    then have "q = p" "side_key HOST b = side_key GUEST b"
      using q b(1) facts(2) by (auto simp: substitute_binding_def split: if_splits)
    then show ?thesis using below p(1) rest by auto
  next
    case True
    note sub = substitute_binding_guest[OF ok p(1) b(1)]
    show ?thesis
    proof (cases "length (path_str (host b)) + length p < PATH_MAX")
      case True
      then show ?thesis using sub q rest below by auto
    next
      case long: False
      show ?thesis
      proof (cases "q = p")
        case True
        then show ?thesis using long b \<open>need_substitution b\<close> by (auto simp: lands_in_def not_less)
      next
        case False
        have g: "path_length (guest b) = length (render (side_key GUEST b))"
          and h: "path_str (host b) = render (side_key HOST b)"
          "path_length (host b) = length (render (side_key HOST b))"
          and hok: "list_all comp_ok (side_key HOST b)"
          using facts(1) by (auto simp: wf_binding_def wf_path_def side_key_def side_path_def)
        have ne: "side_key GUEST b \<noteq> [] \<or> side_key HOST b \<noteq> []" using facts(2) True by metis
        have "substitute_path_prefix p (length (render (side_key GUEST b))) (render (side_key HOST b))
            (length (render (side_key HOST b))) = Inr q"
          using q b(1) True False g h
          by (auto simp: substitute_binding_def Let_def split: sum.splits if_splits)
        then show ?thesis
          using substitute_path_prefix_denotes[of p "side_key GUEST b" rest "side_key HOST b"]
            p rest hok ne below by auto
      qed
    qed
  qed
qed

lemma no_dotdot_suffix: "suffix rest cs \<Longrightarrow> no_dotdot cs \<Longrightarrow> no_dotdot rest"
  by (auto simp: no_dotdot_def suffix_def)

lemma translate_joined_contained:
  assumes env: "env_ok os" and st: "st_ok s" and clean: "clean base" "NUL \<notin> set user"
    and r: "translate_joined os s base user deref = (Inr h, s')"
  shows "st_ok s' \<and> hd base = slash \<and> (\<exists>gp g b. join_paths [Some base, Some user] = Inr gp \<and>
    canonicalize os s gp deref [slash] 0 = (Inr g, s') \<and> lands_in (fst s') g b h)"
proof -
  have abs: "hd base = slash"
    using r clean(1) by (cases base) (auto simp: translate_joined_def clean_def split: if_splits)
  obtain gp where gp: "join_paths [Some base, Some user] = Inr gp"
    using r by (auto simp: translate_joined_def split: sum.splits if_splits)
  have hd: "gp \<noteq> []" "hd gp = slash" using join_paths_hd[OF gp] clean abs by (auto simp: clean_def)
  have "NUL \<notin> set gp" using gp clean
    by (cases user) (auto simp: join_paths_two join_step_def clean_def split: if_splits)
  then have cl: "clean gp" using hd by (simp add: clean_def)
  obtain g s1 n where c: "canonicalize os s gp deref [slash] 0 = (Inr g, s1)"
    and q: "substitute_binding (fst s1) GUEST g = Inr (n, h)" "s' = s1"
  proof -
    obtain r1 s1 where c: "canonicalize os s gp deref [slash] 0 = (r1, s1)"
      by (cases "canonicalize os s gp deref [slash] 0")
    from r gp c obtain g where g: "r1 = Inr g"
      by (cases r1) (simp_all add: translate_joined_def split: if_splits)
    from r gp c g obtain n where "substitute_binding (fst s1) GUEST g = Inr (n, h)" "s' = s1"
      by (cases "substitute_binding (fst s1) GUEST g") (auto simp: translate_joined_def split: if_splits)
    with c g that show ?thesis by blast
  qed
  have post: "canon_post 0 (canonicalize os s gp deref [slash] 0)"
    using canonical_paths(1)[OF env st cl] canon_guest_root by blast
  then obtain gs where gs: "list_all name_ok gs" "final_form g gs" and s1: "st_ok s1"
    by (auto simp: canon_post_def canon_result_def c)
  obtain cs where "denotes g cs" "no_dotdot cs" using final_form_denotes[OF gs] by blast
  with substitute_contained[of "fst s1" g cs n h] s1 q gp c abs show ?thesis
    unfolding st_ok_def by blast
qed

lemma translate_base_clean:
  assumes "env_ok os" "st_ok s" "clean (cwd (fst s))" "hd (cwd (fst s)) = slash"
    and "translate_base os s fd user = Inr base"
  shows "clean base \<and> (fd = AT_FDCWD \<or> cchar user 0 = slash \<longrightarrow> hd base = slash)"
proof -
  have c: "clean [slash]" by (simp add: clean_def)
  have "clean p" if "readlink_proc_pid_fd os w pid fd = Inr p" for w pid p
    using that assms(1) unfolding readlink_proc_pid_fd_def env_ok_def
    by (auto simp: Let_def split: if_splits sum.splits)
  with assms(3-5) c detranslate_path_clean[OF assms(2,1)] show ?thesis
    by (auto simp: translate_base_def getcwd2_def split: if_splits sum.splits)
qed

subsection \<open>Detranslation undoes translation\<close>

lemma get_root_guest:
  assumes "fs_ok t"
  shows "get_root t = Some (path_str (host (last (head_of t GUEST))))"
    "last (head_of t GUEST) \<in> set (head_of t GUEST)"
    "side_key GUEST (last (head_of t GUEST)) = []"
  using assms fs_ok_root_asserted[OF assms]
  by (auto simp: fs_ok_def get_root_def head_of_def queue_of_def root_asserted_def)

definition root_key :: "fs_state \<Rightarrow> string list" where
  "root_key t = side_key HOST (last (head_of t GUEST))"

lemma root_key_render:
  assumes "fs_ok t"
  shows "get_root t = Some (render (root_key t))" "list_all comp_ok (root_key t)"
  using get_root_guest[OF assms] guest_queue_facts(1)[OF assms get_root_guest(2)[OF assms]]
  by (auto simp: root_key_def wf_binding_def wf_path_def side_key_def side_path_def)

lemma get_binding_host_in_guestfs:
  assumes "fs_ok t" "root_key t \<noteq> []" "list_all comp_ok gs"
  shows "get_binding t HOST (render (root_key t @ gs)) = None"
proof -
  note root = root_key_render[OF assms(1)]
  have b: "belongs_to_guestfs t (render (root_key t @ gs))"
    using root assms(3) compare_paths_render[OF root(2), of "root_key t @ gs"]
    by (auto simp: belongs_to_guestfs_def strict_prefix_def)
  have r: "\<not> root_is_slash t"
    using root assms(2) compare_paths_denotes[OF denotes_render[OF root(2)] denotes_root]
    by (auto simp: root_is_slash_def)
  have "\<not> binding_matches t HOST (render (root_key t @ gs)) x" for x
    using b r by (simp add: binding_matches_def Let_def)
  then show ?thesis by (simp add: get_binding_def find_None_iff)
qed

lemma detranslate_below_root:
  assumes ok: "fs_ok (fst s)" and ne: "root_key (fst s) \<noteq> []" and gs: "list_all comp_ok gs"
    and len: "length (render (root_key (fst s) @ gs)) < PATH_MAX"
  shows "detranslate_path os s (render (root_key (fst s) @ gs)) None =
    Inr (length (render gs) + 1, render gs)"
proof -
  note root = root_key_render[OF ok]
  have ne1: "length (render (root_key (fst s))) \<noteq> 1" using ne root(2) length_render_1 by blast
  have cmp: "compare_paths (render (root_key (fst s))) (render (root_key (fst s) @ gs)) =
      (if gs = [] then PATHS_ARE_EQUAL else PATH1_IS_PREFIX)"
    using compare_paths_render[OF root(2), of "root_key (fst s) @ gs"] root(2) gs
    by (auto simp: strict_prefix_def)
  have "substitute_binding (fst s) HOST (render (root_key (fst s) @ gs)) = Inl ENOENT"
    using get_binding_host_in_guestfs[OF ok ne gs] by (simp add: substitute_binding_def)
  moreover have "cchar (render (root_key (fst s) @ gs)) 0 = slash" by (rule cchar_render_0)
  ultimately show ?thesis using len root(1) cmp ne1 ne
    by (auto simp del: cchar_less simp: detranslate_path_def detranslate_follow_def detranslate_root_def Let_def render_def)
qed

subsection \<open>Lexical canonicalisation\<close>

fun lexical :: "string list \<Rightarrow> string list \<Rightarrow> string list" where
  "lexical acc [] = acc"
| "lexical acc (c # cs) =
     (if c = ''.'' then lexical acc cs
      else if c = ''..'' then lexical (butlast acc) cs
      else lexical (acc @ [c]) cs)"

lemma lexical_comp_ok:
  "list_all comp_ok acc \<Longrightarrow> list_all comp_ok cs \<Longrightarrow> list_all comp_ok (lexical acc cs)"
proof (induction acc cs rule: lexical.induct)
  case (2 acc c cs)
  have "list_all comp_ok (butlast acc)" using 2(4) by (auto simp: list_all_iff dest: in_set_butlastD)
  with 2 show ?case by (auto split: if_splits)
qed simp

definition no_links :: "'w os \<Rightarrow> bool" where
  "no_links os = (\<forall>w p. os_lstat os w p \<noteq> Inr S_IFLNK)"

lemma substitute_binding_stat_no_links:
  assumes "no_links os" "glue_type (fst s) = S_NONE"
    and "substitute_binding_stat os s fin level g = (Inr (is_link, h), s')"
  shows "\<not> is_link \<and> fst s' = fst s"
proof -
  have "stat_host_path os w p = (f, ty) \<Longrightarrow> ty \<noteq> S_IFLNK" for w p f ty
    using assms(1) by (auto simp: stat_host_path_def no_links_def split: if_splits sum.splits)
  with assms(2,3) show ?thesis
    by (auto simp: substitute_binding_stat_def Let_def split: sum.splits prod.splits if_splits)
qed

text \<open>
  What a canonical path ends with follows from the last component of the path that was given: a
  final \<^verbatim>\<open>.\<close> is kept, a final \<^verbatim>\<open>..\<close> and a trailing separator ask for a directory.
\<close>

definition wanted_finality :: "string \<Rightarrow> Finality" where
  "wanted_finality user =
     (if comps user = [] then FINAL_NORMAL
      else if last (comps user) = ''.'' then FINAL_DOT
      else if last (comps user) = ''..'' \<or> last user = slash then FINAL_SLASH
      else FINAL_NORMAL)"

definition with_finality :: "Finality \<Rightarrow> string list \<Rightarrow> string" where
  "with_finality fin gs =
     (case fin of FINAL_SLASH \<Rightarrow> body gs @ ''/'' | FINAL_DOT \<Rightarrow> render (gs @ [''.'']) | _ \<Rightarrow> render gs)"

lemma canon_exit_finality:
  assumes "list_all comp_ok gs" "canon_exit 0 fin (render gs) = Inr g"
  shows "g = with_finality fin gs"
  using assms(2) join_paths_empty[OF assms(1), of g] join_paths_component[OF assms(1), of "''.''"]
  by (auto simp: canon_exit_def with_finality_def comp_ok_def split: Finality.splits if_splits)

lemma skip_slashes_suffix: "suffix (skip_slashes s) s"
  by (simp add: skip_slashes_def suffix_dropWhile)

lemma skip_name_suffix: "suffix (skip_name s) s"
  by (simp add: skip_name_def suffix_dropWhile)

lemma last_suffix: "suffix t s \<Longrightarrow> t \<noteq> [] \<Longrightarrow> last t = last s"
  by (auto simp: suffix_def)

lemma next_component_last:
  assumes "next_component cur = Inr (fin, c, rest)"
  shows "rest \<noteq> [] \<Longrightarrow> last rest = last cur"
    and "rest = [] \<Longrightarrow> c \<noteq> [] \<Longrightarrow> fin = (if last cur = slash then FINAL_SLASH else FINAL_NORMAL)"
proof -
  let ?s = "skip_slashes cur"
  have nc: "c = first_name ?s" "rest = skip_slashes (skip_name ?s)"
    and fin: "fin = (if rest = [] then (if cchar (skip_name ?s) 0 = slash then FINAL_SLASH
                                else FINAL_NORMAL) else NOT_FINAL)"
    using assms by (simp_all add: next_component_unfold)
  have suf: "suffix (skip_name ?s) cur"
    using skip_name_suffix skip_slashes_suffix by (metis suffix_order.trans)
  then show "rest \<noteq> [] \<Longrightarrow> last rest = last cur"
    unfolding nc(2) by (metis last_suffix skip_slashes_suffix suffix_order.trans)
  assume rest: "rest = []" and c: "c \<noteq> []"
  show "fin = (if last cur = slash then FINAL_SLASH else FINAL_NORMAL)"
  proof (cases "skip_name ?s = []")
    case True
    then have "?s = c" unfolding nc(1) first_name_def skip_name_def
      by (metis append_Nil2 takeWhile_dropWhile_id)
    then have "last cur = last c" using last_suffix[OF skip_slashes_suffix, of cur] c by simp
    moreover have "slash \<notin> set c" using next_component_cases[OF assms] c by auto
    ultimately have "last cur \<noteq> slash" using c last_in_set by metis
    then show ?thesis using fin rest True by simp
  next
    case False
    have all: "set (skip_name ?s) \<subseteq> {slash}" using rest nc(2) by (simp add: skip_slashes_eq_Nil)
    then have "last (skip_name ?s) = slash" "cchar (skip_name ?s) 0 = slash"
      using False last_in_set[OF False] by (cases "skip_name ?s"; auto)+
    then show ?thesis using fin rest last_suffix[OF suf False] by simp
  qed
qed

lemma canon_loop_finality:
  assumes "NUL \<notin> set cur" "canon_loop os s cur deref gp level n = (Inr (g, fin), s')"
  shows "fin = wanted_finality cur"
  using assms
proof (induction "length cur" arbitrary: s cur gp n rule: less_induct)
  case less
  note run = less.prems(2)[unfolded canon_loop.simps[of os s cur]]
  obtain f c rest where nc: "next_component cur = Inr (f, c, rest)"
    using run by (auto split: sum.splits)
  note nr = loop_rest[OF nc less.prems(1)] and fl = next_component_final[OF nc]
  note cases = next_component_cases[OF nc] and ends = next_component_last[OF nc]
  have step: "fin = wanted_finality cur"
    if nf: "\<not> IS_FINAL f" and l: "canon_loop os s1 rest deref gp' level n' = (Inr (g, fin), s')" for s1 gp' n'
  proof -
    have "comps cur = c # comps rest" using cases nr(2)[OF nf] fl nf by auto
    then show ?thesis
      using less.hyps[OF next_component_less[OF nc nf] nr(1)[OF nf] l] nr(2)[OF nf] ends(1) fl nf
      by (simp add: wanted_finality_def)
  qed
  have final: "c \<noteq> [] \<Longrightarrow> comps cur = [c] \<and> (f = FINAL_SLASH \<longleftrightarrow> last cur = slash) \<and>
      (f = FINAL_SLASH \<or> f = FINAL_NORMAL)" "c = [] \<Longrightarrow> comps cur = [] \<and> f = FINAL_NORMAL" if "IS_FINAL f"
    using cases ends(2) that fl by (auto simp: comps_Nil)
  consider (dot) "c = ''.''" | (dots) "c = ''..''" | (name) "c \<noteq> ''.''" "c \<noteq> ''..''" by blast
  then show ?case
  proof cases
    case dot
    then show ?thesis
      using run nc step[of s gp n] final by (cases "IS_FINAL f") (auto simp: wanted_finality_def)
  next
    case dots
    then show ?thesis
      using run nc step[of s "pop_component gp" n] final
      by (cases "IS_FINAL f") (auto simp: wanted_finality_def)
  next
    case name
    have fin: "fin = wanted_finality cur" if "IS_FINAL f" "fin = f"
      using final that name by (cases "c = []") (auto simp: wanted_finality_def)
    have stop: "f = FINAL_NORMAL" if "resolve_link os s1 gp c f h = Link_Stop t" for s1 h t
      using that by (auto simp: resolve_link_def read_link_not_stop
          split: if_splits sum.splits Action.splits prod.splits)
    have "(IS_FINAL f \<and> fin = f) \<or> (\<exists>s1 gp' n'. \<not> IS_FINAL f \<and>
        canon_loop os s1 rest deref gp' level n' = (Inr (g, fin), s')) \<or>
        (\<exists>s1 h t. resolve_link os s1 gp c f h = Link_Stop t \<and> fin = FINAL_NORMAL)"
      using run nc name
      by (auto simp del: split_paired_Ex split_paired_All
          split: sum.splits prod.splits if_splits link_action.splits)
    then show ?thesis
    proof (elim disjE exE conjE)
      fix s1 h t
      assume l: "resolve_link os s1 gp c f h = Link_Stop t" and n: "fin = FINAL_NORMAL"
      show ?thesis using fin stop[OF l] n by (simp add: IS_FINAL_def)
    qed (use fin step in blast)+
  qed
qed

lemma canon_loop_lexical:
  assumes "no_links os" "glue_type (fst s) = S_NONE" "list_all name_ok gs" "NUL \<notin> set cur"
    and "comps cur = [] \<longrightarrow> gs = []"
    and "canon_loop os s cur deref (render gs) level n = (Inr (g, fin), s')"
  shows "g = render (lexical gs (comps cur))"
  using assms(2-6)
proof (induction "length cur" arbitrary: s cur gs rule: less_induct)
  case less
  note run = less.prems(5)[unfolded canon_loop.simps[of os s cur]]
  obtain f c rest where nc: "next_component cur = Inr (f, c, rest)"
    using run by (auto split: sum.splits)
  note nr = loop_rest[OF nc less.prems(3)]
  have end': "rest = [] \<and> comps rest = []" if "IS_FINAL f"
    using next_component_final[OF nc] that by (simp add: comps_Nil)
  have step: "g = render (lexical gs' (comps rest))"
    if "\<not> IS_FINAL f" "canon_loop os s1 rest deref (render gs') level n = (Inr (g, fin), s')"
      "list_all name_ok gs'" "glue_type (fst s1) = S_NONE" for gs' s1
    using less.hyps[of rest s1 gs'] next_component_less[OF nc that(1)] that nr[OF that(1)] by blast
  note ok = list_all_name_comp[OF less.prems(2)]
  have bl: "list_all name_ok (butlast gs)"
    using less.prems(2) by (auto simp: list_all_iff dest: in_set_butlastD)
  have cc: "c \<noteq> [] \<Longrightarrow> comps cur = c # comps rest" using next_component_cases[OF nc] by auto
  consider (dot) "c = ''.''" | (dots) "c = ''..''" | (name) "c \<noteq> ''.''" "c \<noteq> ''..''" by blast
  then show ?case
  proof cases
    case dot
    then show ?thesis using run nc step[of s gs] end' cc less.prems(1,2)
      by (auto split: if_splits)
  next
    case dots
    then show ?thesis
      using run nc step[of s "butlast gs"] end' cc less.prems(1) bl pop_component_render[OF ok]
      by (auto split: if_splits)
  next
    case name
    obtain scratch where scratch: "join_paths [Some (render gs), Some c] = Inr scratch"
      using run nc name by (auto split: sum.splits)
    obtain q s1 where sbs: "substitute_binding_stat os s f level scratch = (q, s1)"
      by (cases "substitute_binding_stat os s f level scratch")
    obtain is_link h where q: "q = Inr (is_link, h)"
      using run nc name scratch sbs by (auto split: sum.splits)
    have nl: "\<not> is_link" "fst s1 = fst s"
      using substitute_binding_stat_no_links[OF assms(1) less.prems(1) sbs[unfolded q]] by auto
    have run': "(if IS_FINAL f then (Inr (scratch, f), s1)
        else canon_loop os s1 rest deref scratch level n) = (Inr (g, fin), s')"
      using run nc name scratch sbs q nl by simp
    show ?thesis
    proof (cases "c = []")
      case True
      then have "gs = []" "IS_FINAL f" "comps cur = []"
        using less.prems(4) next_component_cases[OF nc] by (auto simp: IS_FINAL_def)
      then show ?thesis using run' scratch True
        by (auto simp: join_paths_two join_step_def split: if_splits)
    next
      case False
      then have cok: "name_ok c" using next_component_comp_ok[OF nc less.prems(3)] name
        by (simp add: name_ok_def)
      then have "scratch = render (gs @ [c])"
        using join_paths_component[OF ok name_ok_comp[OF cok]] scratch by (auto split: if_splits)
      then show ?thesis
        using run' step[of s1 "gs @ [c]"] end' cc[OF False] name less.prems(1,2) nl cok
        by (auto split: if_splits)
    qed
  qed
qed

end
