(* ===== verification/Path_Examples.thy ===== *)
theory Path_Examples
  imports Translate
begin

section \<open>A concrete tracee\<close>

text \<open>
  A small tracee the path properties are applied to: the rootfs is \<^verbatim>\<open>/r\<close>, the host directory
  \<^verbatim>\<open>/h\<close> is bound to \<^verbatim>\<open>/b\<close>, every path is a directory but for the symbolic link \<^verbatim>\<open>/r/l\<close>, whose
  target is \<^verbatim>\<open>b\<close>.
\<close>

definition demo_root :: binding where
  "demo_root = \<lparr>b_id = 0, host = mk_path ''/r'', guest = mk_path ''/'', need_substitution = True\<rparr>"

definition demo_bind :: binding where
  "demo_bind = \<lparr>b_id = 1, host = mk_path ''/h'', guest = mk_path ''/b'', need_substitution = True\<rparr>"

definition demo_fs :: fs_state where
  "demo_fs = \<lparr>bs_pending = None, bs_guest = Some [demo_bind, demo_root],
     bs_host = Some [demo_bind, demo_root], cwd = ''/'', glue = None, glue_type = S_NONE,
     next_id = 2\<rparr>"

definition demo_os :: "unit os" where
  "demo_os = \<lparr>os_pid = 7, os_get_tracee = (\<lambda>w i. None),
     os_lstat = (\<lambda>w p. Inr (if p = ''/r/l'' then S_IFLNK else S_IFDIR)),
     os_readlink = (\<lambda>w p. Inr ''b''),
     os_skip_f2fs = (\<lambda>w p. False),
     os_mkdir = (\<lambda>w p m. (None, w)), os_mknod = (\<lambda>w p t m. (None, w)),
     os_temp_directory = (\<lambda>w. (None, w)), os_placeholder = (\<lambda>w p. w), os_dont_pollute = False,
     os_host_path = (\<lambda>w p f. (Inr p, w)), os_guest_path = (\<lambda>w p u. (Inr (False, p), w)),
     os_translated_path = (\<lambda>w p. (Inr p, w))\<rparr>"

definition demo_st :: "unit st" where
  "demo_st = (demo_fs, ())"

lemma comps_example:
  "comps ''/'' = []" "comps ''/r'' = [''r'']" "comps ''/b'' = [''b'']" "comps ''/h'' = [''h'']"
  "comps ''/b/x'' = [''b'', ''x'']"
  by code_simp+

lemma demo_keys:
  "side_key GUEST demo_root = []" "side_key HOST demo_root = [''r'']"
  "side_key GUEST demo_bind = [''b'']" "side_key HOST demo_bind = [''h'']"
  by (simp_all add: side_key_def side_path_def demo_root_def demo_bind_def comps_example)

lemma demo_wf: "wf_binding demo_root" "wf_binding demo_bind"
  by (simp_all add: wf_binding_def wf_path_def demo_root_def demo_bind_def comps_example comp_ok_def
      render_def)

lemma demo_ids: "b_id demo_root = 0" "b_id demo_bind = 1" "need_substitution demo_root"
  "need_substitution demo_bind"
  by (simp_all add: demo_root_def demo_bind_def)

lemma demo_fs_ok: "fs_ok demo_fs"
  by (simp add: fs_ok_def demo_fs_def queue_ordered_def demo_wf demo_keys demo_ids)

lemma demo_head:
  "head_of demo_fs GUEST = [demo_bind, demo_root]" "head_of demo_fs HOST = [demo_bind, demo_root]"
  by (simp_all add: head_of_def queue_of_def demo_fs_def)

lemma demo_st_ok: "st_ok demo_st"
  using demo_fs_ok by (simp add: st_ok_def demo_st_def demo_fs_def)

lemma demo_env_ok: "env_ok demo_os"
  by (simp add: env_ok_def demo_os_def clean_def)

lemma demo_translate:
  "translate_path demo_os demo_st AT_FDCWD ''/x/../l/q'' True = (Inr ''/h/q'', demo_st)"
  by code_simp

lemma demo_canonicalize:
  "canonicalize demo_os demo_st ''/x/../l/q/'' True ''/'' 0 = (Inr ''/b/q/'', demo_st)"
  by code_simp

end
