(* ===== verification/Path_Properties.thy ===== *)
theory Path_Properties
  imports Path_Examples
begin

section \<open>Properties of the path translation\<close>

text \<open>
  The promises of the path components, each over the code's own functions, and each with an
  instance on the tracee of \<^verbatim>\<open>Path_Examples\<close> where it has hypotheses.
\<close>

subsection \<open>Helper lemmas\<close>



lemma guest_key_unique:
  assumes "fs_ok t" "a \<in> set (head_of t GUEST)" "b \<in> set (head_of t GUEST)"
    "side_key GUEST a = side_key GUEST b"
  shows "a = b"
proof -
  have "distinct (map (side_key GUEST) (head_of t GUEST))"
    using assms(1) by (auto simp: fs_ok_def head_of_def queue_of_def)
  then show ?thesis using assms(2-4) by (rule in_set_map_distinct)
qed

lemma get_binding_exact:
  assumes ok: "fs_ok t" and b: "b \<in> set (head_of t GUEST)" and gs: "side_key GUEST b = gs"
    "list_all comp_ok gs"
  shows "get_binding t GUEST (render gs) = Some b"
proof -
  obtain b' where b': "get_binding t GUEST (render gs) = Some b'" "b' \<in> set (head_of t GUEST)"
    "prefix (side_key GUEST b') gs" "length (side_key GUEST b) \<le> length (side_key GUEST b')"
    using get_binding_guest_deepest[OF ok denotes_render[OF gs(2)]] b gs(1) by (metis prefix_order.refl)
  then have "side_key GUEST b' = gs" using gs(1) by (auto simp: prefix_def)
  then show ?thesis using guest_key_unique[OF ok b b'(2)] gs(1) b'(1) by simp
qed

lemma join_loop_length:
  "length res + 1 < PATH_MAX \<Longrightarrow> join_loop res ps = Inr r \<Longrightarrow> length r + 1 < PATH_MAX"
proof (induction res ps rule: join_loop.induct)
  case (3 res p ps)
  then show ?case using join_step_length by (auto split: sum.splits)
qed auto



lemma canon_result_shape:
  assumes "env_ok os" "st_ok s" "clean user"
    and "canonicalize os s user deref ''/'' 0 = (Inr g, s')"
  shows "st_ok s' \<and> (\<exists>gs. list_all name_ok gs \<and> g = with_finality (wanted_finality user) gs)"
proof -
  obtain g' fin where l: "canon_loop os s user deref ''/'' 0 0 = (Inr (g', fin), s')"
    and g: "canon_exit 0 fin g' = Inr g"
    using assms(4)
    by (cases "canon_loop os s user deref ''/'' 0 0")
      (auto simp: canonicalize.simps split: if_splits sum.splits)
  have nul: "NUL \<notin> set user" using assms(3) by (simp add: clean_def)
  have "loop_post (canon_loop os s user deref ''/'' 0 0)"
    by (rule canonical_paths(2)[OF assms(1,2) nul]) (simp_all add: canon_guest_root)
  then obtain gs where gs: "st_ok s'" "list_all name_ok gs" "g' = render gs"
    by (auto simp: loop_post_def l canon_guest_def)
  then show ?thesis
    using canon_exit_finality[OF list_all_name_comp[OF gs(2)], of fin g] g canon_loop_finality[OF nul l]
    by auto
qed

subsection \<open>The properties\<close>



text \<open>
  C3: a successful canonicalisation at the first level returns an absolute path made of nonempty
  names that are neither \<^verbatim>\<open>.\<close> nor \<^verbatim>\<open>..\<close>, and it ends the way the user path asks for: with
  \<^verbatim>\<open>/.\<close> when its last component is \<^verbatim>\<open>.\<close>, with a separator when it is \<^verbatim>\<open>..\<close> or a
  separator follows it, and with the last name otherwise.  The binding queues keep their invariant
  even when glue is created on the way.
\<close>

theorem canonicalize_canonical:
  assumes "env_ok os" "st_ok s" "clean user"
    and "canonicalize os s user deref ''/'' 0 = (Inr g, s')"
  shows "st_ok s' \<and> (\<exists>gs. list_all name_ok gs \<and>
    g = (if comps user \<noteq> [] \<and> last (comps user) = ''.'' then render (gs @ [''.''])
         else if comps user \<noteq> [] \<and> (last (comps user) = ''..'' \<or> last user = slash) then body gs @ ''/''
         else render gs))"
  using canon_result_shape[OF assms] by (auto simp: with_finality_def wanted_finality_def)

theorem canonicalize_canonical_witness:
  "\<exists>gs. canonicalize demo_os demo_st ''/x/../l/q/'' True ''/'' 0 = (Inr ''/b/q/'', demo_st) \<and>
    list_all name_ok gs \<and> ''/b/q/'' = body gs @ ''/''"
proof -
  have "comps ''/x/../l/q/'' = [''x'', ''..'', ''l'', ''q'']" by code_simp
  then show ?thesis
    using canonicalize_canonical[OF demo_env_ok demo_st_ok _ demo_canonicalize] demo_canonicalize
    by (simp add: clean_def)
qed



text \<open>
  C22: every guest path has a binding, and \<open>get_binding\<close>, which stops at the first match, returns
  the deepest one: no other binding that contains the path has a longer guest path.
\<close>

theorem get_binding_deepest:
  assumes "fs_ok t" "list_all comp_ok cs"
  shows "\<exists>b. get_binding t GUEST (render cs) = Some b \<and> b \<in> set (head_of t GUEST) \<and>
    prefix (comps (path_str (guest b))) cs \<and>
    (\<forall>b'\<in>set (head_of t GUEST). prefix (comps (path_str (guest b'))) cs \<longrightarrow>
       length (comps (path_str (guest b'))) \<le> length (comps (path_str (guest b))))"
proof -
  obtain b where "get_binding t GUEST (render cs) = Some b" "b \<in> set (head_of t GUEST)"
    "prefix (side_key GUEST b) cs"
    "\<And>b'. b' \<in> set (head_of t GUEST) \<Longrightarrow> prefix (side_key GUEST b') cs \<Longrightarrow>
       length (side_key GUEST b') \<le> length (side_key GUEST b)"
    using get_binding_guest_deepest[OF assms(1) denotes_render[OF assms(2)]] by blast
  then show ?thesis unfolding side_key_def side_path_def by auto
qed

theorem get_binding_deepest_witness:
  "\<exists>b. get_binding demo_fs GUEST (render [''b'', ''x'']) = Some b \<and> b \<in> set (head_of demo_fs GUEST) \<and>
    prefix (comps (path_str (guest b))) [''b'', ''x''] \<and>
    (\<forall>b'\<in>set (head_of demo_fs GUEST). prefix (comps (path_str (guest b'))) [''b'', ''x''] \<longrightarrow>
       length (comps (path_str (guest b'))) \<le> length (comps (path_str (guest b))))"
  by (rule get_binding_deepest[OF demo_fs_ok]) (simp add: comp_ok_def)

text \<open>
  C24: inserting a binding keeps the invariant of the queues, leaves the root alone unless the
  binding is for the guest root, and from then on the guest path is looked up to the new binding.
\<close>

theorem insort_binding3_installs:
  assumes "fs_ok t" "list_all comp_ok hs" "list_all comp_ok gs"
  shows "fs_ok (insort_binding3 t (render hs) (render gs)) \<and>
    (gs \<noteq> [] \<longrightarrow> get_root (insort_binding3 t (render hs) (render gs)) = get_root t) \<and>
    (\<exists>b. get_binding (insort_binding3 t (render hs) (render gs)) GUEST (render gs) = Some b \<and>
         path_str (host b) = render hs \<and> path_str (guest b) = render gs)"
proof -
  let ?t = "insort_binding3 t (render hs) (render gs)"
  note ins = fs_ok_insort_binding3[OF assms]
  obtain b where b: "b \<in> set (head_of ?t GUEST)" "host b = mk_path (render hs)"
    "guest b = mk_path (render gs)" using ins(3) by blast
  then have "side_key GUEST b = gs" using assms(3) by (simp add: side_key_def side_path_def comps_render)
  then have "get_binding ?t GUEST (render gs) = Some b"
    using get_binding_exact[OF ins(1) b(1)] assms(3) by simp
  then show ?thesis using ins(1,2) b(2,3) by auto
qed

theorem insort_binding3_installs_witness:
  "fs_ok (insort_binding3 demo_fs (render [''t'']) (render [''b'', ''x''])) \<and>
    (\<exists>b. get_binding (insort_binding3 demo_fs (render [''t'']) (render [''b'', ''x''])) GUEST
           (render [''b'', ''x'']) = Some b \<and>
         path_str (host b) = render [''t''] \<and> path_str (guest b) = render [''b'', ''x''])"
  using insort_binding3_installs[OF demo_fs_ok, of "[''t'']" "[''b'', ''x'']"]
  by (simp add: comp_ok_def)

text \<open>
  C27: \<open>compare_paths\<close> decides equality and the strict prefix relation of component lists, with or
  without one trailing separator on either path, for every pair of paths.
\<close>

theorem compare_paths_correct:
  assumes "denotes p as" "denotes q bs"
  shows "compare_paths p q =
    (if as = bs then PATHS_ARE_EQUAL
     else if strict_prefix as bs then PATH1_IS_PREFIX
     else if strict_prefix bs as then PATH2_IS_PREFIX
     else PATHS_ARE_NOT_COMPARABLE)"
  using assms by (rule compare_paths_denotes)

theorem compare_paths_correct_witness:
  "compare_paths ''/b/'' ''/b/x'' = PATH1_IS_PREFIX"
  using compare_paths_correct[of "''/b/''" "[''b'']" "''/b/x''" "[''b'', ''x'']"]
  by (simp add: denotes_def comp_ok_def strict_prefix_def)

text \<open>
  C31: on a file system without symbolic links the result of \<open>canonicalize\<close>, called the way the
  translation calls it, is the lexical normal form of the path: \<^verbatim>\<open>.\<close> dropped and \<^verbatim>\<open>..\<close>
  removing the name before it and stopping at the root, ended with \<^verbatim>\<open>/.\<close> or with a separator
  where the path ends with \<^verbatim>\<open>.\<close>, with \<^verbatim>\<open>..\<close> or with a separator.
\<close>

theorem canonicalize_lexical:
  assumes "no_links os" "glue_type (fst s) = S_NONE" "NUL \<notin> set user"
    and "canonicalize os s user deref ''/'' 0 = (Inr g, s')"
  shows "g = with_finality (wanted_finality user) (lexical [] (comps user))"
proof -
  obtain g' fin where l: "canon_loop os s user deref (render []) 0 0 = (Inr (g', fin), s')"
    and g: "canon_exit 0 fin g' = Inr g"
    using assms(4)
    by (cases "canon_loop os s user deref ''/'' 0 0")
      (auto simp: canonicalize.simps split: if_splits sum.splits)
  have "g' = render (lexical [] (comps user))"
    using canon_loop_lexical[OF assms(1,2) _ assms(3) _ l] by simp
  moreover have "list_all comp_ok (lexical [] (comps user))"
    using lexical_comp_ok[of "[]" "comps user"] comps_no_NUL[OF assms(3)] by simp
  ultimately show ?thesis
    using canon_exit_finality[of _ fin g] g canon_loop_finality[OF assms(3) l] by simp
qed

theorem canonicalize_lexical_witness:
  "canonicalize (demo_os\<lparr>os_lstat := \<lambda>w p. Inr S_IFDIR\<rparr>) demo_st ''/x/.././..//q/.'' True ''/'' 0 =
      (Inr ''/q/.'', demo_st) \<and>
    ''/q/.'' = with_finality (wanted_finality ''/x/.././..//q/.'') (lexical [] (comps ''/x/.././..//q/.''))"
proof
  let ?os = "demo_os\<lparr>os_lstat := \<lambda>w p. Inr S_IFDIR\<rparr>"
  show run: "canonicalize ?os demo_st ''/x/.././..//q/.'' True ''/'' 0 = (Inr ''/q/.'', demo_st)"
    by code_simp
  show "''/q/.'' = with_finality (wanted_finality ''/x/.././..//q/.'') (lexical [] (comps ''/x/.././..//q/.''))"
    using canonicalize_lexical[OF _ _ _ run]
    by (simp add: no_links_def demo_st_def demo_fs_def)
qed

text \<open>
  When the substituted path would not fit, \<open>substitute_binding\<close> still answers 1, and the buffer
  holds the guest path unchanged: the caller goes on with a guest path as if it were a host path.
\<close>

lemma substitute_binding_too_long:
  assumes "get_binding t GUEST p = Some b" "need_substitution b"
    and "path_length (host b) \<noteq> 1" "path_length (guest b) = 1"
    and "path_length (host b) + length p \<ge> PATH_MAX" "cchar p 0 = slash"
  shows "substitute_binding t GUEST p = Inr (1, p)"
  using assms by (simp add: substitute_binding_def substitute_path_prefix_def Let_def)

lemma substitute_binding_too_long_witness:
  "substitute_binding demo_fs GUEST (render [replicate 4093 CHR ''a'']) =
     Inr (1, render [replicate 4093 CHR ''a''])"
proof (rule substitute_binding_too_long[of _ _ demo_root])
  let ?c = "replicate 4093 CHR ''a''"
  have ne: "''b'' \<noteq> ?c"
  proof
    assume "''b'' = ?c"
    then have "length ''b'' = length ?c" by (rule arg_cong)
    then show False by simp
  qed
  have "denotes (render [?c]) [?c]" by (rule denotes_render) (simp add: comp_ok_def)
  from get_binding_guest[OF demo_fs_ok this]
  show "get_binding demo_fs GUEST (render [?c]) = Some demo_root"
    using ne by (simp add: demo_head demo_keys)
qed (simp_all add: demo_root_def render_def PATH_MAX_def)

text \<open>
  The assertion on what a followed link leads to can fail: with a rootfs whose host path is itself a
  link (\<^verbatim>\<open>-r /proc/self/cwd\<close>), a link to \<^verbatim>\<open>..\<close> leads to the guest root, which the
  recursive call does not look at again.
\<close>

lemma canonicalize_link_assertion:
  "fst (canonicalize (demo_os\<lparr>os_lstat := \<lambda>w p. Inr S_IFLNK, os_readlink := \<lambda>w p. Inr ''..''\<rparr>)
     demo_st ''/l'' True ''/'' 0) = Inl EABORTED"
  by code_simp

text \<open>
  Whatever is joined, the result of \<open>join_paths\<close> and its NUL fit a buffer of \<open>PATH_MAX\<close> bytes.
\<close>

lemma join_paths_fits:
  assumes "join_paths ps = Inr r"
  shows "length r + 1 < PATH_MAX"
  using join_loop_length[of "[]" ps r] assms by (simp add: join_paths_def PATH_MAX_def)

lemma join_paths_fits_witness: "length ''/b/x'' + 1 < PATH_MAX"
proof (rule join_paths_fits[of "[Some ''/b/'', None, Some ''/x'']"])
  show "join_paths [Some ''/b/'', None, Some ''/x''] = Inr ''/b/x''" by code_simp
qed

text \<open>
  \<open>chop_finality\<close> tests the last character only, so a canonical path whose last name ends
  with a dot loses the dot and the character before it, not just a final \<^verbatim>\<open>/.\<close>.
\<close>

lemma chop_finality_dotted_name:
  assumes "c \<noteq> []"
  shows "chop_finality (render (cs @ [c @ ''.''])) = body cs @ slash # butlast c"
proof -
  obtain d x where c: "c = d @ [x]" using assms by (metis rev_exhaust)
  show ?thesis by (simp add: chop_finality_def render_def c nth_append)
qed

lemma chop_finality_dotted_name_witness:
  "chop_finality (render [''etc'', ''foo.'']) = ''/etc/fo''"
  using chop_finality_dotted_name[of "''foo''" "[''etc'']"] by simp

text \<open>
  Below \<^verbatim>\<open>/proc/self/fd\<close> a file descriptor link is neither dereferenced nor left to the
  tracer's own \<^verbatim>\<open>/proc/self\<close>: the answer is the entry of the tracee that asks.
\<close>

lemma readlink_proc_self_fd:
  assumes "0 < pid" "n < 2 ^ 63" "length (show_nat pid) + length (show_nat n) < 4000"
  shows "readlink_proc gt pid ''/proc/self/fd'' (show_nat n) PATH1_IS_PREFIX =
    Inr (DONT_CANONICALIZE (''/proc/'' @ show_nat pid @ ''/fd/'' @ show_nat n))"
proof -
  have norm: "normalize_self pid ''/proc/self/fd'' = ''/proc/'' @ show_nat pid @ ''/fd''"
    by (simp add: normalize_self_def cchar_def)
  have at: "atoi (drop 6 (''/proc/'' @ show_nat pid @ ''/fd'')) = int pid"
    using atoi_show_nat[of "''/fd''" pid] by (simp add: is_digit_def)
  have names: "comp_ok (show_nat pid)" using name_ok_show_nat[of pid] by (simp add: name_ok_def)
  then have ok: "list_all comp_ok [''proc'', show_nat pid]" "list_all comp_ok [''proc'', show_nat pid, ''fd'']"
    by (simp_all add: comp_ok_def)
  have r: "render [''proc'', show_nat pid] = ''/proc/'' @ show_nat pid"
    "render [''proc'', show_nat pid, ''fd''] = ''/proc/'' @ show_nat pid @ ''/fd''"
    by (simp_all add: render_def)
  have c1: "compare_paths (''/proc/'' @ show_nat pid) (''/proc/'' @ show_nat pid @ ''/fd'') = PATH1_IS_PREFIX"
    using compare_paths_render[OF ok] by (simp add: r strict_prefix_def)
  have c2: "compare_paths ((''/proc/'' @ show_nat pid) @ ''/fd'') (''/proc/'' @ show_nat pid @ ''/fd'') =
      PATHS_ARE_EQUAL"
    using compare_paths_render[OF ok(2) ok(2)] by (simp add: r)
  obtain d ds where dd: "show_nat n = d # ds" "is_digit d"
    using show_nat_nonempty[of n] show_nat_digits[of n] by (cases "show_nat n") auto
  have st: "strtol_ok (show_nat n)"
    using atoi_show_nat[of "[]" n] assms(2) digit_chars[OF dd(2)] dd
    by (auto simp: strtol_ok_def Let_def)
  show ?thesis
    using assms(1,3) norm at c1 c2 st
    by (simp add: readlink_proc_def Let_def show_int_def PATH_MAX_def)
qed

lemma readlink_proc_self_fd_witness:
  "readlink_proc (\<lambda>i. None) 7 ''/proc/self/fd'' (show_nat 3) PATH1_IS_PREFIX =
    Inr (DONT_CANONICALIZE (''/proc/'' @ show_nat 7 @ ''/fd/'' @ show_nat 3))"
  by (rule readlink_proc_self_fd) (simp_all add: show_nat.simps)

end
