(* ===== verification/Binding_Init.thy ===== *)
theory Binding_Init
  imports Translate
begin

section \<open>Setting up the bindings\<close>

text \<open>
  The first half of the life of \<open>fs->bindings\<close>: \<open>new_binding\<close> puts what the user asks for into the
  pending queue, \<open>initialize_bindings\<close> canonicalises the guest sides, deepest last, into the guest
  and host queues (\<^verbatim>\<open>path/binding.c\<close>), and \<open>which\<close> finds the program to start (\<^verbatim>\<open>path/path.c\<close>).
  \<^verbatim>\<open>realpath(3)\<close>, \<^verbatim>\<open>getcwd(3)\<close> and the \<open>stat\<close> of \<open>which\<close> are parameters; \<open>reconf\<close> is the state of
  \<^verbatim>\<open>tracee->reconf.tracee\<close>, \<open>None\<close> in the nominal case.
\<close>

subsection \<open>new\_binding\<close>

definition realpath2 ::
  "(string \<Rightarrow> string result) \<Rightarrow> 'w os \<Rightarrow> 'w st option \<Rightarrow> string \<Rightarrow> bool \<Rightarrow>
     string result \<times> 'w st option" where
  "realpath2 realpath os tracee path deref_final =
     (case tracee of
        None \<Rightarrow> (realpath path, None)
      | Some s \<Rightarrow>
          (case translate_path os s AT_FDCWD path deref_final of (r, s) \<Rightarrow> (r, Some s)))"

definition getcwd2_of :: "string result \<Rightarrow> 'w st option \<Rightarrow> string result" where
  "getcwd2_of getcwd tracee = (case tracee of None \<Rightarrow> getcwd | Some s \<Rightarrow> getcwd2 (fst s))"

definition is_proc_self :: "string \<Rightarrow> bool" where
  "is_proc_self h = (take 10 h = ''/proc/self'' \<and> (cchar h 10 = slash \<or> cchar h 10 = NUL))"

definition binding_host_path ::
  "(string \<Rightarrow> string result) \<Rightarrow> 'w os \<Rightarrow> 'w st option \<Rightarrow> string \<Rightarrow> string result \<times> 'w st option" where
  "binding_host_path realpath os reconf h =
     (if is_proc_self h then
        (if length h \<ge> PATH_MAX then (Inl ENAMETOOLONG, reconf) else (Inr h, reconf))
      else realpath2 realpath os reconf h True)"

definition new_binding ::
  "(string \<Rightarrow> string result) \<Rightarrow> string result \<Rightarrow> 'w os \<Rightarrow> 'w st option \<Rightarrow> fs_state \<Rightarrow> string \<Rightarrow>
     string option \<Rightarrow> binding option \<times> fs_state \<times> 'w st option" where
  "new_binding realpath getcwd os reconf t h g =
     (let t = (if bs_pending t = None then t\<lparr>bs_pending := Some []\<rparr> else t) in
      case binding_host_path realpath os reconf h of
        (Inl e, reconf) \<Rightarrow> (None, t, reconf)
      | (Inr host_path, reconf) \<Rightarrow>
          (let g = (case g of None \<Rightarrow> h | Some g \<Rightarrow> g) in
           case (if cchar g 0 \<noteq> slash then getcwd2_of getcwd reconf else Inr [slash]) of
             Inl e \<Rightarrow> (None, t, reconf)
           | Inr base \<Rightarrow>
               (case join_paths [Some base, Some g] of
                  Inl e \<Rightarrow> (None, t, reconf)
                | Inr guest_path \<Rightarrow>
                    (case new_binding_object t host_path guest_path of
                       (b, t) \<Rightarrow> (Some b, insort_binding t PENDING b, reconf)))))"

subsection \<open>initialize\_bindings\<close>

text \<open>A destructor: the bindings of a queue go with it.\<close>

definition remove_bindings :: "fs_state \<Rightarrow> Side \<Rightarrow> fs_state" where
  "remove_bindings t side =
     (case side of
        GUEST \<Rightarrow> t\<lparr>bs_guest := None\<rparr>
      | HOST \<Rightarrow> t\<lparr>bs_host := None\<rparr>
      | PENDING \<Rightarrow> t\<lparr>bs_pending := None\<rparr>)"

definition initial_glue_type :: "ftype result \<Rightarrow> ftype" where
  "initial_glue_type status =
     (case status of
        Inl _ \<Rightarrow> S_IFREG
      | Inr ty \<Rightarrow> (if ty = S_IFBLK \<or> ty = S_IFCHR \<or> ty = S_IFLNK then S_IFREG else ty))"

text \<open>The canonical guest path of a binding that is not the root; a final \<^verbatim>\<open>!\<close> means no dereference.\<close>

definition canonical_guest :: "'w os \<Rightarrow> 'w st \<Rightarrow> binding \<Rightarrow> string result \<times> 'w st" where
  "canonical_guest os s b =
     (let path = path_str (guest b);
          dereference = (last path \<noteq> CHR ''!'');
          path = (if dereference then path else butlast path);
          status = os_lstat os (snd s) (path_str (host b));
          s = ((fst s)\<lparr>glue_type := initial_glue_type status\<rparr>, snd s);
          dereference = (if status = Inr S_IFDIR then False else dereference)
      in canonicalize os s path dereference [slash] 0)"

text \<open>
  The binding that comes back has the guest path it ends up with; \<open>left\<close> is what a failed
  canonicalisation leaves in the buffer.  \<open>None\<close> is a failed assertion: the one on the length, one
  of the canonicalisation, or the one of \<open>chop_finality\<close> on a path that is only \<^verbatim>\<open>.\<close>.
\<close>

definition initialize_binding ::
  "'w os \<Rightarrow> (string \<Rightarrow> string) \<Rightarrow> 'w st \<Rightarrow> binding \<Rightarrow> (binding \<times> 'w st) option" where
  "initialize_binding os left s b =
     (if compare_paths (path_str (guest b)) [slash] \<noteq> PATHS_ARE_EQUAL then
        (if path_str (guest b) = [] then None
         else
           (case canonical_guest os s b of
              (Inl e, s) \<Rightarrow>
                if e = EABORTED then None
                else Some (b\<lparr>guest := (guest b)\<lparr>path_str := left (path_str (guest b))\<rparr>\<rparr>, s)
            | (Inr g, s) \<Rightarrow>
                if g = [dot] then None
                else (let b = b\<lparr>guest := mk_path (chop_finality g)\<rparr>
                 in Some (b, (insort_binding2 ((fst s)\<lparr>glue_type := S_NONE\<rparr>) b, snd s)))))
      else
        (let b = b\<lparr>guest := mk_path (path_str (guest b))\<rparr>
         in Some (b, (insort_binding2 (fst s) b, snd s))))"

text \<open>One turn of the loop of \<open>add_induced_bindings\<close>.\<close>

definition induce_binding :: "string \<Rightarrow> binding \<Rightarrow> fs_state \<Rightarrow> binding \<Rightarrow> fs_state" where
  "induce_binding path new t old =
     (if compare_paths path (path_str (guest old)) \<noteq> PATH1_IS_PREFIX then t
      else
        (let prefix_length = (if length path = 1 then 0 else length path)
         in case join_paths [Some (path_str (guest new)),
                             Some (drop prefix_length (path_str (guest old)))] of
              Inl e \<Rightarrow> t
            | Inr path2 \<Rightarrow> insort_binding3 t (path_str (host old)) path2))"

definition add_induced_bindings :: "'w os \<Rightarrow> 'w st option \<Rightarrow> fs_state \<Rightarrow> binding \<Rightarrow> fs_state" where
  "add_induced_bindings os reconf t new =
     (case reconf of
        None \<Rightarrow> t
      | Some r \<Rightarrow>
          (case detranslate_path os r (path_str (host new)) None of
             Inl e \<Rightarrow> t
           | Inr (_, path) \<Rightarrow> foldl (induce_binding path new) t (head_of (fst r) GUEST)))"

fun initialize_each ::
  "'w os \<Rightarrow> (string \<Rightarrow> string) \<Rightarrow> 'w st option \<Rightarrow> binding list \<Rightarrow> 'w st \<Rightarrow> 'w st option" where
  "initialize_each os left reconf [] s = Some s"
| "initialize_each os left reconf (b # bs) s =
     (case initialize_binding os left s b of
        None \<Rightarrow> None
      | Some (b, s) \<Rightarrow>
          initialize_each os left reconf bs (add_induced_bindings os reconf (fst s) b, snd s))"

text \<open>\<open>None\<close> is a failed assertion.\<close>

definition initialize_bindings ::
  "'w os \<Rightarrow> (string \<Rightarrow> string) \<Rightarrow> 'w st option \<Rightarrow> 'w st \<Rightarrow> 'w st option" where
  "initialize_bindings os left reconf s =
     (if get_root (fst s) = None \<or> bs_guest (fst s) \<noteq> None \<or> bs_host (fst s) \<noteq> None then None
      else
        (case bs_pending (fst s) of
           None \<Rightarrow> None
         | Some pending \<Rightarrow>
             (case initialize_each os left reconf (rev pending)
                     ((fst s)\<lparr>bs_guest := Some [], bs_host := Some []\<rparr>, snd s) of
                None \<Rightarrow> None
              | Some s \<Rightarrow> Some (remove_bindings (fst s) PENDING, snd s))))"

subsection \<open>which\<close>

text \<open>
  \<open>stat\<close> answers whether the path is a regular file and whether its owner may execute it.  Only the
  translation for a tracee can fail an assertion; \<open>EPERM\<close> is the failure of \<open>which\<close>.
\<close>

definition gave_up :: "errno \<Rightarrow> 'w st option \<Rightarrow> bool" where
  "gave_up e tracee = (e = EABORTED \<and> tracee \<noteq> None)"

fun which_in ::
  "(string \<Rightarrow> string result) \<Rightarrow> 'w os \<Rightarrow> (string \<Rightarrow> (bool \<times> bool) option) \<Rightarrow> 'w st option \<Rightarrow>
     string list \<Rightarrow> string \<Rightarrow> string result \<times> 'w st option" where
  "which_in realpath os stat tracee [] command = (Inl EPERM, tracee)"
| "which_in realpath os stat tracee (d # ds) command =
     (if length d \<ge> PATH_MAX \<or> length d + length command + 2 \<ge> PATH_MAX
      then which_in realpath os stat tracee ds command
      else
        (let path = (if d = [] then [dot] else d) @ [slash] @ command in
         case realpath2 realpath os tracee path True of
           (Inl e, tracee) \<Rightarrow>
             if gave_up e tracee then (Inl EABORTED, tracee)
             else which_in realpath os stat tracee ds command
         | (Inr host_path, tracee) \<Rightarrow>
             (if stat host_path = Some (True, True) then
                (case realpath2 realpath os tracee path False of
                   (Inl e, tracee) \<Rightarrow>
                     (if gave_up e tracee then Inl EABORTED else Inr host_path, tracee)
                 | (Inr p, tracee) \<Rightarrow> (Inr p, tracee))
              else which_in realpath os stat tracee ds command)))"

text \<open>The items of \<open>$PATH\<close>, an empty one for every separator that nothing follows.\<close>

fun path_items :: "string \<Rightarrow> string list" where
  "path_items [] = [[]]"
| "path_items (c # s) =
     (if c = CHR '':'' then [] # path_items s
      else (case path_items s of [] \<Rightarrow> [[c]] | d # ds \<Rightarrow> (c # d) # ds))"

definition which ::
  "(string \<Rightarrow> string result) \<Rightarrow> 'w os \<Rightarrow> (string \<Rightarrow> (bool \<times> bool) option) \<Rightarrow> 'w st option \<Rightarrow>
     string option \<Rightarrow> string option \<Rightarrow> string \<Rightarrow> string result \<times> 'w st option" where
  "which realpath os stat tracee paths env_path command =
     (let is_explicit = (slash \<in> set command);
          paths = (case paths of None \<Rightarrow> env_path | Some p \<Rightarrow> Some p);
          search = (\<lambda>tracee.
            if paths = None \<or> paths = Some [] then (Inl EPERM, tracee)
            else which_in realpath os stat tracee (path_items (the paths)) command)
      in case realpath2 realpath os tracee command True of
           (Inl e, tracee) \<Rightarrow>
             if gave_up e tracee then (Inl EABORTED, tracee)
             else if is_explicit then (Inl EPERM, tracee) else search tracee
         | (Inr host_path, tracee) \<Rightarrow>
             (case stat host_path of
                None \<Rightarrow> (if is_explicit then (Inl EPERM, tracee) else search tracee)
              | Some (regular, executable) \<Rightarrow>
                  (if is_explicit \<and> \<not> (regular \<and> executable) then (Inl EACCES, tracee)
                   else
                     (case realpath2 realpath os tracee command False of
                        (r, tracee) \<Rightarrow>
                          (if r = Inl EABORTED \<and> tracee \<noteq> None then (Inl EABORTED, tracee)
                           else if is_explicit
                           then (Inr (case r of Inr p \<Rightarrow> p | Inl e \<Rightarrow> host_path), tracee)
                           else search tracee)))))"

subsection \<open>What the canonicalisation may add\<close>

text \<open>Between two states the bindings of the guest queue are old ones or new objects.\<close>

definition grown :: "fs_state \<Rightarrow> fs_state \<Rightarrow> bool" where
  "grown t t' =
     (next_id t \<le> next_id t' \<and>
      (\<forall>b\<in>set (head_of t' GUEST). b \<in> set (head_of t GUEST) \<or> next_id t \<le> b_id b))"

lemma grown_refl [simp]: "grown t t"
  by (simp add: grown_def)

lemma grown_trans: "grown t t' \<Longrightarrow> grown t' t'' \<Longrightarrow> grown t t''"
  unfolding grown_def by (meson le_trans)

lemma set_insert_at: "set (insert_at n x l) = insert x (set l)"
  unfolding insert_at_def by (metis append_take_drop_id list.simps(15) set_append Un_insert_right)

lemma head_of_upd:
  "head_of (set_queue t side l) side' = (if side = side' then l else head_of t side')"
  "head_of (remove_binding_from_all_lists t b) side = filter (\<lambda>x. b_id x \<noteq> b_id b) (head_of t side)"
  "head_of (t\<lparr>glue_type := ty\<rparr>) side = head_of t side"
  "head_of (t\<lparr>next_id := i\<rparr>) side = head_of t side"
  "head_of (t\<lparr>glue := d\<rparr>) side = head_of t side"
  by (cases side; cases side';
      simp add: head_of_def queue_of_def set_queue_def remove_binding_from_all_lists_def remove_id_def
        split: option.split)+

lemma insort_binding_subset:
  "set (head_of (insort_binding t side b) side') \<subseteq>
     (if side = side' then insert b (set (head_of t side')) else set (head_of t side'))"
  by (auto simp: insort_binding_def Let_def head_of_upd set_insert_at
      split: insort_pos.split option.split)

lemma insort_binding2_subset:
  assumes "x \<in> set (head_of (insort_binding2 t b) GUEST)"
  shows "x \<in> set (head_of t GUEST) \<or> b_id x = b_id b \<and> host x = host b \<and> guest x = guest b"
proof -
  let ?b = "b\<lparr>need_substitution := (compare_paths (path_str (host b)) (path_str (guest b))
                                     \<noteq> PATHS_ARE_EQUAL)\<rparr>"
  have "x \<in> set (head_of (insort_binding t GUEST ?b) GUEST)"
    using assms insort_binding_subset[of "insort_binding t GUEST ?b" HOST ?b GUEST]
    by (auto simp: insort_binding2_def Let_def)
  then have "x = ?b \<or> x \<in> set (head_of t GUEST)"
    using insort_binding_subset[of t GUEST ?b GUEST] by auto
  then show ?thesis by auto
qed

lemma insort_binding3_grown: "grown t (insort_binding3 t h g)"
  using insort_binding2_subset
  by (fastforce simp: grown_def insort_binding3_def new_binding_object_def head_of_upd)

lemma build_glue_grown: "grown (fst s) (fst (snd (build_glue os s g h fin)))"
proof -
  have d: "grown (fst s) (fst (glue_directory os s))"
    by (auto simp: glue_directory_def grown_def head_of_upd split: prod.split option.split)
  have c: "grown (fst s') (fst (snd (create_glue_binding s' d g ty)))" for s' :: "'a st" and d g ty
    by (simp add: create_glue_binding_def insort_binding3_grown)
  show ?thesis
    using d grown_trans[OF d] c[of "(fst (glue_directory os s), w)" for w] c[of "glue_directory os s"]
    by (auto simp: build_glue_def Let_def split: option.split prod.split)
qed

lemma substitute_binding_stat_grown:
  "grown (fst s) (fst (snd (substitute_binding_stat os s fin level g)))"
proof (cases "substitute_binding (fst s) GUEST g")
  case (Inl e)
  then show ?thesis by (simp add: substitute_binding_stat_def)
next
  case (Inr nh)
  obtain n h where nh: "nh = (n, h)" by (cases nh)
  have glue: "grown (fst s) (fst (snd (build_glue os (fst s, w) g h fin)))" for w h
    using build_glue_grown[of "(fst s, w)"] by simp
  obtain r w where r: "(if glue_type (fst s) = S_NONE
      then os_host_path os (snd s) h (IS_FINAL fin \<and> level = 0) else (Inr h, snd s)) = (r, w)"
    by fastforce
  show ?thesis
  proof (cases r)
    case (Inl e)
    then show ?thesis using Inr nh r by (simp add: substitute_binding_stat_def)
  next
    case h: (Inr h')
    obtain found mode where st: "stat_host_path os w h' = (found, mode)"
      by (cases "stat_host_path os w h'")
    show ?thesis using Inr nh r h st glue[of w h']
      by (cases "build_glue os (fst s, w) g h' fin") (simp add: substitute_binding_stat_def Let_def)
  qed
qed

lemma canonicalize_grown:
  fixes os os' :: "'w os"
  shows "grown (fst s) (fst (snd (canonicalize os s user deref gp level)))"
    and "grown (fst s') (fst (snd (canon_loop os' s' cur deref' gp' level' n)))"
proof (induction os s user deref gp level and os' s' cur deref' gp' level' n
    rule: canonicalize_canon_loop.induct)
  case (1 os s user deref gp level)
  then show ?case
    by (subst canonicalize.simps) (force split: sum.split prod.split)
next
  case (2 os s cur deref gp level n)
  note sbs = substitute_binding_stat_grown[where os = os]
  show ?case
  proof (cases "next_component cur")
    case (Inl e)
    then show ?thesis by (simp add: canon_loop.simps[of os s cur])
  next
    case (Inr r)
    then obtain fin c rest where nc: "next_component cur = Inr (fin, c, rest)" by (cases r) auto
    show ?thesis
    proof (cases "c = ''.'' \<or> c = ''..'' \<or> (\<exists>e. join_paths [Some gp, Some c] = Inl e)")
      case True
      then show ?thesis using 2(1,2)[OF nc refl refl] nc
        by (auto simp: canon_loop.simps[of os s cur])
    next
      case False
      then obtain scratch where name: "c \<noteq> ''.''" "c \<noteq> ''..''" "join_paths [Some gp, Some c] = Inr scratch"
        by (cases "join_paths [Some gp, Some c]") auto
      obtain q s1 where st1: "(q, s1) = substitute_binding_stat os s fin level scratch"
        by (cases "substitute_binding_stat os s fin level scratch") auto
      have g1: "grown (fst s) (fst s1)" using sbs[of s fin level scratch] st1[symmetric] by simp
      show ?thesis
      proof (cases q)
        case (Inl e)
        then show ?thesis using nc name st1[symmetric] g1 by (simp add: canon_loop.simps[of os s cur])
      next
        case q: (Inr lh)
        then obtain is_link h where lh: "(is_link, h) = lh" by (cases lh) auto
        note prefix = nc refl refl name st1 q lh
        note eqs = nc name st1[symmetric] q lh[symmetric]
        show ?thesis
        proof (cases "\<not> is_link \<or> (fin = FINAL_NORMAL \<and> \<not> deref)")
          case True
          then show ?thesis using 2(3)[OF prefix True] eqs g1
            by (auto simp: canon_loop.simps[of os s cur] intro: grown_trans)
        next
          case link: False
          show ?thesis
          proof (cases "\<exists>t. resolve_link os s1 gp c fin h = Link_Canon t")
            case False
            then show ?thesis using link eqs g1
              by (cases "resolve_link os s1 gp c fin h") (auto simp: canon_loop.simps[of os s cur])
          next
            case True
            then obtain t where t: "resolve_link os s1 gp c fin h = Link_Canon t" by blast
            obtain q2 s2 where can: "(q2, s2) = canonicalize os s1 t True gp (level + Suc n)"
              by (cases "canonicalize os s1 t True gp (level + Suc n)") auto
            have g2: "grown (fst s) (fst s2)"
              using grown_trans[OF g1 2(4)[OF prefix link t]] can[symmetric] by simp
            show ?thesis
            proof (cases q2)
              case (Inl e)
              then show ?thesis using link eqs t can[symmetric] g2
                by (auto simp: canon_loop.simps[of os s cur])
            next
              case q2: (Inr g')
              obtain q3 s3 where st3: "(q3, s3) = substitute_binding_stat os s2 fin level g'"
                by (cases "substitute_binding_stat os s2 fin level g'") auto
              have g3: "grown (fst s) (fst s3)"
                using grown_trans[OF g2 sbs[of s2 fin level g']] st3[symmetric] by simp
              show ?thesis
              proof (cases q3)
                case (Inl e)
                then show ?thesis using link eqs t can[symmetric] q2 st3[symmetric] g3
                  by (auto simp: canon_loop.simps[of os s cur])
              next
                case (Inr lh3)
                obtain still h3 where lh3: "(still, h3) = lh3" by (cases lh3) auto
                have "grown (fst s3) (fst (snd (canon_loop os s3 rest deref g' level (Suc n))))"
                  if "\<not> (still \<and> \<not> names_proc_fd g')" "\<not> IS_FINAL fin"
                  using 2(5)[OF prefix link t can q2 st3 Inr lh3 that] .
                then show ?thesis using link eqs t can[symmetric] q2 st3[symmetric] Inr lh3[symmetric] g3
                  by (auto simp: canon_loop.simps[of os s cur] intro: grown_trans)
              qed
            qed
          qed
        qed
      qed
    qed
  qed
qed

subsection \<open>The invariant is established\<close>

definition dotted :: "string \<Rightarrow> bool" where
  "dotted g = (last g = dot \<and> (\<exists>p c. g = p @ [c, dot] \<and> c \<noteq> slash))"

lemma chop_final_form:
  assumes "list_all name_ok gs" "final_form g gs" "\<not> dotted g"
  shows "chop_finality g = render gs"
proof -
  note ok = list_all_name_comp[OF assms(1)]
  have root: "chop_finality [slash] = [slash]" by (simp add: chop_finality_def)
  consider "g = render gs" | "g = body gs @ [slash]" | "g = body (gs @ [''.''])"
    using assms(2) by (auto simp: final_form_def render_def)
  then show ?thesis
  proof cases
    case 1
    have "last (last gs) \<noteq> dot" if ne: "gs \<noteq> []"
    proof
      assume d: "last (last gs) = dot"
      have "name_ok (last gs)" using assms(1) ne by (simp add: list_all_iff)
      then have l: "last gs \<noteq> []" "last gs \<noteq> ''.''" "slash \<notin> set (last gs)"
        by (auto simp: name_ok_def comp_ok_def)
      then obtain c u where u: "last gs = u @ [c, dot]"
        using d by (metis append_butlast_last_id append.assoc append_Cons append_Nil)
      have "g = body (butlast gs) @ slash # u @ [c, dot]"
        using 1 ne u by (cases gs rule: rev_cases) (simp_all add: render_def)
      then show False using assms(3) l(3) u by (auto simp: dotted_def)
    qed
    then show ?thesis using chop_finality_id[OF ok] 1 by simp
  next
    case 2
    then show ?thesis using chop_finality_slash[of gs] root by (cases "gs = []") (simp_all add: render_Cons)
  next
    case 3
    then show ?thesis using chop_finality_dot[of gs] by simp
  qed
qed

definition pending_ok :: "fs_state \<Rightarrow> binding \<Rightarrow> bool" where
  "pending_ok t b =
     (wf_path (host b) \<and> clean (path_str (guest b)) \<and> hd (path_str (guest b)) = slash \<and>
      b_id b < next_id t)"

lemma compare_root: "compare_paths p [slash] = PATHS_ARE_EQUAL \<longleftrightarrow> p = [slash]"
  by (cases p; cases "tl p") (auto simp: compare_paths_def compare_paths2_def Let_def cchar_def split: if_splits)

lemma canonical_guest_post:
  assumes "env_ok os" "st_ok s" "pending_ok t b"
  shows "canon_post 0 (canonical_guest os s b)" "grown (fst s) (fst (snd (canonical_guest os s b)))"
proof -
  let ?p = "path_str (guest b)"
  have st: "st_ok ((fst s)\<lparr>glue_type := ty\<rparr>, w)" for ty w
    using assms(2) by (simp add: st_ok_def fs_ok_def head_of_def queue_of_def)
  obtain c q where p: "?p = slash # q" "NUL \<notin> set q" and "c = slash"
    using assms(3) by (cases ?p) (auto simp: pending_ok_def clean_def)
  have "clean (if last ?p \<noteq> CHR ''!'' then ?p else butlast ?p) \<and>
      cchar (if last ?p \<noteq> CHR ''!'' then ?p else butlast ?p) 0 = slash"
    using p by (cases q rule: rev_cases) (auto simp: clean_def butlast_append)
  then show "canon_post 0 (canonical_guest os s b)"
    unfolding canonical_guest_def Let_def by (intro canonical_paths(1)[OF assms(1) st]) auto
  have "grown (fst s) ((fst s)\<lparr>glue_type := ty\<rparr>)" for ty by (auto simp: grown_def head_of_upd)
  then show "grown (fst s) (fst (snd (canonical_guest os s b)))"
    unfolding canonical_guest_def Let_def
    by (intro grown_trans[OF _ canonicalize_grown(1)]) simp
qed

definition wide :: "fs_state \<Rightarrow> binding list \<Rightarrow> fs_state \<Rightarrow> bool" where
  "wide t0 l t =
     (next_id t0 \<le> next_id t \<and>
      (\<forall>x\<in>set (head_of t GUEST). (\<exists>b\<in>set l. b_id x = b_id b \<and> host x = host b) \<or> next_id t0 \<le> b_id x))"

lemma wide_grown: "wide t0 l t \<Longrightarrow> grown t t' \<Longrightarrow> wide t0 l t'"
  unfolding wide_def grown_def by (meson le_trans)

lemma wide_glue_type [simp]: "wide t0 l (t\<lparr>glue_type := ty\<rparr>) = wide t0 l t"
  by (simp add: wide_def head_of_upd)

lemma wide_insert:
  assumes "wide t0 l t" "b_id b' = b_id b" "host b' = host b"
  shows "wide t0 (l @ [b]) (insort_binding2 t b')"
  using assms insort_binding2_subset[of _ t b'] unfolding wide_def by fastforce

lemma wide_fresh:
  assumes "wide t0 l t" "b_id b < next_id t0" "b_id b \<notin> b_id ` set l"
  shows "b_id b \<notin> b_id ` set (head_of t GUEST)" "b_id b < next_id t"
  using assms unfolding wide_def by (force simp: image_iff)+

text \<open>The binding of the guest root goes into empty queues.\<close>

lemma root_binding_ok:
  assumes "bs_guest t = Some []" "bs_host t = Some []" "path_str (guest b) = [slash]"
    "path_length (guest b) = 1" "wf_path (host b)" "b_id b < next_id t"
  shows "fs_ok (insort_binding2 t b)"
proof -
  let ?b = "b\<lparr>need_substitution := (compare_paths (path_str (host b)) (path_str (guest b))
                                     \<noteq> PATHS_ARE_EQUAL)\<rparr>"
  have g: "wf_path (guest b)" "comps (path_str (guest b)) = []"
    using assms(3,4) by (simp_all add: wf_path_def comps_Nil render_def)
  have "bs_guest (insort_binding2 t b) = Some [?b]" "bs_host (insort_binding2 t b) = Some [?b]"
    using assms(1,2)
    by (simp_all add: insort_binding2_def insort_binding_def head_of_def queue_of_def set_queue_def Let_def)
  moreover have "need_substitution ?b = (side_key HOST ?b \<noteq> side_key GUEST ?b)"
    using compare_paths_denotes[OF wf_path_denotes wf_path_denotes, of "host b" "guest b"] assms(5) g
    by (simp add: side_key_def side_path_def)
  ultimately show ?thesis
    using g assms(5,6) by (simp add: fs_ok_def queue_ordered_def wf_binding_def side_key_def side_path_def)
qed

text \<open>
  The results of the canonicalisations of a run, up to the one that fails an assertion; a result is
  usable when it is not that one and is not a name \<open>chop_finality\<close> would cut.
\<close>

fun canonical_guests ::
  "'w os \<Rightarrow> (string \<Rightarrow> string) \<Rightarrow> binding list \<Rightarrow> 'w st \<Rightarrow> string result list" where
  "canonical_guests os left [] s = []"
| "canonical_guests os left (b # bs) s =
     (if path_str (guest b) = [slash] then [] else [fst (canonical_guest os s b)]) @
     (case initialize_binding os left s b of
        None \<Rightarrow> []
      | Some (_, s') \<Rightarrow> canonical_guests os left bs s')"

definition usable_guest :: "string result \<Rightarrow> bool" where
  "usable_guest r = (r \<noteq> Inl EABORTED \<and> (\<forall>g. r = Inr g \<longrightarrow> \<not> dotted g))"

lemma initialize_binding_ok:
  fixes os :: "'w os"
  assumes env: "env_ok os" and st: "st_ok s" and w: "wide t0 l (fst s)" and b: "pending_ok t0 b"
    and new: "b_id b \<notin> b_id ` set l"
    and nd: "path_str (guest b) \<noteq> [slash] \<Longrightarrow> usable_guest (fst (canonical_guest os s b))"
  shows "\<exists>b' s'. initialize_binding os left s b = Some (b', s') \<and> st_ok s' \<and> wide t0 (l @ [b]) (fst s')"
proof -
  have b0: "b_id b < next_id t0" "wf_path (host b)" "path_str (guest b) \<noteq> []"
    using b by (auto simp: pending_ok_def clean_def)
  have ins: "st_ok (insort_binding2 t b', w') \<and> wide t0 (l @ [b]) (insort_binding2 t b')"
    if "st_ok (t, w)" "wide t0 l t" "b' = b\<lparr>guest := mk_path (render gs)\<rparr>" "list_all comp_ok gs"
    for t b' gs and w w' :: 'w
  proof -
    have "wf_binding b'" using that(3,4) b0(2) wf_path_mk[OF that(4)] by (simp add: wf_binding_def)
    moreover have "b_id b' \<notin> b_id ` set (head_of t GUEST)" "b_id b' < next_id t"
      using wide_fresh[OF that(2) b0(1) new] that(3) by simp_all
    ultimately show ?thesis
      using fs_ok_insort_binding2(1)[of t b'] wide_insert[OF that(2), of b' b] that
      by (simp add: st_ok_def)
  qed
  show ?thesis
  proof (cases "path_str (guest b) = [slash]")
    case True
    then show ?thesis using ins[of "fst s" "snd s" _ "[]" "snd s"] st w
      by (simp add: initialize_binding_def compare_root Let_def)
  next
    case False
    have bn: "pending_ok (fst s) b" using b w by (auto simp: pending_ok_def wide_def)
    obtain r s1 where c: "canonical_guest os s b = (r, s1)" by (cases "canonical_guest os s b")
    have s1: "st_ok s1" "wide t0 l (fst s1)"
      using canonical_guest_post[OF env st bn] wide_grown[OF w] c by (auto simp: canon_post_def)
    show ?thesis
    proof (cases r)
      case (Inl e)
      then have "e \<noteq> EABORTED" using nd[OF False] c by (auto simp: usable_guest_def)
      then show ?thesis using False b0(3) c s1 Inl
        by (auto simp: initialize_binding_def compare_root wide_def)
    next
      case (Inr g)
      obtain gs where gs: "list_all name_ok gs" "final_form g gs"
        using canonical_guest_post(1)[OF env st bn] c Inr by (auto simp: canon_post_def canon_result_def)
      have "chop_finality g = render gs"
        using chop_final_form[OF gs] nd[OF False] c Inr by (simp add: usable_guest_def)
      moreover have "g \<noteq> [dot]"
        using gs(2) by (cases gs) (auto simp: final_form_def render_def body_def)
      moreover have "st_ok ((fst s1)\<lparr>glue_type := S_NONE\<rparr>, w)" for w :: 'w
        using s1(1) by (simp add: st_ok_def fs_ok_def head_of_def queue_of_def)
      ultimately show ?thesis
        using False b0(3) c Inr s1(2) list_all_name_comp[OF gs(1)]
          ins[of "(fst s1)\<lparr>glue_type := S_NONE\<rparr>" "snd s1" _ gs "snd s1"]
        by (simp add: initialize_binding_def compare_root Let_def)
    qed
  qed
qed

lemma initialize_each_ok:
  assumes "env_ok os" "st_ok s" "wide t0 l (fst s)" "\<forall>b\<in>set bs. pending_ok t0 b"
    "distinct (map b_id (l @ bs))" "\<forall>r\<in>set (canonical_guests os left bs s). usable_guest r"
  shows "\<exists>s'. initialize_each os left None bs s = Some s' \<and> st_ok s' \<and> wide t0 (l @ bs) (fst s')"
  using assms(2-6)
proof (induction bs arbitrary: s l)
  case (Cons b bs)
  have nd: "usable_guest (fst (canonical_guest os s b))" if "path_str (guest b) \<noteq> [slash]"
    using Cons.prems(5) that by simp
  obtain b' s' where b': "initialize_binding os left s b = Some (b', s')" "st_ok s'"
    "wide t0 (l @ [b]) (fst s')"
    using initialize_binding_ok[OF assms(1) Cons.prems(1,2), of b left] Cons.prems(3,4) nd by fastforce
  have "\<forall>r\<in>set (canonical_guests os left bs s'). usable_guest r" using Cons.prems(5) b'(1) by auto
  then show ?case
    using Cons.IH[OF b'(2,3)] Cons.prems(3,4) b'(1) by (simp add: add_induced_bindings_def)
qed simp

end
