(* ===== verification/Setup_Properties.thy ===== *)
theory Setup_Properties
  imports Binding_Init Path_Examples
begin

section \<open>Properties of the set-up\<close>

text \<open>
  \<open>new_binding\<close> keeps the binding of the guest root, if there is one, at the end of the pending
  queue, which is what \<open>initialize_bindings\<close> asserts; from there the invariant \<open>fs_ok\<close>, which all
  the properties of the path translation assume, is established.
\<close>

subsection \<open>The pending queue\<close>











subsection \<open>new\_binding\<close>






subsection \<open>From the command line to the invariant\<close>

text \<open>A request is the host path and the guest path of an option \<^verbatim>\<open>-b\<close>, \<^verbatim>\<open>-r\<close> or the like.\<close>

fun new_bindings ::
  "(string \<Rightarrow> string result) \<Rightarrow> string result \<Rightarrow> 'w os \<Rightarrow> fs_state \<Rightarrow> (string \<times> string option) list \<Rightarrow>
     fs_state" where
  "new_bindings realpath getcwd os t [] = t"
| "new_bindings realpath getcwd os t ((h, g) # reqs) =
     (case new_binding realpath getcwd os None t h g of
        (_, t', _) \<Rightarrow> new_bindings realpath getcwd os t' reqs)"






text \<open>The tracee of the example asks for its rootfs and one more directory.\<close>

definition blank_fs :: fs_state where
  "blank_fs = \<lparr>bs_pending = None, bs_guest = None, bs_host = None, cwd = ''/'', glue = None,
     glue_type = S_NONE, next_id = 0\<rparr>"


subsection \<open>Where the set-up goes wrong\<close>

text \<open>
  A binding whose guest path cannot be canonicalised is skipped with \<open>glue_type\<close> still set: when it
  is the last one, the tracee runs with the creation of glue enabled.
\<close>

abbreviation sample_realpath :: "string \<Rightarrow> string result" where
  "sample_realpath \<equiv> \<lambda>p. if p = ''/r'' then Inr ''/r'' else Inr ''/h''"

lemma failed_binding_keeps_glue_type:
  "map_option (\<lambda>s'. (glue_type (fst s'), length (head_of (fst s') GUEST)))
    (initialize_bindings (demo_os\<lparr>os_lstat := \<lambda>w p. Inr (if p = ''/h'' then S_IFDIR else S_IFREG)\<rparr>)
      (\<lambda>p. p) None
      (new_bindings sample_realpath (Inr ''/w'') demo_os blank_fs
         [(''/h'', Some ''/f/x''), (''/r'', Some ''/'')], ())) = Some (S_IFDIR, 1)"
  by code_simp

text \<open>The guest path \<^verbatim>\<open>/a.\<close> is cut to \<^verbatim>\<open>/\<close>, and its binding replaces the one of the rootfs.\<close>

lemma dotted_binding_replaces_root:
  "map_option (\<lambda>s'. get_root (fst s'))
    (initialize_bindings demo_os (\<lambda>p. p) None
      (new_bindings sample_realpath (Inr ''/w'') demo_os blank_fs
         [(''/h'', Some ''/a.''), (''/r'', Some ''/'')], ())) = Some (Some ''/h'')"
  by code_simp

subsection \<open>which\<close>

fun join_items :: "string list \<Rightarrow> string" where
  "join_items [] = []"
| "join_items [d] = d"
| "join_items (d # ds) = d @ CHR '':'' # join_items ds"

lemma path_items_nonempty: "path_items s \<noteq> []"
  by (induction s) (auto split: list.split)

lemma path_items_name: "CHR '':'' \<notin> set d \<Longrightarrow> path_items d = [d]"
  by (induction d) auto

lemma path_items_append: "CHR '':'' \<notin> set d \<Longrightarrow> path_items (d @ CHR '':'' # s) = d # path_items s"
  by (induction d) auto

lemma path_items_join:
  "ds \<noteq> [] \<Longrightarrow> list_all (\<lambda>d. CHR '':'' \<notin> set d) ds \<Longrightarrow> path_items (join_items ds) = ds"
  by (induction ds rule: join_items.induct) (auto simp: path_items_name path_items_append)

definition candidate :: "string \<Rightarrow> string \<Rightarrow> string" where
  "candidate command d = (if d = [] then [dot] else d) @ [slash] @ command"

definition runnable ::
  "(string \<Rightarrow> string result) \<Rightarrow> (string \<Rightarrow> (bool \<times> bool) option) \<Rightarrow> string \<Rightarrow> string \<Rightarrow> bool" where
  "runnable realpath stat command d =
     (length d + length command + 2 < PATH_MAX \<and>
      (case realpath (candidate command d) of Inl _ \<Rightarrow> False | Inr p \<Rightarrow> stat p = Some (True, True)))"

lemma which_in_first:
  "which_in realpath os stat None ds command =
     (case find (runnable realpath stat command) ds of
        None \<Rightarrow> Inl EPERM
      | Some d \<Rightarrow> Inr (projr (realpath (candidate command d))), None)"
  by (induction ds)
    (auto simp: runnable_def candidate_def realpath2_def gave_up_def Let_def split: sum.splits)

text \<open>
  C39: a command without a separator is the one in the first directory of the list where it is an
  executable regular file, with the empty directory standing for the current one and the directories
  that are too long left out, and it is not found when there is none.
\<close>

theorem which_finds_first:
  assumes "slash \<notin> set command" "list_all (\<lambda>d. CHR '':'' \<notin> set d) ds" "ds \<noteq> []" "ds \<noteq> [[]]"
  shows "fst (which realpath os stat None (Some (join_items ds)) env_path command) =
    (case find (runnable realpath stat command) ds of
       None \<Rightarrow> Inl EPERM
     | Some d \<Rightarrow> realpath (candidate command d))"
proof -
  have p: "path_items (join_items ds) = ds" by (rule path_items_join[OF assms(3,2)])
  then have "join_items ds \<noteq> []" using assms(4) by auto
  moreover have "\<exists>p. realpath (candidate command d) = Inr p"
    if "find (runnable realpath stat command) ds = Some d" for d
    using that by (cases "realpath (candidate command d)") (auto simp: find_Some_iff runnable_def)
  ultimately show ?thesis
    using assms(1) p
    by (auto simp: which_def Let_def realpath2_def which_in_first gave_up_def split: sum.splits option.splits)
qed

theorem which_finds_first_witness:
  "fst (which (\<lambda>p. Inr p) demo_os (\<lambda>p. if p = ''/bin/sh'' \<or> p = ''./sh'' then Some (True, True) else None) None
      (Some ''/sbin:/bin:'') None ''sh'') = Inr ''/bin/sh''"
  using which_finds_first[of "''sh''" "[''/sbin'', ''/bin'', []]" "\<lambda>p. Inr p" demo_os
      "\<lambda>p. if p = ''/bin/sh'' \<or> p = ''./sh'' then Some (True, True) else None" None]
  by (simp add: runnable_def candidate_def PATH_MAX_def)

end
