(* ===== verification/Tracee_Regs.thy ===== *)
theory Tracee_Regs
  imports Prelude
begin

section \<open>Registers of a tracee\<close>

text \<open>
  \<^verbatim>\<open>tracee/reg.c\<close> and \<^verbatim>\<open>tracee/abi.h\<close> for x86\_64: the cached register banks of a tracee, the
  registers the system-call conventions name, and the operations that read, change, save and push
  them.  A bank maps the fields of \<^verbatim>\<open>struct user_regs_struct\<close> to 64-bit words.  The record \<open>tracee\<close>
  holds the part of \<^verbatim>\<open>struct tracee\<close> that the system-call machinery works on; the queue of chained
  system calls is declared here and used by \<^verbatim>\<open>Chain\<close>.
\<close>

type_synonym word_t = "64 word"

text \<open>\<open>c_int w\<close> is the conversion of a word to a C \<^verbatim>\<open>int\<close>.\<close>

definition c_int :: "word_t \<Rightarrow> int" where
  "c_int w = sint (ucast w :: 32 word)"

text \<open>The status of a C function as the number it returns.\<close>

definition status_int :: "int result \<Rightarrow> int" where
  "status_int r = (case r of Inl e \<Rightarrow> - errno_code e | Inr n \<Rightarrow> n)"

datatype hwreg =
    ORIG_RAX | RDI | RSI | RDX | R10 | R8 | R9 | RAX | RSP | RIP | EFLAGS | RBX | RCX | RBP
  | CS | DS

datatype Reg =
    SYSARG_NUM | SYSARG_1 | SYSARG_2 | SYSARG_3 | SYSARG_4 | SYSARG_5 | SYSARG_6 | SYSARG_RESULT
  | STACK_POINTER | INSTR_POINTER | RTLD_FINI | STATE_FLAGS | USERARG_1

datatype RegVersion = CURRENT | ORIGINAL | MODIFIED | ORIGINAL_SECCOMP_REWRITE

text \<open>How a tracee is restarted; \<open>RESTART_UNSET\<close> is the 0 of a field that nobody set.\<close>

datatype restart =
    RESTART_UNSET | PTRACE_CONT | PTRACE_SYSCALL | PTRACE_SINGLESTEP | PTRACE_SINGLEBLOCK

datatype sigstop_state = SIGSTOP_IGNORED | SIGSTOP_ALLOWED | SIGSTOP_PENDING

datatype workaround =
    SYSNUM_WORKAROUND_INACTIVE
  | SYSNUM_WORKAROUND_PROCESS_FAULTY_CALL
  | SYSNUM_WORKAROUND_PROCESS_REPLACED_CALL

text \<open>The neutral number of a system call, \<^verbatim>\<open>PR_xxx\<close> in the code, is its name.\<close>

type_synonym Sysnum = string

record chained_syscall =
  cs_sysnum :: Sysnum
  cs_sysargs :: "word_t list"

record heap_t =
  heap_base :: word_t
  heap_size :: word_t
  heap_disabled :: bool

type_synonym reg_bank = "hwreg \<Rightarrow> word_t"

record tracee =
  pid :: nat
  regs :: "RegVersion \<Rightarrow> reg_bank"
  regs_were_changed :: bool
  restore_original_regs :: bool
  restore_original_regs_after_seccomp_event :: bool
  tr_status :: int
  restart_how :: restart
  sigstop :: sigstop_state
  chain_syscalls :: "chained_syscall list option"
  force_final_result :: bool
  final_result :: word_t
  sysnum_workaround_state :: workaround
  heap :: heap_t

subsection \<open>The calling conventions\<close>

fun reg_offset :: "Reg \<Rightarrow> hwreg" where
  "reg_offset SYSARG_NUM = ORIG_RAX"
| "reg_offset SYSARG_1 = RDI"
| "reg_offset SYSARG_2 = RSI"
| "reg_offset SYSARG_3 = RDX"
| "reg_offset SYSARG_4 = R10"
| "reg_offset SYSARG_5 = R8"
| "reg_offset SYSARG_6 = R9"
| "reg_offset SYSARG_RESULT = RAX"
| "reg_offset STACK_POINTER = RSP"
| "reg_offset INSTR_POINTER = RIP"
| "reg_offset RTLD_FINI = RDX"
| "reg_offset STATE_FLAGS = EFLAGS"
| "reg_offset USERARG_1 = RDI"

fun reg_offset_x86 :: "Reg \<Rightarrow> hwreg" where
  "reg_offset_x86 SYSARG_NUM = ORIG_RAX"
| "reg_offset_x86 SYSARG_1 = RBX"
| "reg_offset_x86 SYSARG_2 = RCX"
| "reg_offset_x86 SYSARG_3 = RDX"
| "reg_offset_x86 SYSARG_4 = RSI"
| "reg_offset_x86 SYSARG_5 = RDI"
| "reg_offset_x86 SYSARG_6 = RBP"
| "reg_offset_x86 SYSARG_RESULT = RAX"
| "reg_offset_x86 STACK_POINTER = RSP"
| "reg_offset_x86 INSTR_POINTER = RIP"
| "reg_offset_x86 RTLD_FINI = RDX"
| "reg_offset_x86 STATE_FLAGS = EFLAGS"
| "reg_offset_x86 USERARG_1 = RAX"

text \<open>The field that the macro \<^verbatim>\<open>REG\<close> denotes in a bank.\<close>

definition hw_of :: "reg_bank \<Rightarrow> Reg \<Rightarrow> hwreg" where
  "hw_of bank r = (if bank CS = 0x23 then reg_offset_x86 r else reg_offset r)"

datatype Abi = ABI_DEFAULT | ABI_2 | ABI_3

definition get_abi :: "tracee \<Rightarrow> Abi" where
  "get_abi t =
     (let bank = regs t ORIGINAL in
      if bank CS = 0x23 then ABI_2
      else if bank CS = 0x33 then (if bank DS = 0x2B then ABI_3 else ABI_DEFAULT)
      else ABI_DEFAULT)"

definition is_32on64_mode :: "tracee \<Rightarrow> bool" where
  "is_32on64_mode t =
     (let bank = regs t CURRENT in bank CS = 0x23 \<or> bank CS = 0x33 \<and> bank DS = 0x2B)"

definition sizeof_word :: "tracee \<Rightarrow> nat" where
  "sizeof_word t = (if is_32on64_mode t then 4 else 8)"

subsection \<open>Operations\<close>

definition peek_reg :: "tracee \<Rightarrow> RegVersion \<Rightarrow> Reg \<Rightarrow> word_t" where
  "peek_reg t version r =
     (let result = regs t version (hw_of (regs t version) r)
      in if is_32on64_mode t then and result 0xFFFFFFFF else result)"

definition poke_reg :: "tracee \<Rightarrow> Reg \<Rightarrow> word_t \<Rightarrow> tracee" where
  "poke_reg t r value =
     (if peek_reg t CURRENT r = value then t
      else
        (let bank = regs t CURRENT
         in t\<lparr>regs := (regs t)(CURRENT := bank(hw_of bank r := value)),
              regs_were_changed := True\<rparr>))"

definition save_current_regs :: "tracee \<Rightarrow> RegVersion \<Rightarrow> tracee" where
  "save_current_regs t version =
     t\<lparr>regs_were_changed := (if version = ORIGINAL then False else regs_were_changed t),
       regs := (regs t)(version := regs t CURRENT)\<rparr>"

text \<open>The macro \<^verbatim>\<open>RESTORE\<close> on x86 architectures.\<close>

definition restore_reg :: "RegVersion \<Rightarrow> Reg \<Rightarrow> tracee \<Rightarrow> tracee" where
  "restore_reg from r t =
     (let bank = regs t CURRENT; src = regs t from
      in t\<lparr>regs := (regs t)(CURRENT := bank(hw_of bank r := src (hw_of src r)))\<rparr>)"

definition restored_sysargs :: "Reg list" where
  "restored_sysargs =
     [SYSARG_NUM, SYSARG_1, SYSARG_2, SYSARG_3, SYSARG_4, SYSARG_5, SYSARG_6, STACK_POINTER]"

text \<open>
  The bank that \<open>push_specific_regs\<close> gives to \<^verbatim>\<open>ptrace(PTRACE_SETREGS)\<close>, if any, and the tracee
  afterwards.  The call itself is the parameter \<open>setregs\<close> of \<open>push_specific_regs\<close>, over a world
  \<open>'w\<close>.
\<close>

definition pushed_regs :: "tracee \<Rightarrow> reg_bank option \<times> tracee" where
  "pushed_regs t =
     (if regs_were_changed t \<or>
         restore_original_regs t \<and> restore_original_regs_after_seccomp_event t then
        (let t = (if restore_original_regs t then
                    (let from = (if restore_original_regs_after_seccomp_event t
                                 then ORIGINAL_SECCOMP_REWRITE else ORIGINAL)
                     in fold (restore_reg from) restored_sysargs
                          (t\<lparr>restore_original_regs_after_seccomp_event := False\<rparr>))
                  else t)
         in (Some (regs t CURRENT), t))
      else (None, t))"

definition push_specific_regs ::
  "('w \<Rightarrow> nat \<Rightarrow> reg_bank \<Rightarrow> errno option \<times> 'w) \<Rightarrow> 'w \<Rightarrow> tracee \<Rightarrow> errno option \<times> tracee \<times> 'w" where
  "push_specific_regs setregs w t =
     (case pushed_regs t of
        (None, t) \<Rightarrow> (None, t, w)
      | (Some bank, t) \<Rightarrow> (case setregs w (pid t) bank of (status, w) \<Rightarrow> (status, t, w)))"

definition SYSTRAP_SIZE :: word_t where "SYSTRAP_SIZE = 2"

definition get_systrap_size :: "tracee \<Rightarrow> word_t" where
  "get_systrap_size t = SYSTRAP_SIZE"

subsection \<open>Lemmas\<close>

named_theorems reg_simps \<open>rewriting rules of the register operations\<close>

lemma hw_of_segment [simp]:
  "hw_of bank r \<noteq> CS" "hw_of bank r \<noteq> DS" "CS \<noteq> hw_of bank r" "DS \<noteq> hw_of bank r"
  by (cases r; simp add: hw_of_def)+

lemma hw_of_upd [simp]: "hw_of (bank(hw_of bank' r' := v)) r = hw_of bank r"
  using hw_of_segment[of bank' r'] by (simp add: hw_of_def[of "bank(hw_of bank' r' := v)"] hw_of_def[of bank])

text \<open>The value a register reads as: the 32 low bits in 32-bit modes.\<close>

definition reg_view :: "tracee \<Rightarrow> word_t \<Rightarrow> word_t" where
  "reg_view t v = (if is_32on64_mode t then and v 0xFFFFFFFF else v)"

lemma peek_reg_view: "peek_reg t ver r = reg_view t (regs t ver (hw_of (regs t ver) r))"
  by (simp add: peek_reg_def reg_view_def Let_def)

lemma reg_view_idem [simp]: "reg_view t (reg_view t v) = reg_view t v"
  by (simp add: reg_view_def and.assoc)

lemma poke_reg_segment [simp]:
  "regs (poke_reg t r v) CURRENT CS = regs t CURRENT CS"
  "regs (poke_reg t r v) CURRENT DS = regs t CURRENT DS"
  "ver \<noteq> CURRENT \<Longrightarrow> regs (poke_reg t r v) ver = regs t ver"
  by (auto simp: poke_reg_def Let_def)

lemma poke_reg_mode [simp]:
  "is_32on64_mode (poke_reg t r v) = is_32on64_mode t" "get_abi (poke_reg t r v) = get_abi t"
  by (simp_all add: is_32on64_mode_def get_abi_def Let_def)

lemma poke_reg_view [simp]: "reg_view (poke_reg t r v) = reg_view t"
  by (rule ext) (simp add: reg_view_def)

lemma poke_reg_frame [simp]:
  "pid (poke_reg t r v) = pid t" "tr_status (poke_reg t r v) = tr_status t"
  "restart_how (poke_reg t r v) = restart_how t" "sigstop (poke_reg t r v) = sigstop t"
  "chain_syscalls (poke_reg t r v) = chain_syscalls t"
  "force_final_result (poke_reg t r v) = force_final_result t"
  "final_result (poke_reg t r v) = final_result t"
  "sysnum_workaround_state (poke_reg t r v) = sysnum_workaround_state t"
  "heap (poke_reg t r v) = heap t"
  "restore_original_regs (poke_reg t r v) = restore_original_regs t"
  by (simp_all add: poke_reg_def Let_def)

text \<open>
  Reading a register after writing one: the written value if both names denote the same hardware
  register in the current mode, truncated when the tracee is in a 32-bit mode.
\<close>

lemma peek_poke_reg [reg_simps]:
  "peek_reg (poke_reg t r v) CURRENT r' =
     (if hw_of (regs t CURRENT) r = hw_of (regs t CURRENT) r' then reg_view t v
      else peek_reg t CURRENT r')"
proof (cases "peek_reg t CURRENT r = v")
  case True
  then have "poke_reg t r v = t" by (simp add: poke_reg_def)
  moreover have "reg_view t v = v" using True by (auto simp: peek_reg_view)
  ultimately show ?thesis using True by (auto simp: peek_reg_view)
next
  case False
  show ?thesis
    using False poke_reg_view[of t r v]
    by (auto simp: peek_reg_view poke_reg_def Let_def)
qed

lemma peek_poke_reg_version [reg_simps]:
  "ver \<noteq> CURRENT \<Longrightarrow> peek_reg (poke_reg t r v) ver r' = peek_reg t ver r'"
  by (simp add: peek_reg_view)

lemma hw_of_poke_reg [simp]: "hw_of (regs (poke_reg t r v) CURRENT) r' = hw_of (regs t CURRENT) r'"
  by (simp add: hw_of_def)

subsection \<open>Tracees in the native mode\<close>

definition native :: "tracee \<Rightarrow> bool" where
  "native t = (regs t CURRENT CS \<noteq> 0x23 \<and> \<not> (regs t CURRENT CS = 0x33 \<and> regs t CURRENT DS = 0x2B))"

lemma native_simps [reg_simps]:
  assumes "native t"
  shows "reg_view t v = v" "hw_of (regs t CURRENT) r = reg_offset r"
    "peek_reg t CURRENT r = regs t CURRENT (reg_offset r)"
    "native (poke_reg t r v)"
    "regs (poke_reg t r v) CURRENT = (regs t CURRENT)(reg_offset r := v)"
proof -
  show v: "reg_view t v = v" for v
    using assms by (auto simp: native_def reg_view_def is_32on64_mode_def Let_def)
  show h: "hw_of (regs t CURRENT) r = reg_offset r" for r
    using assms by (auto simp: native_def hw_of_def)
  show "peek_reg t CURRENT r = regs t CURRENT (reg_offset r)" by (simp add: peek_reg_view v h)
  then show "regs (poke_reg t r v) CURRENT = (regs t CURRENT)(reg_offset r := v)"
    by (auto simp: poke_reg_def Let_def h)
  show "native (poke_reg t r v)" using assms by (simp add: native_def)
qed

lemma save_current_regs_sel [simp]:
  "regs (save_current_regs t v) = (regs t)(v := regs t CURRENT)"
  "heap (save_current_regs t v) = heap t" "native (save_current_regs t v) = native t"
  by (auto simp: save_current_regs_def native_def)

lemma native_abi:
  assumes "native t" "regs t ORIGINAL = regs t CURRENT"
  shows "get_abi t = ABI_DEFAULT"
  using assms by (auto simp: native_def get_abi_def Let_def)

end
