(* ===== verification/Bytes.thy ===== *)
theory Bytes
  imports Tracee_Regs
begin

section \<open>Bytes of a machine word\<close>

text \<open>
  The little-endian bytes of a word, as a word is stored in the memory of a tracee, and the word
  that a list of bytes stands for.
\<close>

definition bytes_le :: "nat \<Rightarrow> word_t \<Rightarrow> 8 word list" where
  "bytes_le n w = map (\<lambda>k. ucast (drop_bit (8 * k) w)) [0..<n]"

definition word_le :: "8 word list \<Rightarrow> word_t" where
  "word_le bs = foldr (\<lambda>b w. or (ucast b) (push_bit 8 w)) bs 0"

lemma length_bytes_le [simp]: "length (bytes_le n w) = n"
  by (simp add: bytes_le_def)

lemma bytes_le_0 [simp]: "bytes_le 0 w = []"
  by (simp add: bytes_le_def)

lemma bytes_le_Suc: "bytes_le (Suc n) w = ucast w # bytes_le n (drop_bit 8 w)"
proof -
  have "[0..<Suc n] = 0 # map Suc [0..<n]" by (simp add: upt_conv_Cons map_Suc_upt del: upt_Suc)
  then show ?thesis by (simp add: bytes_le_def drop_bit_drop_bit add.commute del: upt_Suc)
qed

lemma word_le_simps [simp]: "word_le [] = 0" "word_le (b # bs) = or (ucast b) (push_bit 8 (word_le bs))"
  by (simp_all add: word_le_def)

lemma word_le_bytes_le: "word_le (bytes_le n w) = take_bit (8 * n) w"
proof (induction n arbitrary: w)
  case (Suc n)
  have "word_le (bytes_le (Suc n) w) =
      or (ucast (ucast w :: 8 word)) (push_bit 8 (take_bit (8 * n) (drop_bit 8 w)))"
    using Suc[of "drop_bit 8 w"] by (simp add: bytes_le_Suc)
  also have "\<dots> = take_bit (8 * Suc n) w"
    by (rule bit_word_eqI)
      (auto simp: bit_or_iff bit_push_bit_iff bit_take_bit_iff bit_drop_bit_eq bit_ucast_iff)
  finally show ?case .
qed simp

lemma bytes_le_word_le: "length bs = n \<Longrightarrow> n \<le> 8 \<Longrightarrow> bytes_le n (word_le bs) = bs"
proof (induction bs arbitrary: n)
  case (Cons b bs)
  then obtain m where m: "n = Suc m" "length bs = m" "m \<le> 7" by (cases n) auto
  have low: "(ucast (or (ucast b) (push_bit 8 (word_le bs)) :: word_t) :: 8 word) = b"
    by (rule bit_word_eqI) (auto simp: bit_simps dest: bit_imp_le_length)
  have high: "bytes_le m (drop_bit 8 (or (ucast b) (push_bit 8 (word_le bs)) :: word_t)) =
      bytes_le m (word_le bs)"
    unfolding bytes_le_def
  proof (rule map_cong[OF refl])
    fix k assume "k \<in> set [0..<m]"
    then have "8 * k + 8 \<le> 56" using m(3) by simp
    then show "ucast (drop_bit (8 * k) (drop_bit 8 (or (ucast b) (push_bit 8 (word_le bs)) :: word_t))) =
        (ucast (drop_bit (8 * k) (word_le bs)) :: 8 word)"
      by (intro bit_word_eqI) (auto simp: bit_simps dest: bit_imp_le_length)
  qed
  show ?case using Cons.IH[OF m(2)] m low high by (simp add: bytes_le_Suc)
qed simp

end
