(* ===== verification/Tracee_Memory.thy ===== *)
theory Tracee_Memory
  imports Bytes
begin

section \<open>Memory of a tracee\<close>

text \<open>
  \<^verbatim>\<open>tracee/mem.c\<close>, the build with \<^verbatim>\<open>HAVE_PROCESS_VM\<close> and without the workaround for a broken
  \<^verbatim>\<open>PTRACE_POKEDATA\<close>.  A memory maps the addresses that are accessible to their bytes.  The kernel
  is described by what \<^verbatim>\<open>ptrace(2)\<close> does with a word (\<open>peekdata\<close>, \<open>pokedata\<close>) and by a record that
  says whether \<^verbatim>\<open>process_vm_readv(2)\<close> or \<^verbatim>\<open>process_vm_writev(2)\<close> transfers a range: with one remote
  element it transfers all of it or nothing.
\<close>

type_synonym memory = "word_t \<Rightarrow> 8 word option"

subsection \<open>Ranges of bytes\<close>

fun load_bytes :: "memory \<Rightarrow> word_t \<Rightarrow> nat \<Rightarrow> 8 word list option" where
  "load_bytes m a 0 = Some []"
| "load_bytes m a (Suc n) =
     (case m a of
        None \<Rightarrow> None
      | Some b \<Rightarrow> map_option ((#) b) (load_bytes m (a + 1) n))"

fun store_bytes :: "memory \<Rightarrow> word_t \<Rightarrow> 8 word list \<Rightarrow> memory" where
  "store_bytes m a [] = m"
| "store_bytes m a (b # bs) = store_bytes (m(a := Some b)) (a + 1) bs"

definition accessible :: "memory \<Rightarrow> word_t \<Rightarrow> nat \<Rightarrow> bool" where
  "accessible m a n = (load_bytes m a n \<noteq> None)"

subsection \<open>The kernel\<close>

definition peekdata :: "memory \<Rightarrow> word_t \<Rightarrow> word_t option" where
  "peekdata m a = map_option word_le (load_bytes m a 8)"

definition pokedata :: "memory \<Rightarrow> word_t \<Rightarrow> word_t \<Rightarrow> memory option" where
  "pokedata m a w = (if accessible m a 8 then Some (store_bytes m a (bytes_le 8 w)) else None)"

record process_vm =
  vm_readv :: "memory \<Rightarrow> word_t \<Rightarrow> nat \<Rightarrow> bool"
  vm_writev :: "memory \<Rightarrow> word_t \<Rightarrow> nat \<Rightarrow> bool"

subsection \<open>write\_data\<close>

text \<open>The loop over the full words; the memory comes back with the words written so far.\<close>

fun write_words :: "memory \<Rightarrow> word_t \<Rightarrow> 8 word list \<Rightarrow> nat \<Rightarrow> errno option \<times> memory" where
  "write_words m dest src 0 = (None, m)"
| "write_words m dest src (Suc n) =
     (case pokedata m dest (word_le (take 8 src)) of
        None \<Rightarrow> (Some EFAULT, m)
      | Some m \<Rightarrow> write_words m (dest + 8) (drop 8 src) n)"

definition write_last_word :: "memory \<Rightarrow> word_t \<Rightarrow> 8 word list \<Rightarrow> errno option \<times> memory" where
  "write_last_word m dest src =
     (case peekdata m dest of
        None \<Rightarrow> (Some EFAULT, m)
      | Some word \<Rightarrow>
          (case pokedata m dest (word_le (src @ drop (length src) (bytes_le 8 word))) of
             None \<Rightarrow> (Some EFAULT, m)
           | Some m \<Rightarrow> (None, m)))"

definition write_data :: "process_vm \<Rightarrow> memory \<Rightarrow> word_t \<Rightarrow> 8 word list \<Rightarrow> errno option \<times> memory" where
  "write_data vm m dest src =
     (let count = length src in
      if vm_writev vm m dest count then (None, store_bytes m dest src)
      else
        (let nb_trailing_bytes = count mod 8;
             nb_full_words = (count - nb_trailing_bytes) div 8
         in case write_words m dest src nb_full_words of
              (Some e, m) \<Rightarrow> (Some e, m)
            | (None, m) \<Rightarrow>
                (if nb_trailing_bytes = 0 then (None, m)
                 else write_last_word m (dest + of_nat (8 * nb_full_words)) (drop (8 * nb_full_words) src))))"

fun write_each :: "process_vm \<Rightarrow> memory \<Rightarrow> word_t \<Rightarrow> 8 word list list \<Rightarrow> errno option \<times> memory" where
  "write_each vm m dest [] = (None, m)"
| "write_each vm m dest (src # srcs) =
     (case write_data vm m dest src of
        (Some e, m) \<Rightarrow> (Some e, m)
      | (None, m) \<Rightarrow> write_each vm m (dest + of_nat (length src)) srcs)"

definition writev_data ::
  "process_vm \<Rightarrow> memory \<Rightarrow> word_t \<Rightarrow> 8 word list list \<Rightarrow> errno option \<times> memory" where
  "writev_data vm m dest srcs =
     (if vm_writev vm m dest (length (concat srcs)) then (None, store_bytes m dest (concat srcs))
      else write_each vm m dest srcs)"

subsection \<open>read\_data\<close>

fun read_words :: "memory \<Rightarrow> word_t \<Rightarrow> nat \<Rightarrow> 8 word list result" where
  "read_words m src 0 = Inr []"
| "read_words m src (Suc n) =
     (case peekdata m src of
        None \<Rightarrow> Inl EFAULT
      | Some word \<Rightarrow>
          (case read_words m (src + 8) n of
             Inl e \<Rightarrow> Inl e
           | Inr bs \<Rightarrow> Inr (bytes_le 8 word @ bs)))"

definition read_data :: "process_vm \<Rightarrow> memory \<Rightarrow> word_t \<Rightarrow> nat \<Rightarrow> 8 word list result" where
  "read_data vm m src count =
     (if vm_readv vm m src count then
        (case load_bytes m src count of None \<Rightarrow> Inl EFAULT | Some bs \<Rightarrow> Inr bs)
      else
        (let nb_trailing_bytes = count mod 8;
             nb_full_words = (count - nb_trailing_bytes) div 8
         in case read_words m src nb_full_words of
              Inl e \<Rightarrow> Inl e
            | Inr bs \<Rightarrow>
                (if nb_trailing_bytes = 0 then Inr bs
                 else
                   (case peekdata m (src + of_nat (8 * nb_full_words)) of
                      None \<Rightarrow> Inl EFAULT
                    | Some word \<Rightarrow> Inr (bs @ take nb_trailing_bytes (bytes_le 8 word))))))"

subsection \<open>read\_string\<close>

definition CHUNK_SIZE :: nat where "CHUNK_SIZE = 1024"

text \<open>
  The loop over the chunks: the number of bytes with the NUL, and these bytes; \<open>None\<close> is the jump to
  the fallback or the end of the loop without a NUL.
\<close>

function read_chunks ::
  "process_vm \<Rightarrow> memory \<Rightarrow> word_t \<Rightarrow> nat \<Rightarrow> nat \<Rightarrow> 8 word list \<Rightarrow> (nat \<times> 8 word list) option" where
  "read_chunks vm m src max_size offset bytes =
     (if offset < max_size then
        (let address = src + of_nat offset;
             count = min (CHUNK_SIZE - unat address mod CHUNK_SIZE) (max_size - offset)
         in if \<not> vm_readv vm m address count then None
            else
              (case load_bytes m address count of
                 None \<Rightarrow> None
               | Some bs \<Rightarrow>
                   (let status = length (takeWhile (\<lambda>b. b \<noteq> 0) bs)
                    in if status < count then Some (offset + status + 1, bytes @ take (status + 1) bs)
                       else read_chunks vm m src max_size (offset + count) (bytes @ bs))))
      else None)"
  by pat_completeness auto

termination
  by (relation "measure (\<lambda>(vm, m, src, max_size, offset, bytes). max_size - offset)")
    (auto simp: CHUNK_SIZE_def)

declare read_chunks.simps [simp del]

text \<open>The fallback: word after word until a NUL, then the trailing bytes.\<close>

fun read_string_words ::
  "memory \<Rightarrow> word_t \<Rightarrow> nat \<Rightarrow> nat \<Rightarrow> 8 word list \<Rightarrow> (nat \<times> 8 word list) result" where
  "read_string_words m src nb_trailing_bytes 0 bytes =
     (case peekdata m src of
        None \<Rightarrow> Inl EFAULT
      | Some word \<Rightarrow>
          (let bs = take nb_trailing_bytes (bytes_le 8 word);
               j = length (takeWhile (\<lambda>b. b \<noteq> 0) bs)
           in Inr (length bytes + j + 1, bytes @ take (j + 1) bs)))"
| "read_string_words m src nb_trailing_bytes (Suc n) bytes =
     (case peekdata m src of
        None \<Rightarrow> Inl EFAULT
      | Some word \<Rightarrow>
          (let j = length (takeWhile (\<lambda>b. b \<noteq> 0) (bytes_le 8 word))
           in if j < 8 then Inr (length bytes + j + 1, bytes @ bytes_le 8 word)
              else read_string_words m (src + 8) nb_trailing_bytes n (bytes @ bytes_le 8 word)))"

definition read_string ::
  "process_vm \<Rightarrow> memory \<Rightarrow> word_t \<Rightarrow> nat \<Rightarrow> (nat \<times> 8 word list) result" where
  "read_string vm m src max_size =
     (case read_chunks vm m src max_size 0 [] of
        Some r \<Rightarrow> Inr r
      | None \<Rightarrow>
          (let nb_trailing_bytes = max_size mod 8;
               nb_full_words = (max_size - nb_trailing_bytes) div 8
           in read_string_words m src nb_trailing_bytes nb_full_words []))"

subsection \<open>Words, allocation, clearing\<close>

text \<open>\<open>None\<close> stands for a non-null \<^verbatim>\<open>errno\<close>.\<close>

definition peek_word :: "process_vm \<Rightarrow> memory \<Rightarrow> tracee \<Rightarrow> word_t \<Rightarrow> word_t option" where
  "peek_word vm m t address =
     (if vm_readv vm m address (sizeof_word t)
      then map_option word_le (load_bytes m address (sizeof_word t))
      else map_option (\<lambda>w. if is_32on64_mode t then and w 0xFFFFFFFF else w) (peekdata m address))"

definition poke_word :: "process_vm \<Rightarrow> memory \<Rightarrow> tracee \<Rightarrow> word_t \<Rightarrow> word_t \<Rightarrow> memory option" where
  "poke_word vm m t address value =
     (if vm_writev vm m address (sizeof_word t)
      then Some (store_bytes m address (bytes_le (sizeof_word t) value))
      else if is_32on64_mode t then
        (case peekdata m address of
           None \<Rightarrow> None
         | Some tmp \<Rightarrow> pokedata m address (or value (and tmp 0xFFFFFFFF00000000)))
      else pokedata m address value)"

definition RED_ZONE_SIZE :: int where "RED_ZONE_SIZE = 128"

text \<open>The address, 0 on error; the first condition is the assertion \<open>IS_IN_SYSENTER\<close>.\<close>

definition alloc_mem :: "tracee \<Rightarrow> int \<Rightarrow> (word_t \<times> tracee) option" where
  "alloc_mem t count =
     (if tr_status t \<noteq> 0 then None
      else
        (let stack_pointer = peek_reg t CURRENT STACK_POINTER;
             count = (if stack_pointer = peek_reg t ORIGINAL STACK_POINTER then count + RED_ZONE_SIZE
                     else count)
         in if count > 0 \<and> uint stack_pointer \<le> count \<or>
               count < 0 \<and> uint stack_pointer \<ge> 2 ^ 64 - 1 + count
            then Some (0, t)
            else
              (let stack_pointer = stack_pointer - of_int count
               in Some (stack_pointer, poke_reg t STACK_POINTER stack_pointer))))"

text \<open>\<^verbatim>\<open>mmap(2)\<close> refuses an empty mapping.\<close>

definition clear_mem :: "process_vm \<Rightarrow> memory \<Rightarrow> word_t \<Rightarrow> nat \<Rightarrow> errno option \<times> memory" where
  "clear_mem vm m address count =
     (if count = 0 then (Some EINVAL, m) else write_data vm m address (replicate count 0))"

end
