(* ===== verification/Memory_Lemmas.thy ===== *)
theory Memory_Lemmas
  imports Tracee_Memory
begin

section \<open>Transfers are transfers of byte ranges\<close>

text \<open>
  Whatever path the code takes to the kernel, \<open>write_data\<close> stores exactly the bytes it is given,
  \<open>read_data\<close> loads exactly the bytes of the range, and \<open>read_string\<close> stops at the first NUL.
\<close>

subsection \<open>Ranges\<close>

named_theorems memory_simps \<open>rewriting rules of the memory of a tracee\<close>

lemma load_bytes_length: "load_bytes m a n = Some bs \<Longrightarrow> length bs = n"
  by (induction n arbitrary: a bs) (auto split: option.splits)

lemma load_bytes_add:
  "load_bytes m a (n + k) =
     (case load_bytes m a n of
        None \<Rightarrow> None
      | Some bs \<Rightarrow> map_option ((@) bs) (load_bytes m (a + of_nat n) k))"
proof (induction n arbitrary: a)
  case (Suc n)
  have "a + 1 + of_nat n = a + of_nat (Suc n)" by simp
  then show ?case using Suc[of "a + 1"]
    by (cases "load_bytes m (a + of_nat (Suc n)) k") (auto simp: add.assoc split: option.splits)
qed (simp add: map_option_cong[OF refl, of _ "(@) []" "\<lambda>x. x"] option.map_ident)

lemma load_bytes_prefix:
  assumes "load_bytes m a (n + k) = Some zs" "load_bytes m a n = Some xs"
  shows "\<exists>ys. zs = xs @ ys \<and> load_bytes m (a + of_nat n) k = Some ys"
  using assms by (auto simp: load_bytes_add split: option.splits)

lemma load_bytes_split:
  assumes "load_bytes m a (n + k) = Some zs"
  shows "\<exists>xs ys. load_bytes m a n = Some xs \<and> load_bytes m (a + of_nat n) k = Some ys \<and> zs = xs @ ys"
  using assms by (auto simp: load_bytes_add split: option.splits)

lemma store_bytes_append:
  "store_bytes m a (xs @ ys) = store_bytes (store_bytes m a xs) (a + of_nat (length xs)) ys"
  by (induction xs arbitrary: m a) (simp_all add: add.assoc add.commute)

lemma store_bytes_other: "(\<And>i. i < length bs \<Longrightarrow> x \<noteq> a + of_nat i) \<Longrightarrow> store_bytes m a bs x = m x"
proof (induction bs arbitrary: m a)
  case (Cons b bs)
  have "x \<noteq> a" using Cons.prems[of 0] by simp
  moreover have "x \<noteq> a + 1 + of_nat i" if "i < length bs" for i
    using Cons.prems[of "Suc i"] that by (simp add: add.assoc)
  ultimately show ?case using Cons.IH[of "a + 1"] by simp
qed simp

lemma store_bytes_keeps: "m x \<noteq> None \<Longrightarrow> store_bytes m a bs x \<noteq> None"
  by (induction bs arbitrary: m a) auto

lemma store_bytes_same: "load_bytes m a n = Some bs \<Longrightarrow> store_bytes m a bs = m"
proof (induction n arbitrary: a bs)
  case (Suc n)
  then obtain b cs where b: "m a = Some b" "load_bytes m (a + 1) n = Some cs" "bs = b # cs"
    by (auto split: option.splits)
  then have "m(a := Some b) = m" by auto
  then show ?case using Suc.IH[OF b(2)] b(3) by simp
qed simp

lemma load_bytes_cong:
  "(\<And>i. i < n \<Longrightarrow> m (a + of_nat i) = m' (a + of_nat i)) \<Longrightarrow> load_bytes m a n = load_bytes m' a n"
proof (induction n arbitrary: a)
  case (Suc n)
  have "m a = m' a" using Suc.prems[of 0] by simp
  moreover have "load_bytes m (a + 1) n = load_bytes m' (a + 1) n"
    by (rule Suc.IH) (use Suc.prems[of "Suc _"] in \<open>simp add: add.assoc\<close>)
  ultimately show ?case by (simp split: option.split)
qed simp

lemma of_nat_offset_inject:
  fixes a :: word_t
  assumes "i < 2 ^ 64" "j < 2 ^ 64" "a + of_nat i = a + of_nat j"
  shows "i = j"
proof -
  have "(of_nat i :: word_t) = of_nat j" using assms(3) by simp
  then have "unat (of_nat i :: word_t) = unat (of_nat j :: word_t)" by simp
  then show ?thesis using assms(1,2) by (simp add: unsigned_of_nat take_bit_nat_eq_self)
qed

lemma load_store_bytes [memory_simps]:
  "length bs \<le> 2 ^ 64 \<Longrightarrow> load_bytes (store_bytes m a bs) a (length bs) = Some bs"
proof (induction bs arbitrary: m a)
  case (Cons b bs)
  have "a \<noteq> a + 1 + of_nat i" if "i < length bs" for i
    using of_nat_offset_inject[of 0 "Suc i" a] that Cons.prems by (auto simp: add.assoc)
  then have "store_bytes (m(a := Some b)) (a + 1) bs a = Some b" by (subst store_bytes_other) auto
  then show ?case using Cons.IH[of "m(a := Some b)" "a + 1"] Cons.prems by (simp del: fun_upd_apply)
qed simp

lemma load_store_disjoint:
  assumes "\<And>i j. i < n \<Longrightarrow> j < length bs \<Longrightarrow> b + of_nat i \<noteq> a + of_nat j"
  shows "load_bytes (store_bytes m a bs) b n = load_bytes m b n"
  by (rule load_bytes_cong) (rule store_bytes_other, use assms in blast)

lemma accessible_iff: "accessible m a n \<longleftrightarrow> (\<forall>i<n. m (a + of_nat i) \<noteq> None)"
proof (induction n arbitrary: a)
  case (Suc n)
  have "(\<forall>i<Suc n. m (a + of_nat i) \<noteq> None) \<longleftrightarrow>
      m a \<noteq> None \<and> (\<forall>i<n. m (a + 1 + of_nat i) \<noteq> None)"
    by (simp add: All_less_Suc2 add.assoc)
  moreover have "accessible m a (Suc n) \<longleftrightarrow> m a \<noteq> None \<and> accessible m (a + 1) n"
    by (auto simp: accessible_def split: option.splits)
  ultimately show ?case using Suc by simp
qed (simp add: accessible_def)

lemma accessible_store: "accessible m a n \<Longrightarrow> accessible (store_bytes m b bs) a n"
  by (simp add: accessible_iff store_bytes_keeps)

lemma accessible_mono: "accessible m a n \<Longrightarrow> k \<le> n \<Longrightarrow> accessible m a k"
  by (simp add: accessible_iff)

lemma accessible_add: "accessible m a (n + k) \<longleftrightarrow> accessible m a n \<and> accessible m (a + of_nat n) k"
  by (auto simp: accessible_def load_bytes_add split: option.splits)

lemma accessibleE:
  assumes "accessible m a n"
  obtains bs where "load_bytes m a n = Some bs" "length bs = n"
  using assms load_bytes_length by (auto simp: accessible_def)

subsection \<open>Words\<close>

lemma pokedata_bytes: "accessible m a 8 \<Longrightarrow> length bs = 8 \<Longrightarrow> pokedata m a (word_le bs) = Some (store_bytes m a bs)"
  by (simp add: pokedata_def bytes_le_word_le)

lemma peekdata_bytes: "peekdata m a = Some w \<Longrightarrow> load_bytes m a 8 = Some (bytes_le 8 w)"
  using load_bytes_length[of m a 8] by (auto simp: peekdata_def bytes_le_word_le)

lemma peekdata_None: "peekdata m a = None \<longleftrightarrow> \<not> accessible m a 8"
  by (simp add: peekdata_def accessible_def)

text \<open>The number of bytes in the words that a range of \<open>n\<close> bytes from their start touches.\<close>

definition words_touched :: "nat \<Rightarrow> nat" where
  "words_touched n = 8 * ((n + 7) div 8)"

lemma words_touched_split:
  "words_touched n = (n - n mod 8) + (if n mod 8 = 0 then 0 else 8)" "8 * ((n - n mod 8) div 8) = n - n mod 8"
  "n \<le> words_touched n"
proof -
  obtain q r where n: "n = 8 * q + r" "r < 8" by (metis mult_div_mod_eq mod_less_divisor zero_less_numeral)
  have "(r + 7) div 8 = (if r = 0 then 0 else 1)" using n(2) by presburger
  then have d: "n mod 8 = r" "(n + 7) div 8 = q + (if r = 0 then 0 else 1)"
    using n by (simp_all add: add.assoc del: One_nat_def)
  show "words_touched n = (n - n mod 8) + (if n mod 8 = 0 then 0 else 8)"
    using n d by (simp add: words_touched_def)
  show "8 * ((n - n mod 8) div 8) = n - n mod 8" using n d by simp
  show "n \<le> words_touched n" using n d by (simp add: words_touched_def)
qed

subsection \<open>write\_data\<close>

lemma write_words_store:
  "accessible m dest (8 * n) \<Longrightarrow> 8 * n \<le> length src \<Longrightarrow>
   write_words m dest src n = (None, store_bytes m dest (take (8 * n) src))"
proof (induction n arbitrary: m dest src)
  case (Suc n)
  have acc: "accessible m dest 8" "accessible m (dest + 8) (8 * n)"
    using Suc.prems(1) accessible_add[of m dest 8 "8 * n"] by (simp_all add: add.commute)
  have "take (8 * Suc n) src = take 8 src @ take (8 * n) (drop 8 src)"
    using take_add[of 8 "8 * n" src] by (simp add: add.commute)
  then have "store_bytes m dest (take (8 * Suc n) src) =
      store_bytes (store_bytes m dest (take 8 src)) (dest + 8) (take (8 * n) (drop 8 src))"
    using Suc.prems(2) by (simp add: store_bytes_append)
  then show ?case
    using Suc.IH[OF accessible_store[OF acc(2)], of "drop 8 src" dest "take 8 src"] Suc.prems(2)
      pokedata_bytes[OF acc(1), of "take 8 src"] by simp
qed simp

lemma write_last_word_store:
  assumes "accessible m dest 8" "length src < 8"
  shows "write_last_word m dest src = (None, store_bytes m dest src)"
proof -
  obtain word where w: "peekdata m dest = Some word" using assms(1) peekdata_None by blast
  note l = peekdata_bytes[OF w]
  let ?k = "length src" and ?rest = "drop (length src) (bytes_le 8 word)"
  have "load_bytes m dest (?k + (8 - ?k)) = Some (bytes_le 8 word)" using l assms(2) by simp
  then obtain xs ys where xy: "load_bytes m dest ?k = Some xs" "bytes_le 8 word = xs @ ys"
    "load_bytes m (dest + of_nat ?k) (8 - ?k) = Some ys"
    using load_bytes_split by blast
  have "length xs = ?k" using load_bytes_length[OF xy(1)] .
  then have rest: "?rest = ys" using xy(2) by simp
  have "dest + of_nat ?k + of_nat i \<noteq> dest + of_nat j" if "i < 8 - ?k" "j < ?k" for i j
    using of_nat_offset_inject[of "?k + i" j dest] that assms(2) by (force simp: add.assoc)
  then have "load_bytes (store_bytes m dest src) (dest + of_nat ?k) (8 - ?k) = Some ?rest"
    using load_store_disjoint[of "8 - ?k" src "dest + of_nat ?k" dest m] xy(3) rest by simp
  then have "store_bytes m dest (src @ ?rest) = store_bytes m dest src"
    using store_bytes_same by (simp add: store_bytes_append)
  moreover have "pokedata m dest (word_le (src @ ?rest)) = Some (store_bytes m dest (src @ ?rest))"
    by (rule pokedata_bytes[OF assms(1)]) (use assms(2) in simp)
  ultimately show ?thesis using w by (simp add: write_last_word_def)
qed

lemma write_data_store:
  assumes "vm_writev vm m dest (length src) \<or> accessible m dest (words_touched (length src))"
  shows "write_data vm m dest src = (None, store_bytes m dest src)"
proof (cases "vm_writev vm m dest (length src)")
  case False
  let ?n = "length src"
  define f where "f = ?n - ?n mod 8"
  let ?f = f
  have fk: "8 * (f div 8) = f" "length (drop f src) = ?n mod 8"
    using words_touched_split(2)[of ?n] by (simp_all add: f_def)
  have acc: "accessible m dest ?f" "?n mod 8 \<noteq> 0 \<Longrightarrow> accessible m (dest + of_nat ?f) 8"
    using assms False words_touched_split(1)[of ?n] accessible_add[of m dest f 8]
    by (auto simp: f_def split: if_splits)
  have w: "write_words m dest src (?f div 8) = (None, store_bytes m dest (take ?f src))"
    using write_words_store[of m dest "?f div 8" src] acc(1) fk(1) by (simp add: f_def)
  show ?thesis
  proof (cases "?n mod 8 = 0")
    case True
    then show ?thesis using False w by (simp add: write_data_def f_def)
  next
    case nz: False
    have "length (drop ?f src) < 8" using fk(2) by simp
    then have "write_last_word (store_bytes m dest (take ?f src)) (dest + of_nat ?f) (drop ?f src) =
        (None, store_bytes (store_bytes m dest (take ?f src)) (dest + of_nat ?f) (drop ?f src))"
      by (intro write_last_word_store accessible_store acc(2) nz)
    moreover have "store_bytes m dest src =
        store_bytes (store_bytes m dest (take ?f src)) (dest + of_nat ?f) (drop ?f src)"
      using store_bytes_append[of m dest "take ?f src" "drop ?f src"] by (simp add: f_def)
    ultimately show ?thesis
      using False w nz fk(1) by (simp add: write_data_def Let_def flip: f_def)
  qed
qed (simp add: write_data_def)

subsection \<open>read\_data\<close>

lemma read_words_load:
  "read_words m src n = (case load_bytes m src (8 * n) of None \<Rightarrow> Inl EFAULT | Some bs \<Rightarrow> Inr bs)"
proof (induction n arbitrary: src)
  case (Suc n)
  have split: "load_bytes m src (8 * Suc n) =
      (case load_bytes m src 8 of None \<Rightarrow> None
       | Some bs \<Rightarrow> map_option ((@) bs) (load_bytes m (src + 8) (8 * n)))"
    using load_bytes_add[of m src 8 "8 * n"] by (simp add: add.commute split: option.split)
  show ?case
  proof (cases "peekdata m src")
    case None
    then show ?thesis using split by (simp add: peekdata_def)
  next
    case (Some w)
    then show ?thesis using split peekdata_bytes[OF Some] Suc[of "src + 8"]
      by (cases "load_bytes m (src + 8) (8 * n)") simp_all
  qed
qed simp

text \<open>What the code relies on of \<^verbatim>\<open>process_vm_readv(2)\<close>: a range it transfers is accessible.\<close>

locale process_vm_laws =
  fixes vm :: process_vm
  assumes readv: "vm_readv vm m a n \<Longrightarrow> accessible m a n"
begin

lemma read_data_load:
  assumes "load_bytes m src n = Some bs" "vm_readv vm m src n \<or> accessible m src (words_touched n)"
  shows "read_data vm m src n = Inr bs"
proof (cases "vm_readv vm m src n")
  case True
  then show ?thesis using assms(1) by (simp add: read_data_def)
next
  case False
  define f where "f = n - n mod 8"
  let ?f = f and ?k = "n mod 8"
  have fk: "f + ?k = n" "8 * (f div 8) = f" using words_touched_split(2)[of n] by (simp_all add: f_def)
  have acc: "?k \<noteq> 0 \<Longrightarrow> accessible m (src + of_nat ?f) 8"
    using assms(2) False words_touched_split(1)[of n] accessible_add[of m src f 8] by (simp add: f_def)
  have "load_bytes m src (?f + ?k) = Some bs" using assms(1) fk by simp
  then obtain xs ys where xy: "load_bytes m src ?f = Some xs" "load_bytes m (src + of_nat ?f) ?k = Some ys"
    "bs = xs @ ys" using load_bytes_split by blast
  have r: "read_words m src (?f div 8) = Inr xs"
    using xy(1) fk(2) by (simp add: read_words_load)
  show ?thesis
  proof (cases "?k = 0")
    case True
    then show ?thesis using False r xy by (simp add: read_data_def f_def)
  next
    case nz: False
    obtain word where w: "peekdata m (src + of_nat ?f) = Some word" using acc[OF nz] peekdata_None by blast
    have "load_bytes m (src + of_nat ?f) (?k + (8 - ?k)) = Some (bytes_le 8 word)"
      using peekdata_bytes[OF w] by (simp add: less_imp_le)
    then obtain zs where "bytes_le 8 word = ys @ zs"
      using load_bytes_prefix[OF _ xy(2)] by blast
    then have "take ?k (bytes_le 8 word) = ys" using load_bytes_length[OF xy(2)] by simp
    then show ?thesis
      using False r xy w nz fk(2) by (simp add: read_data_def Let_def flip: f_def)
  qed
qed

lemma read_chunks_string:
  assumes "load_bytes m src (n + 1) = Some (bs @ [0])" "0 \<notin> set bs" "offset \<le> n" "n < max_size"
  shows "read_chunks vm m src max_size offset (take offset bs) = None \<or>
    read_chunks vm m src max_size offset (take offset bs) = Some (n + 1, bs @ [0])"
  using assms(3)
proof (induction "max_size - offset" arbitrary: offset rule: less_induct)
  case less
  let ?a = "src + of_nat offset"
  define c where "c = min (CHUNK_SIZE - unat ?a mod CHUNK_SIZE) (max_size - offset)"
  have lbs: "length bs = n" using load_bytes_length[OF assms(1)] by simp
  have c0: "0 < c" using less.prems assms(4) by (simp add: c_def CHUNK_SIZE_def)
  note unfold = read_chunks.simps[of vm m src max_size offset, folded c_def]
  have off: "load_bytes m ?a (n + 1 - offset) = Some (drop offset bs @ [0])"
  proof -
    have "load_bytes m src (offset + (n + 1 - offset)) = Some (bs @ [0])" using assms(1) less.prems by simp
    then obtain xs ys where xy: "load_bytes m src offset = Some xs"
      "load_bytes m ?a (n + 1 - offset) = Some ys" "bs @ [0] = xs @ ys"
      using load_bytes_split by blast
    then have "ys = drop offset (bs @ [0])" using load_bytes_length[OF xy(1)] by simp
    then show ?thesis using xy(2) less.prems lbs by simp
  qed
  show ?case
  proof (cases "load_bytes m ?a c")
    case None
    then show ?thesis using less.prems assms(4) by (simp add: unfold Let_def flip: c_def)
  next
    case (Some chunk)
    show ?thesis
    proof (cases "c \<le> n - offset")
      case True
      have "load_bytes m ?a (c + (n + 1 - offset - c)) = Some (drop offset bs @ [0])"
      proof -
        have "c + (n + 1 - offset - c) = n + 1 - offset" using True by simp
        then show ?thesis using off by (simp only:)
      qed
      then obtain ys where y: "drop offset bs @ [0] = chunk @ ys"
        using load_bytes_prefix[OF _ Some] by blast
      have lc: "length chunk = c" using load_bytes_length[OF Some] .
      have chunk: "chunk = take c (drop offset bs)"
        using arg_cong[OF y, of "take c"] lc True lbs by simp
      then have "0 \<notin> set chunk" using assms(2) by (auto dest: in_set_takeD in_set_dropD)
      then have "takeWhile (\<lambda>b. b \<noteq> 0) chunk = chunk" by (auto simp: takeWhile_eq_all_conv)
      then have "length (takeWhile (\<lambda>b. b \<noteq> 0) chunk) = c" using lc by (simp only:)
      moreover have "take offset bs @ chunk = take (offset + c) bs" using chunk by (simp add: take_add)
      moreover have "offset + c \<le> n" using True less.prems by simp
      ultimately show ?thesis
        using less.hyps[of "offset + c"] c0 less.prems assms(4) Some lc
        by (simp add: unfold Let_def flip: c_def)
    next
      case False
      have "load_bytes m ?a (n + 1 - offset + (c - (n + 1 - offset))) = Some chunk"
      proof -
        have "n + 1 - offset + (c - (n + 1 - offset)) = c" using False less.prems by simp
        then show ?thesis using Some by (simp only:)
      qed
      then obtain ys where y: "chunk = (drop offset bs @ [0]) @ ys"
        using load_bytes_prefix[OF _ off] by blast
      have nz: "\<forall>b\<in>set (drop offset bs). b \<noteq> 0" using assms(2) by (metis in_set_dropD)
      then have t: "takeWhile (\<lambda>b. b \<noteq> 0) chunk = drop offset bs" using y by (simp add: takeWhile_append2)
      have "take (n - offset + 1) chunk = drop offset bs @ [0]" using y lbs by simp
      then have "take offset bs @ take (n - offset + 1) chunk = bs @ [0]" by simp
      then show ?thesis
        using Some t lbs False less.prems assms(4)
        by (simp add: unfold Let_def flip: c_def)
    qed
  qed
qed

lemma read_string_words_string:
  assumes "load_bytes m src (n + 1) = Some (bs @ [0])" "0 \<notin> set bs" "accessible m src (words_touched (n + 1))"
    and "n < 8 * k + r" "r < 8"
  shows "\<exists>rest. read_string_words m src r k pre = Inr (length pre + n + 1, pre @ bs @ 0 # rest)"
  using assms(1-4)
proof (induction k arbitrary: src n bs pre)
  case 0
  have lbs: "length bs = n" using load_bytes_length[OF 0(1)] by simp
  have "words_touched (n + 1) = 8" using 0(4) assms(5) by (simp add: words_touched_def div_eq_dividend_iff) 
  then obtain word where w: "peekdata m src = Some word"
    using 0(3) peekdata_None[of m src] by (cases "peekdata m src") simp_all
  have "load_bytes m src (n + 1 + (7 - n)) = Some (bytes_le 8 word)"
    using peekdata_bytes[OF w] 0(4) assms(5) by simp
  then obtain ys where y: "bytes_le 8 word = (bs @ [0]) @ ys"
    using load_bytes_prefix[OF _ 0(1)] by blast
  have t: "take r (bytes_le 8 word) = bs @ 0 # take (r - n - 1) ys" using y lbs 0(4) by (simp add: take_Cons')
  have "\<forall>b\<in>set bs. b \<noteq> 0" using 0(2) by metis
  then have "takeWhile (\<lambda>b. b \<noteq> 0) (take r (bytes_le 8 word)) = bs" unfolding t by (simp add: takeWhile_append2)
  then show ?case using w lbs t by (simp add: Let_def)
next
  case (Suc k)
  have lbs: "length bs = n" using load_bytes_length[OF Suc.prems(1)] by simp
  have nz: "\<forall>b\<in>set bs. b \<noteq> 0" using Suc.prems(2) by metis
  have "8 \<le> words_touched (n + 1)" by (simp add: words_touched_def)
  then obtain word where w: "peekdata m src = Some word"
    using Suc.prems(3) peekdata_None[of m src] accessible_mono by (cases "peekdata m src") blast+
  note l8 = peekdata_bytes[OF w]
  show ?case
  proof (cases "n < 8")
    case True
    then have "load_bytes m src (n + 1 + (7 - n)) = Some (bytes_le 8 word)" using l8 by simp
    then obtain ys where y: "bytes_le 8 word = (bs @ [0]) @ ys"
      using load_bytes_prefix[OF _ Suc.prems(1)] by blast
    have "takeWhile (\<lambda>b. b \<noteq> 0) (bytes_le 8 word) = bs" unfolding y using nz by (simp add: takeWhile_append2)
    then show ?thesis using w lbs True y by (simp add: Let_def)
  next
    case False
    have "load_bytes m src (8 + (n - 8 + 1)) = Some (bs @ [0])" using Suc.prems(1) False by simp
    then obtain ys where y: "bs @ [0] = bytes_le 8 word @ ys" "load_bytes m (src + 8) (n - 8 + 1) = Some ys"
      using load_bytes_prefix[OF _ l8, of "n - 8 + 1"] by auto
    have ys: "bytes_le 8 word = take 8 bs" "ys = drop 8 bs @ [0]"
      using arg_cong[OF y(1), of "take 8"] arg_cong[OF y(1), of "drop 8"] lbs False by simp_all
    have "words_touched (n + 1) = 8 + words_touched (n - 8 + 1)"
      using False div_add_self1[of 8 n] by (simp add: words_touched_def)
    then have acc: "accessible m (src + 8) (words_touched (n - 8 + 1))"
      using Suc.prems(3) accessible_add[of m src 8] by simp
    have less: "n - 8 < 8 * k + r" using Suc.prems(4) False less_diff_conv2[of 8 n "8 * k + r"] by simp
    have "0 \<notin> set (drop 8 bs)" using Suc.prems(2) by (metis in_set_dropD)
    then obtain rest where
      "read_string_words m (src + 8) r k (pre @ take 8 bs) =
         Inr (length (pre @ take 8 bs) + (n - 8) + 1, (pre @ take 8 bs) @ drop 8 bs @ 0 # rest)"
      using Suc.IH[OF y(2)[unfolded ys(2)] _ acc less, of "pre @ take 8 bs"] by blast
    moreover have "takeWhile (\<lambda>b. b \<noteq> 0) (take 8 bs) = take 8 bs"
      using nz by (auto simp: takeWhile_eq_all_conv dest: in_set_takeD)
    then have "length (takeWhile (\<lambda>b. b \<noteq> 0) (take 8 bs)) = 8" using lbs False by (simp only:) simp
    moreover have "take 8 bs @ drop 8 bs @ 0 # rest = bs @ 0 # rest" by (metis append_assoc append_take_drop_id)
    ultimately show ?thesis
      using w ys(1) lbs False by (simp add: Let_def)
  qed
qed

lemma read_string_finds:
  assumes "load_bytes m src (n + 1) = Some (bs @ [0])" "0 \<notin> set bs" "n < max_size"
    and "accessible m src (words_touched (n + 1))"
  shows "\<exists>rest. read_string vm m src max_size = Inr (n + 1, bs @ 0 # rest)"
proof -
  have k: "n < 8 * ((max_size - max_size mod 8) div 8) + max_size mod 8"
    using words_touched_split(2)[of max_size] assms(3) by simp
  show ?thesis
    using read_chunks_string[OF assms(1,2), of 0 max_size] assms(3)
      read_string_words_string[OF assms(1,2,4) k, of "[]"]
    by (auto simp: read_string_def Let_def)
qed

end

end
