(* ===== verification/Xpointers.thy ===== *)
theory Xpointers
  imports Memory_Lemmas
begin

section \<open>Arrays of pointers of a tracee\<close>

text \<open>
  \<^verbatim>\<open>execve/aoxp.c\<close>: the arrays \<^verbatim>\<open>argv[]\<close> and \<^verbatim>\<open>envp[]\<close> of a tracee that calls \<^verbatim>\<open>execve(2)\<close>.  An entry
  is a pointer into the tracee's memory, or a string that the tracer holds; the strings of the
  tracer are copied below the stack when the array is pushed.  The callbacks are those for strings,
  the only ones the code installs, and a comparison that is an argument of \<open>find_xpointee\<close>.  The outer
  \<open>None\<close> of a result is a failed assertion.
\<close>

record xpointer =
  xp_remote :: word_t
  xp_local :: "string option"

type_synonym xarray = "xpointer list"

definition ARG_MAX_SIZE :: nat where "ARG_MAX_SIZE = 131072"

definition chars_of :: "8 word list \<Rightarrow> string" where
  "chars_of bs = map (\<lambda>b. char_of (unat b)) bs"

definition bytes_of :: "string \<Rightarrow> 8 word list" where
  "bytes_of s = map (\<lambda>c. of_nat (of_char c)) s"

subsection \<open>Entries\<close>

definition read_xpointee_as_string ::
  "process_vm \<Rightarrow> memory \<Rightarrow> xarray \<Rightarrow> nat \<Rightarrow> (string option result \<times> xarray) option" where
  "read_xpointee_as_string vm m array index =
     (if \<not> index < length array then None
      else
        (let x = array ! index in
         if xp_local x \<noteq> None then Some (Inr (xp_local x), array)
         else if xp_remote x = 0 then Some (Inr None, array)
         else
           (case read_string vm m (xp_remote x) ARG_MAX_SIZE of
              Inl e \<Rightarrow> Some (Inl e, array)
            | Inr (n, bytes) \<Rightarrow>
                (if n \<ge> ARG_MAX_SIZE then Some (Inl ENOMEM, array)
                 else
                   (let s = chars_of (takeWhile (\<lambda>b. b \<noteq> 0) bytes)
                    in Some (Inr (Some s), array[index := x\<lparr>xp_local := Some s\<rparr>]))))))"

text \<open>
  The variant for objects that are not strings; the number of bytes of one is a callback, and so an
  argument.
\<close>

definition read_xpointee_as_object ::
  "(xarray \<Rightarrow> nat \<Rightarrow> (nat result \<times> xarray) option) \<Rightarrow> process_vm \<Rightarrow> memory \<Rightarrow> xarray \<Rightarrow> nat \<Rightarrow>
     (string option result \<times> xarray) option" where
  "read_xpointee_as_object sizeof_xpointee vm m array index =
     (if \<not> index < length array then None
      else
        (let x = array ! index in
         if xp_local x \<noteq> None then Some (Inr (xp_local x), array)
         else if xp_remote x = 0 then Some (Inr None, array)
         else
           (case sizeof_xpointee array index of
              None \<Rightarrow> None
            | Some (Inl e, array) \<Rightarrow> Some (Inl e, array)
            | Some (Inr count, array) \<Rightarrow>
                (case read_data vm m (xp_remote (array ! index)) count of
                   Inl e \<Rightarrow> Some (Inl e, array[index := (array ! index)\<lparr>xp_local := None\<rparr>])
                 | Inr bytes \<Rightarrow>
                     Some (Inr (Some (chars_of bytes)),
                       array[index := (array ! index)\<lparr>xp_local := Some (chars_of bytes)\<rparr>])))))"

definition sizeof_xpointee_as_string ::
  "process_vm \<Rightarrow> memory \<Rightarrow> xarray \<Rightarrow> nat \<Rightarrow> (nat result \<times> xarray) option" where
  "sizeof_xpointee_as_string vm m array index =
     (case read_xpointee_as_string vm m array index of
        None \<Rightarrow> None
      | Some (Inl e, array) \<Rightarrow> Some (Inl e, array)
      | Some (Inr None, array) \<Rightarrow> Some (Inr 0, array)
      | Some (Inr (Some s), array) \<Rightarrow> Some (Inr (length s + 1), array))"

text \<open>\<open>memcmp\<close> looks at the bytes of the object with its NUL.\<close>

definition compare_xpointee_generic ::
  "process_vm \<Rightarrow> memory \<Rightarrow> string option \<Rightarrow> xarray \<Rightarrow> nat \<Rightarrow> (bool result \<times> xarray) option" where
  "compare_xpointee_generic vm m reference array index =
     (case read_xpointee_as_string vm m array index of
        None \<Rightarrow> None
      | Some (Inl e, array) \<Rightarrow> Some (Inl e, array)
      | Some (Inr object, array) \<Rightarrow>
          (case (object, reference) of
             (None, None) \<Rightarrow> Some (Inr True, array)
           | (None, Some _) \<Rightarrow> Some (Inr False, array)
           | (Some _, None) \<Rightarrow> Some (Inr False, array)
           | (Some s, Some r) \<Rightarrow>
               Some (Inr (s @ [NUL] = take (length s + 1) (r @ [NUL])), array)))"

text \<open>The loop over the \<open>n\<close> entries from \<open>i\<close> on; the answer is the length of the array when none matches.\<close>

fun find_xpointee_from ::
  "(xarray \<Rightarrow> nat \<Rightarrow> (bool result \<times> xarray) option) \<Rightarrow> xarray \<Rightarrow> nat \<Rightarrow> nat \<Rightarrow>
     (nat result \<times> xarray) option" where
  "find_xpointee_from compare array i 0 = Some (Inr i, array)"
| "find_xpointee_from compare array i (Suc n) =
     (case compare array i of
        None \<Rightarrow> None
      | Some (Inl e, array) \<Rightarrow> Some (Inl e, array)
      | Some (Inr True, array) \<Rightarrow> Some (Inr i, array)
      | Some (Inr False, array) \<Rightarrow> find_xpointee_from compare array (Suc i) n)"

definition find_xpointee ::
  "(xarray \<Rightarrow> nat \<Rightarrow> (bool result \<times> xarray) option) \<Rightarrow> xarray \<Rightarrow> (nat result \<times> xarray) option" where
  "find_xpointee compare array = find_xpointee_from compare array 0 (length array)"

definition write_xpointee_as_string :: "xarray \<Rightarrow> nat \<Rightarrow> string \<Rightarrow> xarray option" where
  "write_xpointee_as_string array index s =
     (if index < length array then Some (array[index := (array ! index)\<lparr>xp_local := Some s\<rparr>]) else None)"

fun write_xpointees :: "xarray \<Rightarrow> nat \<Rightarrow> string list \<Rightarrow> xarray option" where
  "write_xpointees array index [] = Some array"
| "write_xpointees array index (s # ss) =
     (case write_xpointee_as_string array index s of
        None \<Rightarrow> None
      | Some array \<Rightarrow> write_xpointees array (Suc index) ss)"

definition resize_array_of_xpointers :: "xarray \<Rightarrow> nat \<Rightarrow> int \<Rightarrow> xarray option" where
  "resize_array_of_xpointers array index delta =
     (if \<not> index < length array then None
      else if delta = 0 then Some array
      else if delta > 0 then
        Some (take index array @ replicate (nat delta) \<lparr>xp_remote = 0, xp_local = None\<rparr> @ drop index array)
      else if \<not> int index \<ge> - delta then None
      else Some (take (index - nat (- delta)) array @ drop index array))"

subsection \<open>Whole arrays\<close>

text \<open>\<open>nb_entries\<close> is 0 for the entries up to the null pointer; without one the loop has no end.\<close>

partial_function (option) fetch_until_null ::
  "process_vm \<Rightarrow> memory \<Rightarrow> tracee \<Rightarrow> word_t \<Rightarrow> nat \<Rightarrow> xarray \<Rightarrow> xarray result option" where
  "fetch_until_null vm m t address i array =
     (case peek_word vm m t (address + of_nat (i * sizeof_word t)) of
        None \<Rightarrow> Some (Inl EFAULT)
      | Some pointer \<Rightarrow>
          (let array = array @ [\<lparr>xp_remote = pointer, xp_local = None\<rparr>]
           in if pointer = 0 then Some (Inr array)
              else fetch_until_null vm m t address (Suc i) array))"

fun fetch_entries ::
  "process_vm \<Rightarrow> memory \<Rightarrow> tracee \<Rightarrow> word_t \<Rightarrow> nat \<Rightarrow> nat \<Rightarrow> xarray \<Rightarrow> xarray result" where
  "fetch_entries vm m t address i 0 array = Inr array"
| "fetch_entries vm m t address i (Suc n) array =
     (case peek_word vm m t (address + of_nat (i * sizeof_word t)) of
        None \<Rightarrow> Inl EFAULT
      | Some pointer \<Rightarrow>
          fetch_entries vm m t address (Suc i) n (array @ [\<lparr>xp_remote = pointer, xp_local = None\<rparr>]))"

definition fetch_array_of_xpointers ::
  "process_vm \<Rightarrow> memory \<Rightarrow> tracee \<Rightarrow> Reg \<Rightarrow> nat \<Rightarrow> xarray result option" where
  "fetch_array_of_xpointers vm m t reg nb_entries =
     (let address = peek_reg t CURRENT reg in
      if nb_entries \<noteq> 0 then Some (fetch_entries vm m t address 0 nb_entries [])
      else fetch_until_null vm m t address 0 [])"

text \<open>The first loop of the push: the strings get their offset in the block.\<close>

fun layout_strings :: "xarray \<Rightarrow> nat \<Rightarrow> xarray \<times> 8 word list list \<times> nat" where
  "layout_strings [] total_size = ([], [], total_size)"
| "layout_strings (x # xs) total_size =
     (case xp_local x of
        None \<Rightarrow>
          (case layout_strings xs total_size of (ys, local, size') \<Rightarrow> (x # ys, local, size'))
      | Some s \<Rightarrow>
          (case layout_strings xs (total_size + length s + 1) of
             (ys, local, size') \<Rightarrow>
               (x\<lparr>xp_remote := of_nat total_size\<rparr> # ys, (bytes_of s @ [0]) # local, size')))"

definition absolute_pointer :: "word_t \<Rightarrow> xpointer \<Rightarrow> xpointer" where
  "absolute_pointer tracee_ptr x =
     (if xp_local x \<noteq> None then x\<lparr>xp_remote := xp_remote x + tracee_ptr\<rparr> else x)"

definition pod_array :: "tracee \<Rightarrow> xarray \<Rightarrow> 8 word list" where
  "pod_array t array = concat (map (\<lambda>x. bytes_le (sizeof_word t) (xp_remote x)) array)"

definition push_array_of_xpointers ::
  "process_vm \<Rightarrow> memory \<Rightarrow> tracee \<Rightarrow> xarray \<Rightarrow> Reg \<Rightarrow> (errno option \<times> tracee \<times> memory) option" where
  "push_array_of_xpointers vm m t array reg =
     (case layout_strings array (length array * sizeof_word t) of
        (array, local, total_size) \<Rightarrow>
          (if local = [] then Some (None, t, m)
           else if \<not> length local < length array then None
           else
             (case alloc_mem t (int total_size) of
                None \<Rightarrow> None
              | Some (tracee_ptr, t) \<Rightarrow>
                  (if tracee_ptr = 0 then Some (Some E2BIG, t, m)
                   else
                     (let array = map (absolute_pointer tracee_ptr) array
                      in case writev_data vm m tracee_ptr (pod_array t array # local) of
                           (Some e, m) \<Rightarrow> Some (Some e, t, m)
                         | (None, m) \<Rightarrow> Some (None, poke_reg t reg tracee_ptr, m))))))"

end
