(* ===== verification/Xpointer_Lemmas.thy ===== *)
theory Xpointer_Lemmas
  imports Xpointers
begin

section \<open>The memory image of an array of pointers\<close>

subsection \<open>A write that succeeds has stored its bytes\<close>

lemma pokedata_stored:
  "pokedata m a (word_le bs) = Some m' \<Longrightarrow> length bs = 8 \<Longrightarrow> m' = store_bytes m a bs"
  by (simp add: pokedata_def bytes_le_word_le split: if_splits)

lemma write_words_stored:
  "write_words m dest src n = (None, m') \<Longrightarrow> 8 * n \<le> length src \<Longrightarrow>
   m' = store_bytes m dest (take (8 * n) src)"
proof (induction n arbitrary: m dest src)
  case (Suc n)
  obtain m1 where m1: "pokedata m dest (word_le (take 8 src)) = Some m1"
    "write_words m1 (dest + 8) (drop 8 src) n = (None, m')"
    using Suc.prems(1) by (auto split: option.splits)
  have "take (8 * Suc n) src = take 8 src @ take (8 * n) (drop 8 src)"
    using take_add[of 8 "8 * n" src] by (simp add: add.commute)
  then show ?case
    using Suc.IH[OF m1(2)] pokedata_stored[OF m1(1)] Suc.prems(2) by (simp add: store_bytes_append)
qed simp

lemma write_last_word_stored:
  "write_last_word m dest src = (None, m') \<Longrightarrow> length src < 8 \<Longrightarrow> m' = store_bytes m dest src"
  using write_last_word_store[of m dest src] peekdata_None[of m dest]
  by (auto simp: write_last_word_def split: option.splits)

lemma write_data_stored:
  assumes "write_data vm m dest src = (None, m')"
  shows "m' = store_bytes m dest src"
proof (cases "vm_writev vm m dest (length src)")
  case False
  define f where "f = length src - length src mod 8"
  have f: "8 * (f div 8) = f" "f \<le> length src" "length src - f = length src mod 8"
    using words_touched_split(2)[of "length src"] by (simp_all add: f_def)
  have w: "write_data vm m dest src =
      (case write_words m dest src (f div 8) of
         (Some e, m) \<Rightarrow> (Some e, m)
       | (None, m) \<Rightarrow>
           (if length src mod 8 = 0 then (None, m)
            else write_last_word m (dest + of_nat (8 * (f div 8))) (drop (8 * (f div 8)) src)))"
    unfolding f_def using False by (simp add: write_data_def Let_def)
  obtain m1 where m1: "write_words m dest src (f div 8) = (None, m1)"
    "(if length src mod 8 = 0 then (None, m1)
      else write_last_word m1 (dest + of_nat f) (drop f src)) = (None, m')"
    using assms unfolding w f(1) by (auto split: prod.splits option.splits)
  have s: "m1 = store_bytes m dest (take f src)" using write_words_stored[OF m1(1)] f(1,2) by simp
  have l: "length src mod 8 < 8" by simp
  show ?thesis
  proof (cases "length src mod 8 = 0")
    case True
    then show ?thesis using s m1(2) f(3) by simp
  next
    case nz: False
    then have "m' = store_bytes m1 (dest + of_nat f) (drop f src)"
      using m1(2) write_last_word_stored f(3) l by simp
    then show ?thesis
      using store_bytes_append[of m dest "take f src" "drop f src"] f(2) s by simp
  qed
qed (use assms in \<open>simp add: write_data_def\<close>)

lemma write_each_stored:
  "write_each vm m dest srcs = (None, m') \<Longrightarrow> m' = store_bytes m dest (concat srcs)"
proof (induction srcs arbitrary: m dest)
  case (Cons src srcs)
  obtain m1 where m1: "write_data vm m dest src = (None, m1)"
    "write_each vm m1 (dest + of_nat (length src)) srcs = (None, m')"
    using Cons.prems by (auto split: prod.splits option.splits)
  then show ?case
    using Cons.IH[OF m1(2)] write_data_stored[OF m1(1)] by (simp add: store_bytes_append)
qed simp

lemma writev_data_stored:
  "writev_data vm m dest srcs = (None, m') \<Longrightarrow> m' = store_bytes m dest (concat srcs)"
  using write_each_stored by (auto simp: writev_data_def split: if_splits)

lemma load_store_slice:
  assumes "length bs \<le> 2 ^ 64" "k + n \<le> length bs"
  shows "load_bytes (store_bytes m a bs) (a + of_nat k) n = Some (take n (drop k bs))"
proof -
  have "load_bytes (store_bytes m a bs) a (k + (n + (length bs - k - n))) = Some bs"
    using load_store_bytes[OF assms(1)] assms(2) by simp
  then obtain xs ys where 1: "load_bytes (store_bytes m a bs) a k = Some xs" "bs = xs @ ys"
    "load_bytes (store_bytes m a bs) (a + of_nat k) (n + (length bs - k - n)) = Some ys"
    using load_bytes_split by blast
  from 1(3) obtain us vs where 2: "load_bytes (store_bytes m a bs) (a + of_nat k) n = Some us" "ys = us @ vs"
    using load_bytes_split by blast
  have "take n (drop k bs) = us"
    using 1(2) 2(2) load_bytes_length[OF 1(1)] load_bytes_length[OF 2(1)] by simp
  then show ?thesis using 2(1) by simp
qed

subsection \<open>The layout\<close>

lemma length_bytes_of [simp]: "length (bytes_of s) = length s"
  by (simp add: bytes_of_def)

text \<open>What \<open>layout_strings\<close> says of an entry: where in the block its string is.\<close>

definition entry_placed :: "8 word list \<Rightarrow> nat \<Rightarrow> xpointer \<Rightarrow> xpointer \<Rightarrow> bool" where
  "entry_placed block start x y =
     (case xp_local x of
        None \<Rightarrow> y = x
      | Some s \<Rightarrow>
          \<exists>k. y = x\<lparr>xp_remote := of_nat (start + k)\<rparr> \<and> k + length s + 1 \<le> length block \<and>
            take (length s + 1) (drop k block) = bytes_of s @ [0])"

lemma entry_placed_shift:
  assumes "entry_placed block (start + length front) x y"
  shows "entry_placed (front @ block) start x y"
proof (cases "xp_local x")
  case (Some s)
  then obtain k where "y = x\<lparr>xp_remote := of_nat (start + length front + k)\<rparr>"
    "k + length s + 1 \<le> length block" "take (length s + 1) (drop k block) = bytes_of s @ [0]"
    using assms by (auto simp: entry_placed_def)
  then show ?thesis using Some
    by (auto simp: entry_placed_def add.assoc intro!: exI[of _ "length front + k"])
qed (use assms in \<open>simp add: entry_placed_def\<close>)

lemma layout_strings_placed:
  "layout_strings array start = (ys, local, total_size) \<Longrightarrow>
   total_size = start + length (concat local) \<and> list_all2 (entry_placed (concat local) start) array ys \<and>
   (local = [] \<longleftrightarrow> (\<forall>x\<in>set array. xp_local x = None))"
proof (induction array arbitrary: start ys local)
  case (Cons x xs)
  show ?case
  proof (cases "xp_local x")
    case None
    obtain zs where z: "layout_strings xs start = (zs, local, total_size)" "ys = x # zs"
      using Cons.prems None by (auto split: prod.splits)
    then show ?thesis using Cons.IH[OF z(1)] None by (auto simp: entry_placed_def)
  next
    case (Some s)
    let ?b = "bytes_of s @ [0]"
    obtain zs rest where z: "layout_strings xs (start + length s + 1) = (zs, rest, total_size)"
      "ys = x\<lparr>xp_remote := of_nat start\<rparr> # zs" "local = ?b # rest"
      using Cons.prems Some by (auto split: prod.splits)
    note ih = Cons.IH[OF z(1)]
    have "entry_placed (?b @ concat rest) start x (x\<lparr>xp_remote := of_nat start\<rparr>)"
      using Some by (auto simp: entry_placed_def intro!: exI[of _ 0])
    moreover have "list_all2 (entry_placed (?b @ concat rest) start) xs zs"
      by (rule list_all2_mono[OF conjunct1[OF conjunct2[OF ih]]])
        (use entry_placed_shift[of "concat rest" start ?b] in \<open>simp add: add.assoc\<close>)
    ultimately show ?thesis using ih z(2,3) Some by simp
  qed
qed simp

lemma length_pod_array [simp]: "length (pod_array t array) = length array * sizeof_word t"
  by (induction array) (simp_all add: pod_array_def)

lemma pod_array_nth:
  assumes "i < length array"
  shows "take (sizeof_word t) (drop (i * sizeof_word t) (pod_array t array)) =
    bytes_le (sizeof_word t) (xp_remote (array ! i))"
proof -
  have "pod_array t array =
      pod_array t (take i array) @ bytes_le (sizeof_word t) (xp_remote (array ! i)) @
      pod_array t (drop (Suc i) array)"
    unfolding pod_array_def using id_take_nth_drop[OF assms]
    by (metis append.assoc concat.simps(2) concat_append list.map(2) map_append append_Cons)
  moreover have "length (pod_array t (take i array)) = i * sizeof_word t"
    using assms by (simp add: min_absorb2)
  ultimately show ?thesis by (metis append_eq_conv_conj append_take_drop_id length_bytes_le)
qed

end
