(* ===== verification/Memory_Properties.thy ===== *)
theory Memory_Properties
  imports Memory_Lemmas
begin

section \<open>Properties of the transfers\<close>

text \<open>
  Two instances of the kernel: one whose \<^verbatim>\<open>process_vm_readv(2)\<close> transfers every accessible range, and
  one that always refuses, so that every transfer falls back to \<^verbatim>\<open>ptrace(2)\<close>.
\<close>

definition open_vm :: process_vm where
  "open_vm = \<lparr>vm_readv = accessible, vm_writev = accessible\<rparr>"

definition closed_vm :: process_vm where
  "closed_vm = \<lparr>vm_readv = (\<lambda>m a n. False), vm_writev = (\<lambda>m a n. False)\<rparr>"

interpretation open_vm: process_vm_laws open_vm
  by unfold_locales (simp add: open_vm_def)

interpretation closed_vm: process_vm_laws closed_vm
  by unfold_locales (simp add: closed_vm_def)

text \<open>A memory of sixteen bytes that hold their own address.\<close>

definition small_memory :: memory where
  "small_memory a = (if a < 16 then Some (ucast a) else None)"

text \<open>
  C9: when the words that a range touches are accessible, \<open>write_data\<close> stores exactly the bytes it is
  given, whether the kernel transfers them at once or the code writes them word by word and mends the
  last word; \<open>read_data\<close> then gives the same bytes back, and no other byte of the memory has changed.
\<close>

theorem write_data_exact:
  assumes "process_vm_laws vm" "accessible m dest (words_touched (length src))" "length src < 2 ^ 63"
  shows "\<exists>m'. write_data vm m dest src = (None, m') \<and> read_data vm m' dest (length src) = Inr src \<and>
    (\<forall>a. (\<forall>i<length src. a \<noteq> dest + of_nat i) \<longrightarrow> m' a = m a)"
proof -
  let ?m = "store_bytes m dest src"
  have "load_bytes ?m dest (length src) = Some src" by (rule load_store_bytes) (use assms(3) in simp)
  then have "read_data vm ?m dest (length src) = Inr src"
    using process_vm_laws.read_data_load[OF assms(1)] accessible_store[OF assms(2)] by blast
  moreover have "write_data vm m dest src = (None, ?m)" using write_data_store assms(2) by blast
  moreover have "\<forall>a. (\<forall>i<length src. a \<noteq> dest + of_nat i) \<longrightarrow> ?m a = m a"
    by (simp add: store_bytes_other)
  ultimately show ?thesis by (intro exI[of _ ?m] conjI) assumption+
qed

theorem write_data_exact_witness:
  "\<exists>m'. write_data closed_vm small_memory 2 [7, 7, 7] = (None, m') \<and>
    read_data closed_vm m' 2 3 = Inr [7, 7, 7] \<and> m' 5 = Some 5"
proof -
  have a: "accessible small_memory 2 (words_touched (length [7, 7, 7 :: 8 word]))" by code_simp
  obtain m' where m: "write_data closed_vm small_memory 2 [7, 7, 7] = (None, m')"
      "read_data closed_vm m' 2 (length [7, 7, 7 :: 8 word]) = Inr [7, 7, 7]"
      "\<forall>a. (\<forall>i<length [7, 7, 7 :: 8 word]. a \<noteq> 2 + of_nat i) \<longrightarrow> m' a = small_memory a"
    using write_data_exact[OF closed_vm.process_vm_laws_axioms a] by auto
  have "\<forall>i<length [7, 7, 7 :: 8 word]. (5 :: word_t) \<noteq> 2 + of_nat i"
    by (simp add: numeral_3_eq_3 All_less_Suc)
  then have "m' 5 = small_memory 5" using m(3) by blast
  then show ?thesis using m(1,2) by (auto simp: small_memory_def numeral_3_eq_3)
qed

text \<open>
  C10: \<open>read_string\<close> finds the end of a string that is shorter than the buffer: it returns the length
  with the NUL and the buffer starts with the string and its NUL, whichever way the bytes were read.
\<close>

theorem read_string_exact:
  assumes "process_vm_laws vm" "load_bytes m src (n + 1) = Some (bs @ [0])" "0 \<notin> set bs" "n < max_size"
    and "accessible m src (words_touched (n + 1))"
  shows "\<exists>rest. read_string vm m src max_size = Inr (n + 1, bs @ 0 # rest)"
  by (rule process_vm_laws.read_string_finds[OF assms])

theorem read_string_exact_witness:
  "\<exists>rest. read_string closed_vm (small_memory(5 := Some 0)) 2 9 = Inr (4, [2, 3, 4] @ 0 # rest)"
proof -
  have "load_bytes (small_memory(5 := Some 0)) 2 4 = Some ([2, 3, 4] @ [0])"
    "accessible (small_memory(5 := Some 0)) 2 (words_touched (3 + 1))" by code_simp+
  then show ?thesis
    using read_string_exact[OF closed_vm.process_vm_laws_axioms, of "small_memory(5 := Some 0)" 2 3 "[2, 3, 4]" 9]
    by simp
qed

end
