(* ===== verification/Sysnums.thy ===== *)
theory Sysnums
  imports Tracee_Regs
begin

section \<open>System call numbers\<close>

text \<open>
  \<^verbatim>\<open>syscall/sysnum.c\<close> and the tables of the three ABIs of x86\_64: the translation between the
  numbers of the kernel and the neutral numbers.  A hole of a table, which a designated
  initialiser leaves at 0, is \<open>PR_void\<close>.
\<close>

abbreviation PR_void :: Sysnum where "PR_void \<equiv> ''void''"

definition SYSCALL_AVOIDER :: word_t where "SYSCALL_AVOIDER = - 2"

definition sysnums_x86_64 :: "Sysnum list" where
  "sysnums_x86_64 =
     [''read'', ''write'', ''open'', ''close'', ''stat'', ''fstat'', ''lstat'', ''poll'',
      ''lseek'', ''mmap'', ''mprotect'', ''munmap'', ''brk'', ''rt_sigaction'',
      ''rt_sigprocmask'', ''rt_sigreturn'', ''ioctl'', ''pread64'', ''pwrite64'', ''readv'',
      ''writev'', ''access'', ''pipe'', ''select'', ''sched_yield'', ''mremap'', ''msync'',
      ''mincore'', ''madvise'', ''shmget'', ''shmat'', ''shmctl'', ''dup'', ''dup2'', ''pause'',
      ''nanosleep'', ''getitimer'', ''alarm'', ''setitimer'', ''getpid'', ''sendfile'',
      ''socket'', ''connect'', ''accept'', ''sendto'', ''recvfrom'', ''sendmsg'', ''recvmsg'',
      ''shutdown'', ''bind'', ''listen'', ''getsockname'', ''getpeername'', ''socketpair'',
      ''setsockopt'', ''getsockopt'', ''clone'', ''fork'', ''vfork'', ''execve'', ''exit'',
      ''wait4'', ''kill'', ''uname'', ''semget'', ''semop'', ''semctl'', ''shmdt'', ''msgget'',
      ''msgsnd'', ''msgrcv'', ''msgctl'', ''fcntl'', ''flock'', ''fsync'', ''fdatasync'',
      ''truncate'', ''ftruncate'', ''getdents'', ''getcwd'', ''chdir'', ''fchdir'', ''rename'',
      ''mkdir'', ''rmdir'', ''creat'', ''link'', ''unlink'', ''symlink'', ''readlink'',
      ''chmod'', ''fchmod'', ''chown'', ''fchown'', ''lchown'', ''umask'', ''gettimeofday'',
      ''getrlimit'', ''getrusage'', ''sysinfo'', ''times'', ''ptrace'', ''getuid'', ''syslog'',
      ''getgid'', ''setuid'', ''setgid'', ''geteuid'', ''getegid'', ''setpgid'', ''getppid'',
      ''getpgrp'', ''setsid'', ''setreuid'', ''setregid'', ''getgroups'', ''setgroups'',
      ''setresuid'', ''getresuid'', ''setresgid'', ''getresgid'', ''getpgid'', ''setfsuid'',
      ''setfsgid'', ''getsid'', ''capget'', ''capset'', ''rt_sigpending'', ''rt_sigtimedwait'',
      ''rt_sigqueueinfo'', ''rt_sigsuspend'', ''sigaltstack'', ''utime'', ''mknod'', ''uselib'',
      ''personality'', ''ustat'', ''statfs'', ''fstatfs'', ''sysfs'', ''getpriority'',
      ''setpriority'', ''sched_setparam'', ''sched_getparam'', ''sched_setscheduler'',
      ''sched_getscheduler'', ''sched_get_priority_max'', ''sched_get_priority_min'',
      ''sched_rr_get_interval'', ''mlock'', ''munlock'', ''mlockall'', ''munlockall'',
      ''vhangup'', ''modify_ldt'', ''pivot_root'', ''_sysctl'', ''prctl'', ''arch_prctl'',
      ''adjtimex'', ''setrlimit'', ''chroot'', ''sync'', ''acct'', ''settimeofday'', ''mount'',
      ''umount2'', ''swapon'', ''swapoff'', ''reboot'', ''sethostname'', ''setdomainname'',
      ''iopl'', ''ioperm'', ''create_module'', ''init_module'', ''delete_module'',
      ''get_kernel_syms'', ''query_module'', ''quotactl'', ''nfsservctl'', ''getpmsg'',
      ''putpmsg'', ''afs_syscall'', ''tuxcall'', ''security'', ''gettid'', ''readahead'',
      ''setxattr'', ''lsetxattr'', ''fsetxattr'', ''getxattr'', ''lgetxattr'', ''fgetxattr'',
      ''listxattr'', ''llistxattr'', ''flistxattr'', ''removexattr'', ''lremovexattr'',
      ''fremovexattr'', ''tkill'', ''time'', ''futex'', ''sched_setaffinity'',
      ''sched_getaffinity'', ''set_thread_area'', ''io_setup'', ''io_destroy'', ''io_getevents'',
      ''io_submit'', ''io_cancel'', ''get_thread_area'', ''lookup_dcookie'', ''epoll_create'',
      ''epoll_ctl_old'', ''epoll_wait_old'', ''remap_file_pages'', ''getdents64'',
      ''set_tid_address'', ''restart_syscall'', ''semtimedop'', ''fadvise64'', ''timer_create'',
      ''timer_settime'', ''timer_gettime'', ''timer_getoverrun'', ''timer_delete'',
      ''clock_settime'', ''clock_gettime'', ''clock_getres'', ''clock_nanosleep'',
      ''exit_group'', ''epoll_wait'', ''epoll_ctl'', ''tgkill'', ''utimes'', ''vserver'',
      ''mbind'', ''set_mempolicy'', ''get_mempolicy'', ''mq_open'', ''mq_unlink'',
      ''mq_timedsend'', ''mq_timedreceive'', ''mq_notify'', ''mq_getsetattr'', ''kexec_load'',
      ''waitid'', ''add_key'', ''request_key'', ''keyctl'', ''ioprio_set'', ''ioprio_get'',
      ''inotify_init'', ''inotify_add_watch'', ''inotify_rm_watch'', ''migrate_pages'',
      ''openat'', ''mkdirat'', ''mknodat'', ''fchownat'', ''futimesat'', ''newfstatat'',
      ''unlinkat'', ''renameat'', ''linkat'', ''symlinkat'', ''readlinkat'', ''fchmodat'',
      ''faccessat'', ''pselect6'', ''ppoll'', ''unshare'', ''set_robust_list'',
      ''get_robust_list'', ''splice'', ''tee'', ''sync_file_range'', ''vmsplice'',
      ''move_pages'', ''utimensat'', ''epoll_pwait'', ''signalfd'', ''timerfd_create'',
      ''eventfd'', ''fallocate'', ''timerfd_settime'', ''timerfd_gettime'', ''accept4'',
      ''signalfd4'', ''eventfd2'', ''epoll_create1'', ''dup3'', ''pipe2'', ''inotify_init1'',
      ''preadv'', ''pwritev'', ''rt_tgsigqueueinfo'', ''perf_event_open'', ''recvmmsg'',
      ''fanotify_init'', ''fanotify_mark'', ''prlimit64'', ''name_to_handle_at'',
      ''open_by_handle_at'', ''clock_adjtime'', ''syncfs'', ''sendmmsg'', ''setns'', ''getcpu'',
      ''process_vm_readv'', ''process_vm_writev'', ''kcmp'', ''finit_module'', ''sched_setattr'',
      ''sched_getattr'', ''renameat2'', ''seccomp'', ''getrandom'', ''memfd_create'',
      ''kexec_file_load'', ''bpf'', ''execveat'', ''userfaultfd'', ''membarrier'', ''mlock2'',
      ''copy_file_range'', ''preadv2'', ''pwritev2'', ''pkey_mprotect'', ''pkey_alloc'',
      ''pkey_free'', ''statx''] @
     replicate 102 PR_void @
     [''clone3'', PR_void, ''openat2'', PR_void, ''faccessat2'']"

definition sysnums_i386 :: "Sysnum list" where
  "sysnums_i386 =
     [''restart_syscall'', ''exit'', ''fork'', ''read'', ''write'', ''open'', ''close'',
      ''waitpid'', ''creat'', ''link'', ''unlink'', ''execve'', ''chdir'', ''time'', ''mknod'',
      ''chmod'', ''lchown'', ''break'', ''oldstat'', ''lseek'', ''getpid'', ''mount'',
      ''umount'', ''setuid'', ''getuid'', ''stime'', ''ptrace'', ''alarm'', ''oldfstat'',
      ''pause'', ''utime'', ''stty'', ''gtty'', ''access'', ''nice'', ''ftime'', ''sync'',
      ''kill'', ''rename'', ''mkdir'', ''rmdir'', ''dup'', ''pipe'', ''times'', ''prof'',
      ''brk'', ''setgid'', ''getgid'', ''signal'', ''geteuid'', ''getegid'', ''acct'',
      ''umount2'', ''lock'', ''ioctl'', ''fcntl'', ''mpx'', ''setpgid'', ''ulimit'',
      ''oldolduname'', ''umask'', ''chroot'', ''ustat'', ''dup2'', ''getppid'', ''getpgrp'',
      ''setsid'', ''sigaction'', ''sgetmask'', ''ssetmask'', ''setreuid'', ''setregid'',
      ''sigsuspend'', ''sigpending'', ''sethostname'', ''setrlimit'', ''getrlimit'',
      ''getrusage'', ''gettimeofday'', ''settimeofday'', ''getgroups'', ''setgroups'',
      ''select'', ''symlink'', ''oldlstat'', ''readlink'', ''uselib'', ''swapon'', ''reboot'',
      ''readdir'', ''mmap'', ''munmap'', ''truncate'', ''ftruncate'', ''fchmod'', ''fchown'',
      ''getpriority'', ''setpriority'', ''profil'', ''statfs'', ''fstatfs'', ''ioperm'',
      ''socketcall'', ''syslog'', ''setitimer'', ''getitimer'', ''stat'', ''lstat'', ''fstat'',
      ''olduname'', ''iopl'', ''vhangup'', ''idle'', ''vm86old'', ''wait4'', ''swapoff'',
      ''sysinfo'', ''ipc'', ''fsync'', ''sigreturn'', ''clone'', ''setdomainname'', ''uname'',
      ''modify_ldt'', ''adjtimex'', ''mprotect'', ''sigprocmask'', ''create_module'',
      ''init_module'', ''delete_module'', ''get_kernel_syms'', ''quotactl'', ''getpgid'',
      ''fchdir'', ''bdflush'', ''sysfs'', ''personality'', ''afs_syscall'', ''setfsuid'',
      ''setfsgid'', ''_llseek'', ''getdents'', ''_newselect'', ''flock'', ''msync'', ''readv'',
      ''writev'', ''getsid'', ''fdatasync'', ''_sysctl'', ''mlock'', ''munlock'', ''mlockall'',
      ''munlockall'', ''sched_setparam'', ''sched_getparam'', ''sched_setscheduler'',
      ''sched_getscheduler'', ''sched_yield'', ''sched_get_priority_max'',
      ''sched_get_priority_min'', ''sched_rr_get_interval'', ''nanosleep'', ''mremap'',
      ''setresuid'', ''getresuid'', ''vm86'', ''query_module'', ''poll'', ''nfsservctl'',
      ''setresgid'', ''getresgid'', ''prctl'', ''rt_sigreturn'', ''rt_sigaction'',
      ''rt_sigprocmask'', ''rt_sigpending'', ''rt_sigtimedwait'', ''rt_sigqueueinfo'',
      ''rt_sigsuspend'', ''pread64'', ''pwrite64'', ''chown'', ''getcwd'', ''capget'',
      ''capset'', ''sigaltstack'', ''sendfile'', ''getpmsg'', ''putpmsg'', ''vfork'',
      ''ugetrlimit'', ''mmap2'', ''truncate64'', ''ftruncate64'', ''stat64'', ''lstat64'',
      ''fstat64'', ''lchown32'', ''getuid32'', ''getgid32'', ''geteuid32'', ''getegid32'',
      ''setreuid32'', ''setregid32'', ''getgroups32'', ''setgroups32'', ''fchown32'',
      ''setresuid32'', ''getresuid32'', ''setresgid32'', ''getresgid32'', ''chown32'',
      ''setuid32'', ''setgid32'', ''setfsuid32'', ''setfsgid32'', ''pivot_root'', ''mincore'',
      ''madvise'', ''getdents64'', ''fcntl64'', PR_void, PR_void, ''gettid'', ''readahead'',
      ''setxattr'', ''lsetxattr'', ''fsetxattr'', ''getxattr'', ''lgetxattr'', ''fgetxattr'',
      ''listxattr'', ''llistxattr'', ''flistxattr'', ''removexattr'', ''lremovexattr'',
      ''fremovexattr'', ''tkill'', ''sendfile64'', ''futex'', ''sched_setaffinity'',
      ''sched_getaffinity'', ''set_thread_area'', ''get_thread_area'', ''io_setup'',
      ''io_destroy'', ''io_getevents'', ''io_submit'', ''io_cancel'', ''fadvise64'', PR_void,
      ''exit_group'', ''lookup_dcookie'', ''epoll_create'', ''epoll_ctl'', ''epoll_wait'',
      ''remap_file_pages'', ''set_tid_address'', ''timer_create'', ''timer_settime'',
      ''timer_gettime'', ''timer_getoverrun'', ''timer_delete'', ''clock_settime'',
      ''clock_gettime'', ''clock_getres'', ''clock_nanosleep'', ''statfs64'', ''fstatfs64'',
      ''tgkill'', ''utimes'', ''fadvise64_64'', ''vserver'', ''mbind'', ''get_mempolicy'',
      ''set_mempolicy'', ''mq_open'', ''mq_unlink'', ''mq_timedsend'', ''mq_timedreceive'',
      ''mq_notify'', ''mq_getsetattr'', ''kexec_load'', ''waitid'', PR_void, ''add_key'',
      ''request_key'', ''keyctl'', ''ioprio_set'', ''ioprio_get'', ''inotify_init'',
      ''inotify_add_watch'', ''inotify_rm_watch'', ''migrate_pages'', ''openat'', ''mkdirat'',
      ''mknodat'', ''fchownat'', ''futimesat'', ''fstatat64'', ''unlinkat'', ''renameat'',
      ''linkat'', ''symlinkat'', ''readlinkat'', ''fchmodat'', ''faccessat'', ''pselect6'',
      ''ppoll'', ''unshare'', ''set_robust_list'', ''get_robust_list'', ''splice'',
      ''sync_file_range'', ''tee'', ''vmsplice'', ''move_pages'', ''getcpu'', ''epoll_pwait'',
      ''utimensat'', ''signalfd'', ''timerfd_create'', ''eventfd'', ''fallocate'',
      ''timerfd_settime'', ''timerfd_gettime'', ''signalfd4'', ''eventfd2'', ''epoll_create1'',
      ''dup3'', ''pipe2'', ''inotify_init1'', ''preadv'', ''pwritev'', ''rt_tgsigqueueinfo'',
      ''perf_event_open'', ''recvmmsg'', ''fanotify_init'', ''fanotify_mark'', ''prlimit64'',
      ''name_to_handle_at'', ''open_by_handle_at'', ''clock_adjtime'', ''syncfs'', ''sendmmsg'',
      ''setns'', ''process_vm_readv'', ''process_vm_writev'', ''kcmp'', ''finit_module'',
      ''sched_setattr'', ''sched_getattr'', ''renameat2'', ''seccomp'', ''getrandom'',
      ''memfd_create'', ''bpf'', ''execveat'', ''socket'', ''socketpair'', ''bind'', ''connect'',
      ''listen'', ''accept4'', ''getsockopt'', ''setsockopt'', ''getsockname'', ''getpeername'',
      ''sendto'', ''sendmsg'', ''recvfrom'', ''recvmsg'', ''shutdown'', ''userfaultfd'',
      ''membarrier'', ''mlock2'', ''copy_file_range'', ''preadv2'', ''pwritev2'',
      ''pkey_mprotect'', ''pkey_alloc'', ''pkey_free'', ''statx''] @
     replicate 51 PR_void @
     [''clone3'', PR_void, ''openat2'', PR_void, ''faccessat2'']"

definition sysnums_x32 :: "Sysnum list" where
  "sysnums_x32 =
     [''read'', ''write'', ''open'', ''close'', ''stat'', ''fstat'', ''lstat'', ''poll'',
      ''lseek'', ''mmap'', ''mprotect'', ''munmap'', ''brk'', PR_void, ''rt_sigprocmask'',
      PR_void, PR_void, ''pread64'', ''pwrite64'', PR_void, PR_void, ''access'', ''pipe'',
      ''select'', ''sched_yield'', ''mremap'', ''msync'', ''mincore'', ''madvise'', ''shmget'',
      ''shmat'', ''shmctl'', ''dup'', ''dup2'', ''pause'', ''nanosleep'', ''getitimer'',
      ''alarm'', ''setitimer'', ''getpid'', ''sendfile'', ''socket'', ''connect'', ''accept'',
      ''sendto'', PR_void, PR_void, PR_void, ''shutdown'', ''bind'', ''listen'', ''getsockname'',
      ''getpeername'', ''socketpair'', PR_void, PR_void, ''clone'', ''fork'', ''vfork'', PR_void,
      ''exit'', ''wait4'', ''kill'', ''uname'', ''semget'', ''semop'', ''semctl'', ''shmdt'',
      ''msgget'', ''msgsnd'', ''msgrcv'', ''msgctl'', ''fcntl'', ''flock'', ''fsync'',
      ''fdatasync'', ''truncate'', ''ftruncate'', ''getdents'', ''getcwd'', ''chdir'',
      ''fchdir'', ''rename'', ''mkdir'', ''rmdir'', ''creat'', ''link'', ''unlink'', ''symlink'',
      ''readlink'', ''chmod'', ''fchmod'', ''chown'', ''fchown'', ''lchown'', ''umask'',
      ''gettimeofday'', ''getrlimit'', ''getrusage'', ''sysinfo'', ''times'', PR_void,
      ''getuid'', ''syslog'', ''getgid'', ''setuid'', ''setgid'', ''geteuid'', ''getegid'',
      ''setpgid'', ''getppid'', ''getpgrp'', ''setsid'', ''setreuid'', ''setregid'',
      ''getgroups'', ''setgroups'', ''setresuid'', ''getresuid'', ''setresgid'', ''getresgid'',
      ''getpgid'', ''setfsuid'', ''setfsgid'', ''getsid'', ''capget'', ''capset'', PR_void,
      PR_void, PR_void, ''rt_sigsuspend'', PR_void, ''utime'', ''mknod'', PR_void,
      ''personality'', ''ustat'', ''statfs'', ''fstatfs'', ''sysfs'', ''getpriority'',
      ''setpriority'', ''sched_setparam'', ''sched_getparam'', ''sched_setscheduler'',
      ''sched_getscheduler'', ''sched_get_priority_max'', ''sched_get_priority_min'',
      ''sched_rr_get_interval'', ''mlock'', ''munlock'', ''mlockall'', ''munlockall'',
      ''vhangup'', ''modify_ldt'', ''pivot_root'', PR_void, ''prctl'', ''arch_prctl'',
      ''adjtimex'', ''setrlimit'', ''chroot'', ''sync'', ''acct'', ''settimeofday'', ''mount'',
      ''umount2'', ''swapon'', ''swapoff'', ''reboot'', ''sethostname'', ''setdomainname'',
      ''iopl'', ''ioperm'', PR_void, ''init_module'', ''delete_module'', PR_void, PR_void,
      ''quotactl'', PR_void, ''getpmsg'', ''putpmsg'', ''afs_syscall'', ''tuxcall'',
      ''security'', ''gettid'', ''readahead'', ''setxattr'', ''lsetxattr'', ''fsetxattr'',
      ''getxattr'', ''lgetxattr'', ''fgetxattr'', ''listxattr'', ''llistxattr'', ''flistxattr'',
      ''removexattr'', ''lremovexattr'', ''fremovexattr'', ''tkill'', ''time'', ''futex'',
      ''sched_setaffinity'', ''sched_getaffinity'', PR_void, ''io_setup'', ''io_destroy'',
      ''io_getevents'', ''io_submit'', ''io_cancel'', PR_void, ''lookup_dcookie'',
      ''epoll_create'', PR_void, PR_void, ''remap_file_pages'', ''getdents64'',
      ''set_tid_address'', ''restart_syscall'', ''semtimedop'', ''fadvise64'', PR_void,
      ''timer_settime'', ''timer_gettime'', ''timer_getoverrun'', ''timer_delete'',
      ''clock_settime'', ''clock_gettime'', ''clock_getres'', ''clock_nanosleep'',
      ''exit_group'', ''epoll_wait'', ''epoll_ctl'', ''tgkill'', ''utimes'', PR_void, ''mbind'',
      ''set_mempolicy'', ''get_mempolicy'', ''mq_open'', ''mq_unlink'', ''mq_timedsend'',
      ''mq_timedreceive'', PR_void, ''mq_getsetattr'', PR_void, PR_void, ''add_key'',
      ''request_key'', ''keyctl'', ''ioprio_set'', ''ioprio_get'', ''inotify_init'',
      ''inotify_add_watch'', ''inotify_rm_watch'', ''migrate_pages'', ''openat'', ''mkdirat'',
      ''mknodat'', ''fchownat'', ''futimesat'', ''newfstatat'', ''unlinkat'', ''renameat'',
      ''linkat'', ''symlinkat'', ''readlinkat'', ''fchmodat'', ''faccessat'', ''pselect6'',
      ''ppoll'', ''unshare'', PR_void, PR_void, ''splice'', ''tee'', ''sync_file_range'',
      PR_void, PR_void, ''utimensat'', ''epoll_pwait'', ''signalfd'', ''timerfd_create'',
      ''eventfd'', ''fallocate'', ''timerfd_settime'', ''timerfd_gettime'', ''accept4'',
      ''signalfd4'', ''eventfd2'', ''epoll_create1'', ''dup3'', ''pipe2'', ''inotify_init1'',
      PR_void, PR_void, PR_void, ''perf_event_open'', PR_void, ''fanotify_init'',
      ''fanotify_mark'', ''prlimit64'', ''name_to_handle_at'', ''open_by_handle_at'',
      ''clock_adjtime'', ''syncfs'', PR_void, ''setns'', ''getcpu'', PR_void, PR_void, ''kcmp'',
      PR_void, PR_void, PR_void, ''renameat2''] @
     replicate 118 PR_void @
     [''clone3'', PR_void, ''openat2''] @
     replicate 74 PR_void @
     [''rt_sigaction'', ''rt_sigreturn'', ''ioctl'', ''readv'', ''writev'', ''recvfrom'',
      ''sendmsg'', ''recvmsg'', ''execve'', ''ptrace'', ''rt_sigpending'', ''rt_sigtimedwait'',
      ''rt_sigqueueinfo'', ''sigaltstack'', ''timer_create'', ''mq_notify'', ''kexec_load'',
      ''waitid'', ''set_robust_list'', ''get_robust_list'', ''vmsplice'', ''move_pages'',
      ''preadv'', ''pwritev'', ''rt_tgsigqueueinfo'', ''recvmmsg'', ''sendmmsg'',
      ''process_vm_readv'', ''process_vm_writev'', ''setsockopt'', ''getsockopt'']"

subsection \<open>Translation\<close>

record sysnums =
  sn_table :: "Sysnum list"
  sn_offset :: word_t
  sn_length :: word_t

definition get_sysnums :: "Abi \<Rightarrow> sysnums" where
  "get_sysnums abi =
     (case abi of
        ABI_DEFAULT \<Rightarrow> \<lparr>sn_table = sysnums_x86_64, sn_offset = 0,
                        sn_length = of_nat (length sysnums_x86_64)\<rparr>
      | ABI_2 \<Rightarrow> \<lparr>sn_table = sysnums_i386, sn_offset = 0,
                  sn_length = of_nat (length sysnums_i386)\<rparr>
      | ABI_3 \<Rightarrow> \<lparr>sn_table = sysnums_x32, sn_offset = 0x40000000,
                  sn_length = of_nat (length sysnums_x32)\<rparr>)"

text \<open>
  The check is \<open>index > length\<close>, so the number right after the table passes it and is read out of
  the array: that is an undefined value, here \<open>None\<close>.
\<close>

definition translate_sysnum :: "Abi \<Rightarrow> word_t \<Rightarrow> Sysnum option" where
  "translate_sysnum abi sysnum =
     (let s = get_sysnums abi in
      if sysnum < sn_offset s then Some PR_void
      else
        (let index = sysnum - sn_offset s in
         if index > sn_length s then Some PR_void
         else if unat index < length (sn_table s) then Some (sn_table s ! unat index)
         else None))"

fun find_sysnum :: "Sysnum list \<Rightarrow> Sysnum \<Rightarrow> word_t \<Rightarrow> word_t option" where
  "find_sysnum [] sysnum i = None"
| "find_sysnum (s # table) sysnum i = (if s = sysnum then Some i else find_sysnum table sysnum (i + 1))"

definition detranslate_sysnum :: "Abi \<Rightarrow> Sysnum \<Rightarrow> word_t" where
  "detranslate_sysnum abi sysnum =
     (if sysnum = PR_void then SYSCALL_AVOIDER
      else
        (let s = get_sysnums abi in
         case find_sysnum (sn_table s) sysnum 0 of
           Some i \<Rightarrow> i + sn_offset s
         | None \<Rightarrow> SYSCALL_AVOIDER))"

definition get_sysnum :: "tracee \<Rightarrow> RegVersion \<Rightarrow> Sysnum option" where
  "get_sysnum t version = translate_sysnum (get_abi t) (peek_reg t version SYSARG_NUM)"

definition set_sysnum :: "tracee \<Rightarrow> Sysnum \<Rightarrow> tracee" where
  "set_sysnum t sysnum = poke_reg t SYSARG_NUM (detranslate_sysnum (get_abi t) sysnum)"

subsection \<open>Lemmas\<close>

lemma length_sysnums [simp]:
  "length sysnums_x86_64 = 440" "length sysnums_i386 = 440" "length sysnums_x32 = 543"
  by (simp_all add: sysnums_x86_64_def sysnums_i386_def sysnums_x32_def)

lemma get_sysnums_simps [simp]:
  "length (sn_table (get_sysnums abi)) = (if abi = ABI_3 then 543 else 440)"
  "sn_length (get_sysnums abi) = (if abi = ABI_3 then 543 else 440)"
  "sn_offset (get_sysnums abi) = (if abi = ABI_3 then 0x40000000 else 0)"
  by (cases abi; simp add: get_sysnums_def)+

lemma find_sysnum_Some:
  assumes "find_sysnum table s i = Some j" "unat i + length table < 2 ^ 64"
  shows "\<exists>k<length table. j = i + of_nat k \<and> table ! k = s"
  using assms
proof (induction table s i rule: find_sysnum.induct)
  case (2 s' table sysnum i)
  show ?case
  proof (cases "s' = sysnum")
    case True
    then show ?thesis using 2 by (intro exI[of _ 0]) simp
  next
    case False
    have "unat (i + 1) + length table < 2 ^ 64"
      using 2(3) by (simp add: unat_word_ariths)
    then obtain k where "k < length table" "j = i + 1 + of_nat k" "table ! k = sysnum"
      using 2 False by auto
    then show ?thesis by (intro exI[of _ "Suc k"]) simp
  qed
qed simp

lemma find_sysnum_table:
  assumes "find_sysnum (sn_table (get_sysnums abi)) s 0 = Some j"
  shows "unat j < length (sn_table (get_sysnums abi)) \<and> sn_table (get_sysnums abi) ! unat j = s"
proof -
  obtain k where k: "k < length (sn_table (get_sysnums abi))" "j = of_nat k"
    "sn_table (get_sysnums abi) ! k = s"
    using find_sysnum_Some[OF assms] by (cases "abi = ABI_3") auto
  then have "unat j = k" by (cases "abi = ABI_3") (simp_all add: unat_of_nat)
  then show ?thesis using k by simp
qed

lemma translate_sysnum_index:
  assumes "unat j < length (sn_table (get_sysnums abi))"
  shows "translate_sysnum abi (j + sn_offset (get_sysnums abi)) =
    Some (sn_table (get_sysnums abi) ! unat j)"
proof -
  have "unat j < 543" using assms by (simp split: if_splits)
  then have j: "j < 543" by (simp add: word_less_nat_alt)
  have "\<not> j + 0x40000000 < 0x40000000"
    using j by (simp add: word_less_nat_alt unat_word_ariths)
  moreover have "\<not> sn_length (get_sysnums abi) < j"
    using assms by (simp add: word_less_nat_alt split: if_splits)
  ultimately show ?thesis using assms by (auto simp: translate_sysnum_def Let_def split: if_splits)
qed

lemma reg_view_small:
  assumes "v < 0x100000000"
  shows "reg_view t v = v"
proof -
  have "take_bit 32 v = v"
    by (rule word_unat_eq_iff[THEN iffD2])
      (use assms in \<open>simp add: unsigned_take_bit_eq word_less_nat_alt take_bit_nat_eq_self\<close>)
  then show ?thesis by (simp add: reg_view_def take_bit_eq_mask mask_numeral)
qed

lemma get_set_sysnum:
  assumes "s = PR_void \<or> detranslate_sysnum (get_abi t) s \<noteq> SYSCALL_AVOIDER"
  shows "get_sysnum (set_sysnum t s) CURRENT = Some s"
proof (cases "s = PR_void")
  case True
  have "translate_sysnum abi (reg_view t SYSCALL_AVOIDER) = Some PR_void" for abi
    by (cases abi; simp add: translate_sysnum_def reg_view_def SYSCALL_AVOIDER_def Let_def)
  then show ?thesis
    using True by (simp add: get_sysnum_def set_sysnum_def reg_simps detranslate_sysnum_def)
next
  case False
  let ?abi = "get_abi t"
  obtain j where j: "find_sysnum (sn_table (get_sysnums ?abi)) s 0 = Some j"
    using assms False by (auto simp: detranslate_sysnum_def Let_def split: option.splits)
  have d: "detranslate_sysnum ?abi s = j + sn_offset (get_sysnums ?abi)"
    using False j by (simp add: detranslate_sysnum_def Let_def)
  note t = find_sysnum_table[OF j]
  have "unat j < 543" using t by (simp split: if_splits)
  then have "j + sn_offset (get_sysnums ?abi) < 0x100000000"
    by (simp add: word_less_nat_alt unat_word_ariths)
  then have "reg_view t (detranslate_sysnum ?abi s) = detranslate_sysnum ?abi s"
    by (simp add: reg_view_small d)
  then show ?thesis
    using translate_sysnum_index[of j ?abi] t
    by (simp add: get_sysnum_def set_sysnum_def reg_simps d)
qed
lemma sysnum_codes [simp]:
  "detranslate_sysnum ABI_DEFAULT ''mremap'' = 25"
  "detranslate_sysnum ABI_DEFAULT ''mmap'' = 9"
  "detranslate_sysnum ABI_DEFAULT ''mmap2'' = SYSCALL_AVOIDER"
  "detranslate_sysnum ABI_DEFAULT ''brk'' = 12"
  "detranslate_sysnum ABI_DEFAULT ''ppoll'' = 271"
  "detranslate_sysnum ABI_DEFAULT ''getpid'' = 39"
  by code_simp+

end
