(* ===== verification/Chain.thy ===== *)
theory Chain
  imports Sysnums
begin

section \<open>Chained system calls\<close>

text \<open>
  \<^verbatim>\<open>syscall/chain.c\<close>: the queue of system calls that PRoot inserts after the one the tracee asked
  for.  \<open>chain_syscalls\<close> is \<open>None\<close> when no queue is allocated; allocations are taken to succeed.
  \<open>None\<close> as a result stands for a failed assertion.
\<close>

definition register_chained_syscall_internal ::
  "tracee \<Rightarrow> Sysnum \<Rightarrow> word_t list \<Rightarrow> bool \<Rightarrow> tracee" where
  "register_chained_syscall_internal t sysnum sysargs at_front =
     (let queue = (case chain_syscalls t of None \<Rightarrow> [] | Some q \<Rightarrow> q);
          syscall = \<lparr>cs_sysnum = sysnum, cs_sysargs = sysargs\<rparr>
      in t\<lparr>chain_syscalls := Some (if at_front then syscall # queue else queue @ [syscall])\<rparr>)"

definition register_chained_syscall :: "tracee \<Rightarrow> Sysnum \<Rightarrow> word_t list \<Rightarrow> tracee" where
  "register_chained_syscall t sysnum sysargs =
     register_chained_syscall_internal t sysnum sysargs False"

definition poke_sysargs :: "tracee \<Rightarrow> word_t list \<Rightarrow> tracee" where
  "poke_sysargs t args =
     fold (\<lambda>(r, v) t. poke_reg t r v)
       (zip [SYSARG_1, SYSARG_2, SYSARG_3, SYSARG_4, SYSARG_5, SYSARG_6] args) t"

text \<open>\<^verbatim>\<open>SYSTRAP_NUM\<close> is \<^verbatim>\<open>SYSARG_RESULT\<close> on x86.\<close>

definition chain_next_syscall :: "tracee \<Rightarrow> tracee option" where
  "chain_next_syscall t =
     (case chain_syscalls t of
        None \<Rightarrow> None
      | Some [] \<Rightarrow>
          (let t = t\<lparr>chain_syscalls := None\<rparr>;
               t = (if force_final_result t then poke_reg t SYSARG_RESULT (final_result t) else t)
           in Some (t\<lparr>force_final_result := False, final_result := 0\<rparr>))
      | Some (syscall # queue) \<Rightarrow>
          (let t = t\<lparr>restore_original_regs := False, chain_syscalls := Some queue\<rparr>;
               t = poke_sysargs t (cs_sysargs syscall);
               t = poke_reg t SYSARG_RESULT (detranslate_sysnum (get_abi t) (cs_sysnum syscall));
               t = poke_reg t INSTR_POINTER (peek_reg t CURRENT INSTR_POINTER - get_systrap_size t)
           in Some (t\<lparr>restart_how := PTRACE_SYSCALL\<rparr>)))"

definition force_chain_final_result :: "tracee \<Rightarrow> word_t \<Rightarrow> tracee" where
  "force_chain_final_result t forced_result =
     t\<lparr>force_final_result := True, final_result := forced_result\<rparr>"

definition peek_sysargs :: "tracee \<Rightarrow> RegVersion \<Rightarrow> word_t list" where
  "peek_sysargs t version =
     map (peek_reg t version) [SYSARG_1, SYSARG_2, SYSARG_3, SYSARG_4, SYSARG_5, SYSARG_6]"

definition restart_original_syscall :: "tracee \<Rightarrow> tracee option" where
  "restart_original_syscall t =
     (case get_sysnum t ORIGINAL of
        None \<Rightarrow> None
      | Some sysnum \<Rightarrow> Some (register_chained_syscall t sysnum (peek_sysargs t ORIGINAL)))"

definition restart_current_syscall_as_chained :: "tracee \<Rightarrow> tracee option" where
  "restart_current_syscall_as_chained t =
     (if sysnum_workaround_state t \<noteq> SYSNUM_WORKAROUND_INACTIVE then None
      else
        (let t = t\<lparr>sysnum_workaround_state := SYSNUM_WORKAROUND_PROCESS_FAULTY_CALL\<rparr>
         in case get_sysnum t CURRENT of
              None \<Rightarrow> None
            | Some sysnum \<Rightarrow>
                Some (register_chained_syscall_internal t sysnum (peek_sysargs t CURRENT) True)))"

subsection \<open>The order of a chain\<close>

lemma native_poke_sysargs [reg_simps]:
  assumes "native t"
  shows "native (poke_sysargs t args)"
    "get_abi (poke_sysargs t args) = get_abi t" "heap (poke_sysargs t args) = heap t"
    "ver \<noteq> CURRENT \<Longrightarrow> regs (poke_sysargs t args) ver = regs t ver"
proof -
  have "native (fold (\<lambda>(r, v) t. poke_reg t r v) l u) \<and>
    get_abi (fold (\<lambda>(r, v) t. poke_reg t r v) l u) = get_abi u \<and>
    heap (fold (\<lambda>(r, v) t. poke_reg t r v) l u) = heap u \<and>
    (ver \<noteq> CURRENT \<longrightarrow> regs (fold (\<lambda>(r, v) t. poke_reg t r v) l u) ver = regs u ver)"
    if "native u" for l u ver
    using that by (induction l arbitrary: u) (auto simp: native_simps)
  from this[OF assms]
  show "native (poke_sysargs t args)"
    "get_abi (poke_sysargs t args) = get_abi t" "heap (poke_sysargs t args) = heap t"
    "ver \<noteq> CURRENT \<Longrightarrow> regs (poke_sysargs t args) ver = regs t ver"
    by (simp_all add: poke_sysargs_def)
qed


lemma poke_sysargs_frame [simp]:
  "chain_syscalls (poke_sysargs t args) = chain_syscalls t"
  "force_final_result (poke_sysargs t args) = force_final_result t"
  "final_result (poke_sysargs t args) = final_result t"
proof -
  have "chain_syscalls (fold (\<lambda>(r, v) t. poke_reg t r v) l u) = chain_syscalls u \<and>
    force_final_result (fold (\<lambda>(r, v) t. poke_reg t r v) l u) = force_final_result u \<and>
    final_result (fold (\<lambda>(r, v) t. poke_reg t r v) l u) = final_result u" for l u
    by (induction l arbitrary: u) (auto split: prod.splits)
  then show "chain_syscalls (poke_sysargs t args) = chain_syscalls t"
    "force_final_result (poke_sysargs t args) = force_final_result t"
    "final_result (poke_sysargs t args) = final_result t"
    unfolding poke_sysargs_def by blast+
qed

lemma poke_sysargs_native:
  assumes "native t" "length args = 6"
  shows "regs (poke_sysargs t args) CURRENT = (regs t CURRENT)(RDI := args ! 0, RSI := args ! 1,
    RDX := args ! 2, R10 := args ! 3, R8 := args ! 4, R9 := args ! 5)"
proof -
  obtain a b c d e f where "args = [a, b, c, d, e, f]"
    using assms(2) by (auto simp: length_Suc_conv numeral_eq_Suc)
  then show ?thesis using assms(1) by (simp add: poke_sysargs_def native_simps)
qed

text \<open>
  The run of a chain: each system call that is forged (its number and arguments), with the answer
  of the kernel put in the result register before the next one.  A queue of \<open>n\<close> calls is over
  after \<open>n + 1\<close> rounds.
\<close>

fun chain_trace ::
  "(reg_bank \<Rightarrow> word_t) \<Rightarrow> nat \<Rightarrow> tracee \<Rightarrow> ((word_t \<times> word_t list) list \<times> tracee) option" where
  "chain_trace exec 0 t = None"
| "chain_trace exec (Suc n) t =
     (case chain_next_syscall t of
        None \<Rightarrow> None
      | Some t \<Rightarrow>
          (case chain_syscalls t of
             None \<Rightarrow> Some ([], t)
           | Some _ \<Rightarrow>
               (let call = (peek_reg t CURRENT SYSARG_RESULT, peek_sysargs t CURRENT);
                    bank = regs t CURRENT
                in map_option (\<lambda>(calls, u). (call # calls, u))
                     (chain_trace exec n
                        (t\<lparr>regs := (regs t)(CURRENT := bank(RAX := exec bank))\<rparr>)))))"

lemma chain_next_cons:
  assumes "native t" "chain_syscalls t = Some (s # q)" "length (cs_sysargs s) = 6"
  shows "\<exists>t'. chain_next_syscall t = Some t' \<and> chain_syscalls t' = Some q \<and> native t' \<and>
    get_abi t' = get_abi t \<and> peek_reg t' CURRENT SYSARG_RESULT = detranslate_sysnum (get_abi t) (cs_sysnum s) \<and>
    peek_sysargs t' CURRENT = cs_sysargs s \<and>
    force_final_result t' = force_final_result t \<and> final_result t' = final_result t"
proof -
  let ?t = "t\<lparr>restore_original_regs := False, chain_syscalls := Some q\<rparr>"
  let ?u = "poke_sysargs ?t (cs_sysargs s)"
  have n: "native ?t" using assms(1) by (simp add: native_def)
  note u = native_poke_sysargs[OF n]
  have abi: "get_abi (t\<lparr>restore_original_regs := x, chain_syscalls := y\<rparr>) = get_abi t" for x y
    by (simp add: get_abi_def)
  let ?v = "poke_reg ?u SYSARG_RESULT (detranslate_sysnum (get_abi ?u) (cs_sysnum s))"
  let ?w = "poke_reg ?v INSTR_POINTER (peek_reg ?v CURRENT INSTR_POINTER - get_systrap_size ?v)"
  have nu: "native ?u" by (rule u(1))
  have nv: "native ?v" by (rule native_simps(4)[OF nu])
  have nw: "native ?w" by (rule native_simps(4)[OF nv])
  have ab: "get_abi ?u = get_abi t" using u(2) by (simp add: abi)
  have r: "regs ?w CURRENT RAX = detranslate_sysnum (get_abi t) (cs_sysnum s)"
    "map (regs ?w CURRENT) [RDI, RSI, RDX, R10, R8, R9] = cs_sysargs s"
  proof -
    show "regs ?w CURRENT RAX = detranslate_sysnum (get_abi t) (cs_sysnum s)"
      using native_simps(5)[OF nv] native_simps(5)[OF nu] ab by simp
    obtain a b c d e f where "cs_sysargs s = [a, b, c, d, e, f]"
      using assms(3) by (auto simp: length_Suc_conv numeral_eq_Suc)
    then show "map (regs ?w CURRENT) [RDI, RSI, RDX, R10, R8, R9] = cs_sysargs s"
      using native_simps(5)[OF nv] native_simps(5)[OF nu] poke_sysargs_native[OF n assms(3)] by simp
  qed
  define x where "x = ?w\<lparr>restart_how := PTRACE_SYSCALL\<rparr>"
  have nx: "native x" using nw by (simp add: native_def x_def)
  have cx: "regs x CURRENT = regs ?w CURRENT" by (simp add: x_def)
  have "peek_reg x CURRENT SYSARG_RESULT = detranslate_sysnum (get_abi t) (cs_sysnum s)"
    "peek_sysargs x CURRENT = cs_sysargs s"
    using r by (simp_all add: native_simps(3)[OF nx] peek_sysargs_def cx)
  moreover have "get_abi x = get_abi ?w" by (simp add: get_abi_def x_def)
  then have "get_abi x = get_abi t" using ab by simp
  moreover have "chain_next_syscall t = Some x"
    using assms(2) by (simp add: chain_next_syscall_def Let_def x_def)
  moreover have "chain_syscalls x = Some q" "force_final_result x = force_final_result t"
    "final_result x = final_result t"
    by (simp_all add: x_def)
  ultimately show ?thesis using nx by blast
qed

lemma chain_trace_order:
  assumes "native t" "chain_syscalls t = Some q" "\<forall>s\<in>set q. length (cs_sysargs s) = 6"
    "length q < n"
  shows "\<exists>t'. chain_trace exec n t =
      Some (map (\<lambda>s. (detranslate_sysnum (get_abi t) (cs_sysnum s), cs_sysargs s)) q, t') \<and>
    (force_final_result t \<longrightarrow> peek_reg t' CURRENT SYSARG_RESULT = final_result t) \<and>
    chain_syscalls t' = None \<and> \<not> force_final_result t'"
  using assms
proof (induction q arbitrary: t n)
  case Nil
  then obtain m where n: "n = Suc m" by (cases n) auto
  have "native (t\<lparr>chain_syscalls := None\<rparr>)" using Nil(1) by (simp add: native_def)
  then show ?case
    using Nil by (auto simp: n chain_next_syscall_def Let_def peek_reg_view native_simps
        native_def hw_of_def reg_view_def is_32on64_mode_def)
next
  case (Cons s q)
  then obtain m where n: "n = Suc m" by (cases n) auto
  obtain t' where t': "chain_next_syscall t = Some t'" "chain_syscalls t' = Some q" "native t'"
    "get_abi t' = get_abi t"
    "peek_reg t' CURRENT SYSARG_RESULT = detranslate_sysnum (get_abi t) (cs_sysnum s)"
    "peek_sysargs t' CURRENT = cs_sysargs s"
    "force_final_result t' = force_final_result t" "final_result t' = final_result t"
    using chain_next_cons[OF Cons(2,3)] Cons(4) by auto
  let ?u = "t'\<lparr>regs := (regs t')(CURRENT := (regs t' CURRENT)(RAX := exec (regs t' CURRENT)))\<rparr>"
  have "native ?u" "get_abi ?u = get_abi t'" using t'(3) by (simp_all add: native_def get_abi_def)
  then show ?case
    using Cons.IH[of ?u m] Cons(4,5) t' by (auto simp: n Let_def)
qed

lemma register_chain:
  "chain_syscalls (fold (\<lambda>(s, args) t. register_chained_syscall t s args) calls t) =
     (if calls = [] then chain_syscalls t
      else Some ((case chain_syscalls t of None \<Rightarrow> [] | Some q \<Rightarrow> q) @
        map (\<lambda>(s, args). \<lparr>cs_sysnum = s, cs_sysargs = args\<rparr>) calls))"
  by (induction calls arbitrary: t)
    (auto simp: register_chained_syscall_def register_chained_syscall_internal_def Let_def
      split: option.splits)

lemma register_chain_frame:
  "native (fold (\<lambda>(s, args) t. register_chained_syscall t s args) calls t) = native t"
  "get_abi (fold (\<lambda>(s, args) t. register_chained_syscall t s args) calls t) = get_abi t"
  "force_final_result (fold (\<lambda>(s, args) t. register_chained_syscall t s args) calls t) = force_final_result t"
  "final_result (fold (\<lambda>(s, args) t. register_chained_syscall t s args) calls t) = final_result t"
  by (induction calls arbitrary: t)
    (auto simp: register_chained_syscall_def register_chained_syscall_internal_def Let_def
      native_def get_abi_def)

end
