(* ===== verification/Heap.thy ===== *)
theory Heap
  imports Chain
begin

section \<open>Emulation of the heap\<close>

text \<open>
  \<^verbatim>\<open>syscall/heap.c\<close>: \<^verbatim>\<open>brk(2)\<close> is emulated by a private mapping that is created by the first call
  and resized with \<^verbatim>\<open>mremap(2)\<close>; its first page (\<open>heap_offset\<close>) is discarded.  The static variable
  \<open>heap_offset\<close> is passed and returned; \<open>page_size\<close> is the answer of \<^verbatim>\<open>sysconf\<close> and \<open>mappings\<close> the
  address and length of the mappings of the loaded program, the last one its BSS.
\<close>

subsection \<open>The two stages of brk\<close>

definition init_heap_offset :: "word_t \<Rightarrow> word_t \<Rightarrow> word_t" where
  "init_heap_offset page_size heap_offset =
     (if heap_offset = 0 then (if c_int page_size \<le> 0 then 0x1000 else page_size)
      else heap_offset)"

definition mmap_sysnum :: "tracee \<Rightarrow> Sysnum" where
  "mmap_sysnum t =
     (if detranslate_sysnum (get_abi t) ''mmap2'' \<noteq> SYSCALL_AVOIDER then ''mmap2'' else ''mmap'')"

definition translate_brk_enter ::
  "word_t \<Rightarrow> (word_t \<times> word_t) list \<Rightarrow> word_t \<Rightarrow> tracee \<Rightarrow> word_t \<times> tracee" where
  "translate_brk_enter page_size mappings heap_offset t =
     (if heap_disabled (heap t) then (heap_offset, t)
      else
        (let heap_offset = init_heap_offset page_size heap_offset;
             new_brk_address = peek_reg t CURRENT SYSARG_1
         in if heap_base (heap t) = 0 then
              (if new_brk_address \<noteq> 0 then (heap_offset, t)
               else
                 (let bss = last mappings;
                      new_brk_address = fst bss + snd bss;
                      t = set_sysnum t (mmap_sysnum t)
                  in (heap_offset,
                      poke_sysargs t [new_brk_address, heap_offset, 3, 0x22, - 1, 0])))
            else if new_brk_address < heap_base (heap t) then (heap_offset, set_sysnum t PR_void)
            else
              (let new_heap_size = new_brk_address - heap_base (heap t);
                   old_heap_size = heap_size (heap t);
                   t = set_sysnum t ''mremap''
               in (heap_offset,
                   poke_sysargs t
                     [heap_base (heap t) - heap_offset, old_heap_size + heap_offset,
                      new_heap_size + heap_offset, 0, 0]))))"

definition is_errno_result :: "word_t \<Rightarrow> bool" where
  "is_errno_result result = (c_int result < 0 \<and> c_int result > - 4096)"

definition heap_break :: "tracee \<Rightarrow> word_t" where
  "heap_break t = heap_base (heap t) + heap_size (heap t)"

text \<open>\<open>None\<close> is a failed assertion, or a number outside of the table.\<close>

definition translate_brk_exit :: "word_t \<Rightarrow> tracee \<Rightarrow> tracee option" where
  "translate_brk_exit heap_offset t =
     (if heap_disabled (heap t) then Some t
      else if \<not> heap_offset > 0 then None
      else
        (let result = peek_reg t CURRENT SYSARG_RESULT in
         case get_sysnum t MODIFIED of
           None \<Rightarrow> None
         | Some sysnum \<Rightarrow>
             (if sysnum = PR_void then Some (poke_reg t SYSARG_RESULT (heap_break t))
              else if sysnum = ''mmap'' \<or> sysnum = ''mmap2'' then
                (if is_errno_result result then Some (poke_reg t SYSARG_RESULT 0)
                 else
                   (let t = t\<lparr>heap := (heap t)\<lparr>heap_base := result + heap_offset, heap_size := 0\<rparr>\<rparr>
                    in Some (poke_reg t SYSARG_RESULT (heap_break t))))
              else if sysnum = ''mremap'' then
                (if is_errno_result result \<or> heap_base (heap t) \<noteq> result + heap_offset then
                   Some (poke_reg t SYSARG_RESULT (heap_break t))
                 else
                   (let t = t\<lparr>heap := (heap t)\<lparr>heap_size :=
                                peek_reg t MODIFIED SYSARG_3 - heap_offset\<rparr>\<rparr>
                    in Some (poke_reg t SYSARG_RESULT (heap_break t))))
              else if sysnum = ''brk'' then
                Some (if result = peek_reg t ORIGINAL SYSARG_1
                      then t\<lparr>heap := (heap t)\<lparr>heap_disabled := True\<rparr>\<rparr> else t)
              else None)))"

text \<open>
  One call as the system-call machinery runs it: the registers are saved, translated and saved
  again, the kernel executes what they ask for and leaves its answer in the result register, and
  the exit stage follows.
\<close>

definition brk_call ::
  "(reg_bank \<Rightarrow> word_t) \<Rightarrow> word_t \<Rightarrow> (word_t \<times> word_t) list \<Rightarrow> word_t \<Rightarrow> tracee \<Rightarrow>
     (word_t \<times> tracee) option" where
  "brk_call exec page_size mappings heap_offset t =
     (case translate_brk_enter page_size mappings heap_offset (save_current_regs t ORIGINAL) of
        (heap_offset, t) \<Rightarrow>
          (let t = save_current_regs t MODIFIED;
               bank = regs t CURRENT;
               t = t\<lparr>regs := (regs t)(CURRENT := bank(RAX := exec bank))\<rparr>
           in case translate_brk_exit heap_offset t of
                None \<Rightarrow> None
              | Some t \<Rightarrow> Some (heap_offset, t)))"

subsection \<open>The brk contract in the native mode\<close>

text \<open>The registers the kernel sees.\<close>

definition resize_bank :: "tracee \<Rightarrow> word_t \<Rightarrow> reg_bank" where
  "resize_bank t off =
     (regs t CURRENT)(ORIG_RAX := 25, RDI := heap_base (heap t) - off,
        RSI := heap_size (heap t) + off,
        RDX := regs t CURRENT RDI - heap_base (heap t) + off, R10 := 0, R8 := 0)"

definition create_bank :: "tracee \<Rightarrow> word_t \<Rightarrow> word_t \<Rightarrow> reg_bank" where
  "create_bank t off addr =
     (regs t CURRENT)(ORIG_RAX := 9, RDI := addr, RSI := off, RDX := 3, R10 := 0x22, R8 := - 1,
        R9 := 0)"

lemma poke_resize:
  assumes "native t" "regs t ORIGINAL = regs t CURRENT"
  shows "regs (poke_sysargs (set_sysnum t ''mremap'') [a, b, c, d, e]) CURRENT =
    (regs t CURRENT)(ORIG_RAX := 25, RDI := a, RSI := b, RDX := c, R10 := d, R8 := e)"
  using assms by (simp add: poke_sysargs_def set_sysnum_def native_abi native_simps)

lemma poke_create:
  assumes "native t" "regs t ORIGINAL = regs t CURRENT"
  shows "regs (poke_sysargs (set_sysnum t (mmap_sysnum t)) [a, b, c, d, e, f]) CURRENT =
    (regs t CURRENT)(ORIG_RAX := 9, RDI := a, RSI := b, RDX := c, R10 := d, R8 := e, R9 := f)"
  using assms by (simp add: poke_sysargs_def set_sysnum_def mmap_sysnum_def native_abi native_simps)

lemma sysnum_names [simp]:
  "translate_sysnum ABI_DEFAULT 25 = Some ''mremap''"
  "translate_sysnum ABI_DEFAULT 9 = Some ''mmap''"
  "translate_sysnum ABI_DEFAULT SYSCALL_AVOIDER = Some PR_void"
  by code_simp+

text \<open>The tracee as the exit stage finds it, after the kernel has answered \<open>r\<close>.\<close>

definition answered :: "tracee \<Rightarrow> word_t \<Rightarrow> tracee" where
  "answered u r =
     (save_current_regs u MODIFIED)\<lparr>regs := (regs (save_current_regs u MODIFIED))
        (CURRENT := (regs u CURRENT)(RAX := r))\<rparr>"

lemma answered_sel:
  assumes "native u"
  shows "native (answered u r)" "heap (answered u r) = heap u"
    "regs (answered u r) CURRENT = (regs u CURRENT)(RAX := r)"
    "regs (answered u r) MODIFIED = regs u CURRENT"
    "get_abi (answered u r) = get_abi u"
    "get_sysnum (answered u r) MODIFIED = translate_sysnum (get_abi u) (regs u CURRENT ORIG_RAX)"
    "peek_reg (answered u r) CURRENT SYSARG_RESULT = r"
    "peek_reg (answered u r) MODIFIED SYSARG_3 = regs u CURRENT RDX"
proof -
  show n: "native (answered u r)" and "heap (answered u r) = heap u"
    and c: "regs (answered u r) CURRENT = (regs u CURRENT)(RAX := r)"
    and m: "regs (answered u r) MODIFIED = regs u CURRENT"
    and a: "get_abi (answered u r) = get_abi u"
    using assms by (simp_all add: answered_def native_def get_abi_def)
  have h: "hw_of (regs u CURRENT) x = reg_offset x" for x using assms by (simp add: native_simps)
  show "get_sysnum (answered u r) MODIFIED = translate_sysnum (get_abi u) (regs u CURRENT ORIG_RAX)"
    "peek_reg (answered u r) MODIFIED SYSARG_3 = regs u CURRENT RDX"
    by (simp_all add: get_sysnum_def peek_reg_view m a h native_simps(1)[OF n])
  show "peek_reg (answered u r) CURRENT SYSARG_RESULT = r"
    by (simp add: native_simps(3)[OF n] c)
qed

lemma brk_call_answered:
  assumes "translate_brk_enter ps maps off (save_current_regs t ORIGINAL) = (off', u)"
  shows "brk_call exec ps maps off t =
    map_option (Pair off') (translate_brk_exit off' (answered u (exec (regs u CURRENT))))"
  using assms by (simp add: brk_call_def answered_def Let_def split: option.splits)

lemma brk_call_resize:
  assumes n: "native t" and e: "\<not> heap_disabled (heap t)" "heap_base (heap t) \<noteq> 0" "off \<noteq> 0"
    and addr: "heap_base (heap t) \<le> regs t CURRENT RDI"
    and r: "r = exec (resize_bank t off)"
  shows "\<exists>t'. brk_call exec ps maps off t = Some (off, t') \<and>
    peek_reg t' CURRENT SYSARG_RESULT = heap_break t' \<and>
    (if is_errno_result r \<or> r + off \<noteq> heap_base (heap t) then heap t' = heap t
     else heap t' = (heap t)\<lparr>heap_size := regs t CURRENT RDI - heap_base (heap t)\<rparr>)"
proof -
  let ?t = "save_current_regs t ORIGINAL"
  let ?u = "poke_sysargs (set_sysnum ?t ''mremap'') [heap_base (heap t) - off,
    heap_size (heap t) + off, regs t CURRENT RDI - heap_base (heap t) + off, 0, 0]"
  have nt: "native ?t" "get_abi ?t = ABI_DEFAULT" using n by (auto intro: native_abi)
  have n': "native (set_sysnum ?t ''mremap'')" using nt by (simp add: set_sysnum_def native_simps)
  have u: "native ?u" "get_abi ?u = ABI_DEFAULT" "heap ?u = heap t"
    using native_poke_sysargs[OF n'] nt by (simp_all add: set_sysnum_def)
  have b: "regs ?u CURRENT = resize_bank t off"
    using nt by (subst poke_resize) (simp_all add: resize_bank_def)
  have en: "translate_brk_enter ps maps off ?t = (off, ?u)"
    using e addr nt
    by (simp add: translate_brk_enter_def init_heap_offset_def native_simps(3) Let_def
        set_sysnum_def linorder_not_less)
  note a = answered_sel[OF u(1), of r]
  have rdx: "resize_bank t off RDX = regs t CURRENT RDI - heap_base (heap t) + off"
    "resize_bank t off ORIG_RAX = 25"
    by (simp_all add: resize_bank_def)
  have pk: "peek_reg (poke_reg x SYSARG_RESULT v) CURRENT SYSARG_RESULT = v" if "native x" for x v
    using that by (simp add: native_simps)
  have hb: "heap_break (poke_reg x SYSARG_RESULT v) = heap_break x" for x v
    by (simp add: heap_break_def)
  have nh: "native (x\<lparr>heap := h\<rparr>) = native x" for x h by (simp add: native_def)
  have off: "0 < off" using e(3) by (simp add: word_neq_0_conv)
  show ?thesis
    using e off a u(2,3) b rdx
    by (auto simp: brk_call_answered[OF en] translate_brk_exit_def Let_def r[symmetric] pk hb nh)
qed

lemma brk_call_query:
  assumes n: "native t" and e: "\<not> heap_disabled (heap t)" "heap_base (heap t) \<noteq> 0" "off \<noteq> 0"
    and addr: "regs t CURRENT RDI < heap_base (heap t)"
  shows "\<exists>t'. brk_call exec ps maps off t = Some (off, t') \<and> heap t' = heap t \<and>
    peek_reg t' CURRENT SYSARG_RESULT = heap_break t"
proof -
  let ?t = "save_current_regs t ORIGINAL"
  let ?u = "set_sysnum ?t PR_void"
  have nt: "native ?t" "get_abi ?t = ABI_DEFAULT" using n by (auto intro: native_abi)
  have u: "native ?u" "get_abi ?u = ABI_DEFAULT" "heap ?u = heap t"
    "regs ?u CURRENT ORIG_RAX = SYSCALL_AVOIDER"
    using nt by (simp_all add: set_sysnum_def native_simps detranslate_sysnum_def)
  have en: "translate_brk_enter ps maps off ?t = (off, ?u)"
    using e addr nt by (simp add: translate_brk_enter_def init_heap_offset_def native_simps(3) Let_def)
  have off: "0 < off" using e(3) by (simp add: word_neq_0_conv)
  show ?thesis
    using e off u(2-4) answered_sel[OF u(1)]
    by (simp add: brk_call_answered[OF en] translate_brk_exit_def native_simps heap_break_def)
qed

lemma brk_call_create:
  assumes n: "native t" and e: "\<not> heap_disabled (heap t)" "heap_base (heap t) = 0"
    and addr: "regs t CURRENT RDI = 0"
    and off: "off' = init_heap_offset ps off" "off' \<noteq> 0"
    and r: "r = exec (create_bank t off' (fst (last maps) + snd (last maps)))"
  shows "\<exists>t'. brk_call exec ps maps off t = Some (off', t') \<and>
    (if is_errno_result r then heap t' = heap t \<and> peek_reg t' CURRENT SYSARG_RESULT = 0
     else heap t' = (heap t)\<lparr>heap_base := r + off', heap_size := 0\<rparr> \<and>
       peek_reg t' CURRENT SYSARG_RESULT = r + off')"
proof -
  let ?t = "save_current_regs t ORIGINAL"
  let ?u = "poke_sysargs (set_sysnum ?t (mmap_sysnum ?t))
    [fst (last maps) + snd (last maps), off', 3, 0x22, - 1, 0]"
  have nt: "native ?t" "get_abi ?t = ABI_DEFAULT" using n by (auto intro: native_abi)
  have n': "native (set_sysnum ?t (mmap_sysnum ?t))" using nt by (simp add: set_sysnum_def native_simps)
  have u: "native ?u" "get_abi ?u = ABI_DEFAULT" "heap ?u = heap t"
    using native_poke_sysargs[OF n'] nt by (simp_all add: set_sysnum_def)
  have b: "regs ?u CURRENT = create_bank t off' (fst (last maps) + snd (last maps))"
    using nt by (subst poke_create) (simp_all add: create_bank_def)
  have en: "translate_brk_enter ps maps off ?t = (off', ?u)"
    using e addr nt off by (simp add: translate_brk_enter_def native_simps(3) Let_def)
  note a = answered_sel[OF u(1), of r]
  have rax: "create_bank t off' x ORIG_RAX = 9" for x by (simp add: create_bank_def)
  have pk: "peek_reg (poke_reg x SYSARG_RESULT v) CURRENT SYSARG_RESULT = v" if "native x" for x v
    using that by (simp add: native_simps)
  have nh: "native (x\<lparr>heap := h\<rparr>) = native x" for x h by (simp add: native_def)
  have off: "0 < off'" using off(2) by (simp add: word_neq_0_conv)
  show ?thesis
    using e off a u(2,3) b rax
    by (auto simp: brk_call_answered[OF en] translate_brk_exit_def Let_def r[symmetric] pk nh
        heap_break_def)
qed

end
