(* ===== verification/Syscall_Properties.thy ===== *)
theory Syscall_Properties
  imports Heap
begin

section \<open>Properties of the registers, numbers, chains and heap\<close>

text \<open>
  What the layer under the extensions promises: system call numbers survive a round trip, chained
  calls run in order, the registers are given back, and \<^verbatim>\<open>brk\<close> keeps its contract.
\<close>

subsection \<open>A tracee for the instances\<close>

definition sample_tracee :: tracee where
  "sample_tracee =
     \<lparr>pid = 7, regs = (\<lambda>_ _. 0), regs_were_changed = False, restore_original_regs = False,
      restore_original_regs_after_seccomp_event = False, tr_status = 0, restart_how = PTRACE_CONT,
      sigstop = SIGSTOP_ALLOWED, chain_syscalls = None, force_final_result = False, final_result = 0,
      sysnum_workaround_state = SYSNUM_WORKAROUND_INACTIVE,
      heap = \<lparr>heap_base = 0, heap_size = 0, heap_disabled = False\<rparr>\<rparr>"

lemma sample_native [simp]: "native sample_tracee" "get_abi sample_tracee = ABI_DEFAULT"
  by (simp_all add: sample_tracee_def native_def get_abi_def)

subsection \<open>System call numbers\<close>

lemma find_sysnum_in: "s \<in> set table \<Longrightarrow> find_sysnum table s i \<noteq> None"
  by (induction table s i rule: find_sysnum.induct) auto

lemma detranslate_in_table:
  assumes "s \<in> set (sn_table (get_sysnums abi))" "s \<noteq> PR_void"
  shows "detranslate_sysnum abi s \<noteq> SYSCALL_AVOIDER"
proof -
  obtain j where j: "find_sysnum (sn_table (get_sysnums abi)) s 0 = Some j"
    using find_sysnum_in[OF assms(1)] by blast
  have "unat j < 543" using find_sysnum_table[OF j] by (simp split: if_splits)
  then have "unat (j + sn_offset (get_sysnums abi)) < unat SYSCALL_AVOIDER"
    by (simp add: unat_word_ariths SYSCALL_AVOIDER_def)
  then show ?thesis using assms(2) j by (auto simp: detranslate_sysnum_def Let_def)
qed

text \<open>C37: the number that is written for a system call of the table of the tracee's ABI, or for the
  avoider, reads back as the same system call, in the 64-bit, the 32-bit and the x32 mode.\<close>

theorem set_sysnum_read_back:
  assumes "s = PR_void \<or> s \<in> set (sn_table (get_sysnums (get_abi t)))"
  shows "get_sysnum (set_sysnum t s) CURRENT = Some s"
  using assms detranslate_in_table by (intro get_set_sysnum) blast

theorem set_sysnum_read_back_witness:
  "get_sysnum (set_sysnum sample_tracee ''openat'') CURRENT = Some ''openat''"
  by (rule set_sysnum_read_back) (simp add: get_sysnums_def sysnums_x86_64_def)

text \<open>The number right after each table passes the check of \<open>translate_sysnum\<close> and is read out
  of the array; every larger one, and every one below the offset of the table, is void.\<close>

lemma translate_sysnum_past_table:
  "translate_sysnum abi (sn_offset (get_sysnums abi) + sn_length (get_sysnums abi)) = None \<and>
   (\<forall>n. n > sn_offset (get_sysnums abi) + sn_length (get_sysnums abi) \<longrightarrow>
      translate_sysnum abi n = Some PR_void)"
proof
  show "translate_sysnum abi (sn_offset (get_sysnums abi) + sn_length (get_sysnums abi)) = None"
    by (cases abi) (simp_all add: translate_sysnum_def Let_def)
  show "\<forall>n. n > sn_offset (get_sysnums abi) + sn_length (get_sysnums abi) \<longrightarrow>
      translate_sysnum abi n = Some PR_void"
  proof (intro allI impI)
    fix n assume n: "n > sn_offset (get_sysnums abi) + sn_length (get_sysnums abi)"
    have "sn_length (get_sysnums abi) < n - sn_offset (get_sysnums abi)"
      using n by (cases "abi = ABI_3") (auto simp: word_less_nat_alt unat_sub_if_size word_size)
    then show "translate_sysnum abi n = Some PR_void" by (simp add: translate_sysnum_def Let_def)
  qed
qed

lemma translate_sysnum_past_table_witness:
  "translate_sysnum ABI_DEFAULT 440 = None \<and> translate_sysnum ABI_DEFAULT 441 = Some PR_void"
  using translate_sysnum_past_table[of ABI_DEFAULT] by simp

subsection \<open>Chained system calls\<close>

text \<open>C25: the calls registered for a tracee all run, in the order they were registered, with the
  numbers and arguments they were registered with; then the chain is gone and the forced result is
  what the tracee finds in its result register, whatever the kernel answered.\<close>

theorem chain_runs_in_order:
  assumes "native t" "chain_syscalls t = None" "calls \<noteq> []" "\<forall>(s, args)\<in>set calls. length args = 6"
  shows "\<exists>t'. chain_trace exec (Suc (length calls))
      (force_chain_final_result (fold (\<lambda>(s, args) t. register_chained_syscall t s args) calls t) result) =
      Some (map (\<lambda>(s, args). (detranslate_sysnum (get_abi t) s, args)) calls, t') \<and>
    peek_reg t' CURRENT SYSARG_RESULT = result \<and> chain_syscalls t' = None \<and> \<not> force_final_result t'"
proof -
  let ?t = "fold (\<lambda>(s, args) t. register_chained_syscall t s args) calls t"
  let ?u = "force_chain_final_result ?t result"
  let ?q = "map (\<lambda>(s, args). \<lparr>cs_sysnum = s, cs_sysargs = args\<rparr>) calls"
  have u: "native ?u" "chain_syscalls ?u = Some ?q" "get_abi ?u = get_abi t"
    "force_final_result ?u" "final_result ?u = result"
    using assms register_chain_frame[of calls t] register_chain[of calls t]
    by (simp_all add: force_chain_final_result_def native_def get_abi_def)
  have "\<forall>s\<in>set ?q. length (cs_sysargs s) = 6" using assms(4) by auto
  from chain_trace_order[OF u(1,2) this, of "Suc (length calls)" exec] u(3-5)
  show ?thesis by (auto simp: case_prod_unfold comp_def)
qed

theorem chain_runs_in_order_witness:
  "\<exists>t'. chain_trace (\<lambda>_. 5) 3
      (force_chain_final_result (fold (\<lambda>(s, args) t. register_chained_syscall t s args)
        [(''mremap'', [1, 2, 3, 4, 5, 6]), (''getpid'', [0, 0, 0, 0, 0, 0])] sample_tracee) 42) =
      Some ([(25, [1, 2, 3, 4, 5, 6]), (39, [0, 0, 0, 0, 0, 0])], t') \<and>
    peek_reg t' CURRENT SYSARG_RESULT = 42 \<and> chain_syscalls t' = None \<and> \<not> force_final_result t'"
  using chain_runs_in_order[of sample_tracee
      "[(''mremap'', [1, 2, 3, 4, 5, 6]), (''getpid'', [0, 0, 0, 0, 0, 0])]" "\<lambda>_. 5" 42]
  by (simp add: sample_tracee_def[THEN arg_cong[of _ _ chain_syscalls]] numeral_3_eq_3)

subsection \<open>Giving the registers back\<close>

lemma restore_regs_native:
  assumes "native t" "native (t\<lparr>regs := (regs t)(CURRENT := regs t ver)\<rparr>)" "ver \<noteq> CURRENT"
  shows "regs (fold (restore_reg ver) rs t) CURRENT =
    (\<lambda>h. if h \<in> reg_offset ` set rs then regs t ver h else regs t CURRENT h) \<and>
    (\<forall>v. v \<noteq> CURRENT \<longrightarrow> regs (fold (restore_reg ver) rs t) v = regs t v)"
  using assms
proof (induction rs arbitrary: t)
  case (Cons r rs)
  let ?u = "restore_reg ver r t"
  have h: "hw_of (regs t CURRENT) r = reg_offset r" "hw_of (regs t ver) r = reg_offset r"
    using native_simps(2)[OF Cons(2), of r] native_simps(2)[OF Cons(3), of r] by simp_all
  have u: "regs ?u CURRENT = (regs t CURRENT)(reg_offset r := regs t ver (reg_offset r))"
    "\<And>v. v \<noteq> CURRENT \<Longrightarrow> regs ?u v = regs t v"
    using h by (simp_all add: restore_reg_def Let_def)
  have ne: "reg_offset r \<noteq> CS" "reg_offset r \<noteq> DS" by (cases r; simp)+
  have "native ?u" "native (?u\<lparr>regs := (regs ?u)(CURRENT := regs ?u ver)\<rparr>)"
    using Cons(2-4) u ne by (simp_all add: native_def)
  note IH = Cons.IH[OF this Cons(4)]
  show ?case
    using IH u Cons(4) by (auto simp: fun_eq_iff)
qed auto

text \<open>C30: when a tracee leaves a system call that PRoot changed, the registers given to the kernel
  are its current ones, except that the number, the six arguments and the stack pointer are those
  it entered the call with: the tracee sees the result and nothing else.\<close>

theorem arguments_given_back:
  assumes "native t" "native (t\<lparr>regs := (regs t)(CURRENT := regs t ORIGINAL)\<rparr>)"
    "regs_were_changed t" "restore_original_regs t"
    "\<not> restore_original_regs_after_seccomp_event t"
  shows "\<exists>t'. push_specific_regs setregs w t =
      (fst (setregs w (pid t) (regs t' CURRENT)), t', snd (setregs w (pid t) (regs t' CURRENT))) \<and>
    regs t' CURRENT =
      (\<lambda>h. if h \<in> {ORIG_RAX, RDI, RSI, RDX, R10, R8, R9, RSP} then regs t ORIGINAL h
           else regs t CURRENT h)"
proof -
  let ?t = "t\<lparr>restore_original_regs_after_seccomp_event := False\<rparr>"
  let ?u = "fold (restore_reg ORIGINAL) restored_sysargs ?t"
  have "native ?t" "native (?t\<lparr>regs := (regs ?t)(CURRENT := regs ?t ORIGINAL)\<rparr>)"
    using assms(1,2) by (simp_all add: native_def)
  from restore_regs_native[OF this, of restored_sysargs]
  have r: "regs ?u CURRENT = (\<lambda>h. if h \<in> {ORIG_RAX, RDI, RSI, RDX, R10, R8, R9, RSP}
      then regs t ORIGINAL h else regs t CURRENT h)"
    by (auto simp: restored_sysargs_def fun_eq_iff)
  have p: "pid (fold (restore_reg ver) rs v) = pid v" for ver rs v
    by (induction rs arbitrary: v) (simp_all add: restore_reg_def Let_def)
  have "push_specific_regs setregs w t =
      (fst (setregs w (pid t) (regs ?u CURRENT)), ?u, snd (setregs w (pid t) (regs ?u CURRENT)))"
    using assms(3-5) by (simp add: push_specific_regs_def pushed_regs_def Let_def p split: prod.splits)
  then show ?thesis using r by blast
qed

theorem arguments_given_back_witness:
  "\<exists>t'. push_specific_regs (\<lambda>w p b. (None, b RDI)) 0
      (poke_reg (sample_tracee\<lparr>restore_original_regs := True\<rparr>) SYSARG_1 99) = (None, t', 0) \<and>
    regs t' CURRENT RDI = 0"
proof -
  let ?t = "poke_reg (sample_tracee\<lparr>restore_original_regs := True\<rparr>) SYSARG_1 99"
  have n: "native (sample_tracee\<lparr>restore_original_regs := True\<rparr>)"
    by (simp add: sample_tracee_def native_def)
  have t: "?t = sample_tracee\<lparr>restore_original_regs := True, regs_were_changed := True,
      regs := (regs sample_tracee)(CURRENT := (\<lambda>_. 0)(RDI := 99))\<rparr>"
    using native_simps(2,3)[OF n]
    by (simp add: poke_reg_def Let_def sample_tracee_def)
  show ?thesis
    using arguments_given_back[of ?t "\<lambda>w p b. (None, b RDI)" 0] unfolding t
    by (auto simp: native_def sample_tracee_def)
qed

subsection \<open>The heap\<close>

text \<open>C29: \<^verbatim>\<open>brk\<close> with an address in or above an existing heap moves the break there when the kernel
  resizes the mapping in place, and leaves it where it was otherwise; with an address below it
  only asks; in every case the tracee reads the resulting break.\<close>

theorem brk_moves_break:
  assumes "native t" "\<not> heap_disabled (heap t)" "heap_base (heap t) \<noteq> 0" "off \<noteq> 0"
  shows "\<exists>t'. brk_call exec ps maps off t = Some (off, t') \<and>
    peek_reg t' CURRENT SYSARG_RESULT = heap_break t' \<and>
    heap_break t' =
      (if heap_base (heap t) \<le> peek_reg t CURRENT SYSARG_1 \<and>
          \<not> is_errno_result (exec (resize_bank t off)) \<and>
          exec (resize_bank t off) + off = heap_base (heap t)
       then peek_reg t CURRENT SYSARG_1 else heap_break t)"
proof (cases "heap_base (heap t) \<le> regs t CURRENT RDI")
  case True
  obtain t' where t': "brk_call exec ps maps off t = Some (off, t')"
    "peek_reg t' CURRENT SYSARG_RESULT = heap_break t'"
    "if is_errno_result (exec (resize_bank t off)) \<or>
        exec (resize_bank t off) + off \<noteq> heap_base (heap t) then heap t' = heap t
     else heap t' = (heap t)\<lparr>heap_size := regs t CURRENT RDI - heap_base (heap t)\<rparr>"
    using brk_call_resize[OF assms True refl, of exec ps maps] by blast
  have "heap_break t' = (if is_errno_result (exec (resize_bank t off)) \<or>
      exec (resize_bank t off) + off \<noteq> heap_base (heap t) then heap_break t else regs t CURRENT RDI)"
    using t'(3) by (simp add: heap_break_def split: if_splits)
  then show ?thesis using t'(1,2) assms(1) True by (auto simp: native_simps)
next
  case False
  then have "regs t CURRENT RDI < heap_base (heap t)" by simp
  from brk_call_query[OF assms this, of exec ps maps] show ?thesis
    using assms(1) False by (auto simp: native_simps heap_break_def)
qed

theorem brk_moves_break_witness:
  "\<exists>t'. brk_call (\<lambda>b. b RDI) 4096 [(0x1000, 0x2000)] 4096
      (poke_reg (sample_tracee\<lparr>heap := \<lparr>heap_base = 0x10000, heap_size = 0, heap_disabled = False\<rparr>\<rparr>)
        SYSARG_1 0x12345) = Some (4096, t') \<and>
    peek_reg t' CURRENT SYSARG_RESULT = heap_break t' \<and> heap_break t' = 0x12345"
proof -
  define s where "s = sample_tracee\<lparr>heap := \<lparr>heap_base = 0x10000, heap_size = 0, heap_disabled = False\<rparr>\<rparr>"
  have n: "native s" "heap s = \<lparr>heap_base = 0x10000, heap_size = 0, heap_disabled = False\<rparr>"
    by (simp_all add: s_def sample_tracee_def native_def)
  let ?t = "poke_reg s SYSARG_1 0x12345"
  have t: "native ?t" "heap ?t = heap s" "peek_reg ?t CURRENT SYSARG_1 = 0x12345"
    "resize_bank ?t 4096 RDI = 0xF000"
    using n by (simp_all add: native_simps resize_bank_def)
  show ?thesis
    using brk_moves_break[of ?t 4096 "\<lambda>b. b RDI" 4096 "[(0x1000, 0x2000)]"] n t
    by (simp add: is_errno_result_def c_int_def flip: s_def)
qed

text \<open>C36: the first \<^verbatim>\<open>brk(0)\<close> creates an empty heap of one reserved page behind the last mapping;
  the break it reports is the address of the heap, or 0 when the kernel refuses the mapping.\<close>

theorem brk_creates_heap:
  assumes "native t" "\<not> heap_disabled (heap t)" "heap_base (heap t) = 0"
    "peek_reg t CURRENT SYSARG_1 = 0" "off = init_heap_offset ps 0" "off \<noteq> 0"
    "r = exec (create_bank t off (fst (last maps) + snd (last maps)))"
  shows "\<exists>t'. brk_call exec ps maps 0 t = Some (off, t') \<and>
    (if is_errno_result r then heap t' = heap t \<and> peek_reg t' CURRENT SYSARG_RESULT = 0
     else heap_break t' = r + off \<and> heap_size (heap t') = 0 \<and>
       peek_reg t' CURRENT SYSARG_RESULT = r + off)"
proof -
  have "regs t CURRENT RDI = 0" using assms(1,4) by (simp add: native_simps)
  from brk_call_create[OF assms(1-3) this assms(5,6), where exec = exec and maps = maps, OF assms(7)]
  obtain t' where t': "brk_call exec ps maps 0 t = Some (off, t')"
    "if is_errno_result r then heap t' = heap t \<and> peek_reg t' CURRENT SYSARG_RESULT = 0
     else heap t' = (heap t)\<lparr>heap_base := r + off, heap_size := 0\<rparr> \<and>
       peek_reg t' CURRENT SYSARG_RESULT = r + off"
    by blast
  then show ?thesis by (intro exI[of _ t']) (simp add: heap_break_def split: if_splits)
qed

theorem brk_creates_heap_witness:
  "\<exists>t'. brk_call (\<lambda>b. 0x7000) 4096 [(0x1000, 0x2000)] 0 sample_tracee = Some (4096, t') \<and>
    heap_break t' = 0x8000 \<and> peek_reg t' CURRENT SYSARG_RESULT = 0x8000"
proof -
  have h: "heap sample_tracee = \<lparr>heap_base = 0, heap_size = 0, heap_disabled = False\<rparr>"
    "peek_reg sample_tracee CURRENT SYSARG_1 = 0"
    using native_simps(3)[OF sample_native(1)] by (simp_all add: sample_tracee_def)
  have o: "init_heap_offset 4096 0 = 4096" by (simp add: init_heap_offset_def)
  show ?thesis
    using brk_creates_heap[OF sample_native(1) _ _ h(2) o[symmetric] _ refl,
        of "\<lambda>b. 0x7000" "[(0x1000, 0x2000)]"] h(1)
    by (auto simp: is_errno_result_def c_int_def)
qed

end
