(* ===== verification/Push_Properties.thy ===== *)
theory Push_Properties
  imports Xpointer_Lemmas Memory_Properties Syscall_Properties
begin

section \<open>Pushing an array of pointers\<close>

lemma sizeof_word_poke [simp]: "sizeof_word (poke_reg t r v) = sizeof_word t"
  by (simp add: sizeof_word_def is_32on64_mode_def poke_reg_def Let_def)

lemma xp_local_absolute [simp]: "xp_local (absolute_pointer p x) = xp_local x"
  by (simp add: absolute_pointer_def)

text \<open>Where \<open>alloc_mem\<close> puts a block: below the stack pointer, without wrapping.\<close>

lemma alloc_mem_below:
  assumes "alloc_mem t count = Some (p, t')" "p \<noteq> 0" "0 < count"
  shows "t' = poke_reg t STACK_POINTER p \<and> uint p + count \<le> uint (peek_reg t CURRENT STACK_POINTER)"
proof -
  let ?sp = "peek_reg t CURRENT STACK_POINTER"
  define c where "c = (if ?sp = peek_reg t ORIGINAL STACK_POINTER then count + RED_ZONE_SIZE else count)"
  have c: "count \<le> c" "0 < c" using assms(3) by (simp_all add: c_def RED_ZONE_SIZE_def)
  have a: "alloc_mem t count =
      (if tr_status t \<noteq> 0 then None
       else if c > 0 \<and> uint ?sp \<le> c \<or> c < 0 \<and> uint ?sp \<ge> 2 ^ 64 - 1 + c then Some (0, t)
       else Some (?sp - of_int c, poke_reg t STACK_POINTER (?sp - of_int c)))"
    by (simp add: alloc_mem_def Let_def c_def)
  have s: "\<not> uint ?sp \<le> c" "p = ?sp - of_int c" "t' = poke_reg t STACK_POINTER p"
    using assms(1,2) c(2) unfolding a by (auto split: if_splits)
  have "uint (of_int c :: word_t) = c"
    using s(1) c(2) uint_lt2p[of ?sp] by (simp add: uint_word_of_int)
  then have "uint p = uint ?sp - c" using s(1,2) by (simp add: uint_sub_if')
  then show ?thesis using s(3) c(1) by simp
qed

lemma store_bytes_above:
  assumes "uint p + int (length bs) \<le> uint sp" "sp \<le> a"
  shows "store_bytes m p bs a = m a"
proof (rule store_bytes_other)
  fix i assume i: "i < length bs"
  then have "uint p + int i < uint sp" "uint p + int i < 2 ^ 64"
    using assms(1) uint_lt2p[of sp] by simp_all
  moreover from this have "int i < 2 ^ 64" using uint_ge_0[of p] by linarith
  then have "uint (of_nat i :: word_t) = int i" by (simp add: unsigned_of_nat take_bit_nat_eq_self)
  ultimately have "uint (p + of_nat i) = uint p + int i" by (simp add: uint_word_ariths)
  then show "a \<noteq> p + of_nat i"
    using assms i by (auto simp: Word.word_le_def)
qed

text \<open>The block of an array, and what one of its entries stands for in the memory.\<close>

definition entry_in_memory :: "memory \<Rightarrow> nat \<Rightarrow> word_t \<Rightarrow> xpointer \<Rightarrow> bool" where
  "entry_in_memory m n address x =
     (\<exists>q. load_bytes m address n = Some (bytes_le n q) \<and>
        (case xp_local x of
           None \<Rightarrow> q = xp_remote x
         | Some s \<Rightarrow> load_bytes m q (length s + 1) = Some (bytes_of s @ [0])))"

lemma placed_entry_in_memory:
  assumes "length bs \<le> 2 ^ 64" "bs = pod_array t (map (absolute_pointer p) ys) @ block"
    and "list_all2 (entry_placed block (length xs * sizeof_word t)) xs ys" "i < length xs"
  shows "entry_in_memory (store_bytes m p bs) (sizeof_word t) (p + of_nat (i * sizeof_word t)) (xs ! i)"
proof -
  let ?n = "sizeof_word t" and ?m = "store_bytes m p bs" and ?y = "absolute_pointer p (ys ! i)"
  have l: "length ys = length xs" using assms(3) by (simp add: list_all2_lengthD)
  have e: "entry_placed block (length xs * ?n) (xs ! i) (ys ! i)"
    using list_all2_nthD[OF assms(3,4)] .
  have "i * ?n + ?n \<le> length xs * ?n" using assms(4) mult_le_mono1[of "Suc i" "length xs" ?n] by simp
  then have "load_bytes ?m (p + of_nat (i * ?n)) ?n = Some (bytes_le ?n (xp_remote ?y))"
    using load_store_slice[OF assms(1), of "i * ?n" ?n m p] pod_array_nth[of i "map (absolute_pointer p) ys" t]
      assms(2,4) l by simp
  moreover have "load_bytes ?m (xp_remote ?y) (length s + 1) = Some (bytes_of s @ [0])"
    if s: "xp_local (xs ! i) = Some s" for s
  proof -
    obtain k where k: "ys ! i = (xs ! i)\<lparr>xp_remote := of_nat (length xs * ?n + k)\<rparr>"
      "k + length s + 1 \<le> length block" "take (length s + 1) (drop k block) = bytes_of s @ [0]"
      using e s by (auto simp: entry_placed_def)
    then have "xp_remote ?y = p + of_nat (length xs * ?n + k)"
      using s by (simp add: absolute_pointer_def)
    then show ?thesis
      using load_store_slice[OF assms(1), of "length xs * ?n + k" "length s + 1" m p] k(2,3) assms(2) l by simp
  qed
  moreover have "xp_remote ?y = xp_remote (xs ! i)" if "xp_local (xs ! i) = None"
    using e that by (simp add: entry_placed_def absolute_pointer_def)
  ultimately show ?thesis
    unfolding entry_in_memory_def by (intro exI[of _ "xp_remote ?y"]) (auto split: option.splits)
qed

text \<open>
  C19: when an array with a string of the tracer is pushed, the register gets the address of a block
  below the stack pointer whose words are, entry by entry, the pointer the tracee had or the address
  of a copy of the tracer's string; nothing at or above the stack pointer changes.
\<close>

theorem push_array_image:
  assumes "push_array_of_xpointers vm m t array reg = Some (None, t', m')" "x \<in> set array" "xp_local x \<noteq> None"
  shows "\<exists>p. t' = poke_reg (poke_reg t STACK_POINTER p) reg p \<and>
    (\<forall>i<length array. entry_in_memory m' (sizeof_word t) (p + of_nat (i * sizeof_word t)) (array ! i)) \<and>
    (\<forall>a\<ge>peek_reg t CURRENT STACK_POINTER. m' a = m a)"
proof -
  obtain ys local total_size where lay: "layout_strings array (length array * sizeof_word t) = (ys, local, total_size)"
    by (cases "layout_strings array (length array * sizeof_word t)") auto
  note placed = layout_strings_placed[OF lay]
  have ne: "local \<noteq> []" using placed assms(2,3) by auto
  obtain p t1 where p: "alloc_mem t (int total_size) = Some (p, t1)" "p \<noteq> 0" and
    w: "writev_data vm m p (pod_array t1 (map (absolute_pointer p) ys) # local) = (None, m')" and
    t': "t' = poke_reg t1 reg p"
    using assms(1) lay ne by (auto simp: push_array_of_xpointers_def Let_def split: if_splits option.splits prod.splits)
  let ?bs = "pod_array t (map (absolute_pointer p) ys) @ concat local"
  have l: "length ?bs = total_size" using placed list_all2_lengthD by fastforce
  have "0 < total_size" using placed ne assms(2) by (cases array) (auto simp: sizeof_word_def)
  then have b: "t1 = poke_reg t STACK_POINTER p"
    "uint p + int (length ?bs) \<le> uint (peek_reg t CURRENT STACK_POINTER)"
    using alloc_mem_below[OF p] l by simp_all
  have m': "m' = store_bytes m p ?bs"
    using writev_data_stored[OF w] b(1) by (simp add: pod_array_def)
  have "uint (peek_reg t CURRENT STACK_POINTER) < 18446744073709551616"
    using uint_lt2p[of "peek_reg t CURRENT STACK_POINTER"] by simp
  then have "int total_size < 18446744073709551616"
    using b(2)[unfolded l] uint_ge_0[of p] by linarith
  then have "total_size \<le> 2 ^ 64" by simp
  then have "length ?bs \<le> 2 ^ 64" unfolding l .
  then have "\<forall>i<length array. entry_in_memory m' (sizeof_word t) (p + of_nat (i * sizeof_word t)) (array ! i)"
    using placed_entry_in_memory[OF _ refl] placed m' by blast
  moreover have "\<forall>a\<ge>peek_reg t CURRENT STACK_POINTER. m' a = m a"
    using store_bytes_above[OF b(2)] m' by blast
  ultimately show ?thesis using b(1) t' by blast
qed

text \<open>A tracee with a stack, and an array whose first entry the tracer has replaced.\<close>

definition stack_tracee :: tracee where
  "stack_tracee = sample_tracee\<lparr>regs := \<lambda>_. (\<lambda>_. 0)(RSP := 256)\<rparr>"

definition stack_memory :: memory where
  "stack_memory a = (if a < 256 then Some 0 else None)"

definition small_argv :: xarray where
  "small_argv = [\<lparr>xp_remote = 9, xp_local = Some ''sh''\<rparr>, \<lparr>xp_remote = 7, xp_local = None\<rparr>]"

lemma small_push:
  "map_option fst (push_array_of_xpointers closed_vm stack_memory stack_tracee small_argv SYSARG_2) = Some None"
  by code_simp

theorem push_array_image_witness:
  "\<exists>m' p. push_array_of_xpointers closed_vm stack_memory stack_tracee small_argv SYSARG_2 =
      Some (None, poke_reg (poke_reg stack_tracee STACK_POINTER p) SYSARG_2 p, m') \<and>
    entry_in_memory m' 8 p (small_argv ! 0)"
proof -
  obtain t' m' where push: "push_array_of_xpointers closed_vm stack_memory stack_tracee small_argv SYSARG_2 =
      Some (None, t', m')"
    using small_push by auto
  have w: "sizeof_word stack_tracee = 8" by code_simp
  show ?thesis
    using push_array_image[OF push, of "small_argv ! 0"] push by (fastforce simp: w small_argv_def)
qed

end
