(* ===== verification/Shebang.thy ===== *)
theory Shebang
  imports Xpointers Translate
begin

section \<open>Scripts\<close>

text \<open>
  \<^verbatim>\<open>execve/shebang.c\<close>, and \<open>translate_and_check_exec\<close> of \<^verbatim>\<open>execve/enter.c\<close>: the first line of a script
  names its interpreter and at most one argument, and \<^verbatim>\<open>argv[]\<close> is expanded until the program to run
  is not a script any more.  A file is the string of its bytes; a read that fails in the middle of
  one is left out.
\<close>

text \<open>The value of \<^verbatim>\<open>linux/binfmts.h\<close>.\<close>

definition BINPRM_BUF_SIZE :: nat where "BINPRM_BUF_SIZE = 256"

abbreviation TAB :: char where "TAB \<equiv> CHR 0x09"
abbreviation NL :: char where "NL \<equiv> CHR 0x0A"
abbreviation CR :: char where "CR \<equiv> CHR 0x0D"

definition is_blank :: "char \<Rightarrow> bool" where
  "is_blank c = (c = CHR '' '' \<or> c = TAB)"

definition cstring :: "string \<Rightarrow> string" where
  "cstring buffer = takeWhile (\<lambda>c. c \<noteq> NUL) buffer"

subsection \<open>extract\_shebang\<close>

text \<open>
  \<open>current_length\<close> is the number of characters read.  A buffer is the list of the characters written
  to it so far, so that \<open>i\<close> is its length; \<open>tmp\<close> is the character read last and \<open>rest\<close> what follows.
\<close>

fun skip_blanks :: "nat \<Rightarrow> string \<Rightarrow> (char \<times> string \<times> nat) option" where
  "skip_blanks current_length [] = None"
| "skip_blanks current_length (tmp # rest) =
     (if is_blank tmp \<and> Suc current_length < BINPRM_BUF_SIZE then skip_blanks (Suc current_length) rest
      else Some (tmp, rest, Suc current_length))"

text \<open>\<open>argument[0]\<close> is never removed.\<close>

definition remove_trailing_blanks :: "string \<Rightarrow> string" where
  "remove_trailing_blanks argument = take 1 argument @ rev (dropWhile is_blank (rev (drop 1 argument)))"

fun slurp_argument :: "nat \<Rightarrow> string \<Rightarrow> char \<Rightarrow> string \<Rightarrow> string" where
  "slurp_argument current_length argument tmp rest =
     (if current_length \<ge> BINPRM_BUF_SIZE then cstring argument
      else if tmp = NL \<or> tmp = CR then cstring (remove_trailing_blanks argument)
      else
        (case rest of
           [] \<Rightarrow> []
         | c # cs \<Rightarrow> slurp_argument (Suc current_length) (argument @ [tmp]) c cs))"

fun slurp_path :: "nat \<Rightarrow> string \<Rightarrow> char \<Rightarrow> string \<Rightarrow> string \<times> string" where
  "slurp_path current_length path tmp rest =
     (if current_length \<ge> BINPRM_BUF_SIZE then (cstring path, [])
      else if tmp = NL \<or> tmp = CR then (cstring path, [])
      else if \<not> is_blank tmp \<and> length path > 1 \<and> last path = NUL
      then (cstring path, slurp_argument current_length [] tmp rest)
      else
        (case rest of
           [] \<Rightarrow> (cstring path, [])
         | c # cs \<Rightarrow>
             slurp_path (Suc current_length) (path @ [if is_blank tmp then NUL else tmp]) c cs))"

declare slurp_argument.simps [simp del] slurp_path.simps [simp del]

text \<open>The interpreter and its argument, \<open>None\<close> for a file that is not a script.\<close>

definition extract_shebang :: "string \<Rightarrow> (string \<times> string) option result" where
  "extract_shebang content =
     (if take 2 content \<noteq> ''#!'' then Inr None
      else
        (case skip_blanks 2 (drop 2 content) of
           None \<Rightarrow> Inl ENOEXEC
         | Some (tmp, rest, current_length) \<Rightarrow> Inr (Some (slurp_path current_length [] tmp rest))))"

subsection \<open>expand\_shebang\<close>

text \<open>\<open>access\<close> answers whether the file exists and whether it may be executed.\<close>

definition translate_and_check_exec ::
  "'w os \<Rightarrow> ('w \<Rightarrow> string \<Rightarrow> bool option) \<Rightarrow> 'w st \<Rightarrow> string \<Rightarrow> string result \<times> 'w st" where
  "translate_and_check_exec os access s user_path =
     (if cchar user_path 0 = NUL then (Inl ENOEXEC, s)
      else
        (case translate_path os s AT_FDCWD user_path True of
           (Inl e, s) \<Rightarrow> (Inl e, s)
         | (Inr host_path, s) \<Rightarrow>
             (case access (snd s) host_path of
                None \<Rightarrow> (Inl ENOENT, s)
              | Some executable \<Rightarrow>
                  (if \<not> executable then (Inl EACCES, s)
                   else
                     (case os_lstat os (snd s) host_path of
                        Inl e \<Rightarrow> (Inl EPERM, s)
                      | Inr ty \<Rightarrow> (Inr host_path, s))))))"

text \<open>The new first entries: the interpreter, its argument if there is one, the script.\<close>

definition insert_interpreter :: "xarray \<Rightarrow> string \<Rightarrow> string \<Rightarrow> string \<Rightarrow> xarray option" where
  "insert_interpreter argv user_path argument old_user_path =
     (let empty_argv = (if length argv = 1 then 1 else 0) in
      if argument \<noteq> [] then
        (case resize_array_of_xpointers argv 0 (2 + empty_argv) of
           None \<Rightarrow> None
         | Some argv \<Rightarrow> write_xpointees argv 0 [user_path, argument, old_user_path])
      else
        (case resize_array_of_xpointers argv 0 (1 + empty_argv) of
           None \<Rightarrow> None
         | Some argv \<Rightarrow> write_xpointees argv 0 [user_path, old_user_path]))"

text \<open>
  \<open>n\<close> turns are left; \<open>argv\<close> is \<open>None\<close> until it is fetched.  The result is the status, the host and
  the user path and the array, and again \<open>None\<close> is a failed assertion.
\<close>

fun expand_shebang_loop ::
  "'w os \<Rightarrow> ('w \<Rightarrow> string \<Rightarrow> bool option) \<Rightarrow> ('w \<Rightarrow> string \<Rightarrow> string result) \<Rightarrow> xarray result option \<Rightarrow>
     nat \<Rightarrow> 'w st \<Rightarrow> string \<Rightarrow> xarray option \<Rightarrow>
     ((string \<times> string \<times> xarray option) result \<times> 'w st) option" where
  "expand_shebang_loop os access read_file fetched 0 s user_path argv = Some (Inl ELOOP, s)"
| "expand_shebang_loop os access read_file fetched (Suc n) s user_path argv =
     (case translate_and_check_exec os access s user_path of
        (Inl e, s) \<Rightarrow> Some (Inl e, s)
      | (Inr host_path, s) \<Rightarrow>
          (case (case read_file (snd s) host_path of Inl e \<Rightarrow> Inl e | Inr content \<Rightarrow> extract_shebang content) of
             Inl e \<Rightarrow> Some (Inl e, s)
           | Inr None \<Rightarrow> Some (Inr (host_path, user_path, argv), s)
           | Inr (Some (interpreter, argument)) \<Rightarrow>
               (case translate_and_check_exec os access s interpreter of
                  (Inl e, s) \<Rightarrow> Some (Inl e, s)
                | (Inr _, s) \<Rightarrow>
                    (case (case argv of Some array \<Rightarrow> Some (Inr array) | None \<Rightarrow> fetched) of
                       None \<Rightarrow> None
                     | Some (Inl e) \<Rightarrow> Some (Inl e, s)
                     | Some (Inr array) \<Rightarrow>
                         (case insert_interpreter array interpreter argument user_path of
                            None \<Rightarrow> None
                          | Some array \<Rightarrow>
                              expand_shebang_loop os access read_file fetched n s interpreter
                                (Some array))))))"

text \<open>
  The whole function: on success whether there was a script, the two paths, and the tracee with its
  memory after the array was pushed.
\<close>

definition expand_shebang ::
  "'w os \<Rightarrow> ('w \<Rightarrow> string \<Rightarrow> bool option) \<Rightarrow> ('w \<Rightarrow> string \<Rightarrow> string result) \<Rightarrow> process_vm \<Rightarrow>
     'w st \<Rightarrow> tracee \<Rightarrow> memory \<Rightarrow> string \<Rightarrow>
     ((bool \<times> string \<times> string) result \<times> 'w st \<times> tracee \<times> memory) option" where
  "expand_shebang os access read_file vm s t m user_path =
     (case expand_shebang_loop os access read_file (fetch_array_of_xpointers vm m t SYSARG_2 0)
             MAXSYMLINKS s user_path None of
        None \<Rightarrow> None
      | Some (Inl e, s) \<Rightarrow> Some (Inl e, s, t, m)
      | Some (Inr (host_path, user_path, None), s) \<Rightarrow> Some (Inr (False, host_path, user_path), s, t, m)
      | Some (Inr (host_path, user_path, Some argv), s) \<Rightarrow>
          (case push_array_of_xpointers vm m t argv SYSARG_2 of
             None \<Rightarrow> None
           | Some (Some e, t, m) \<Rightarrow> Some (Inl e, s, t, m)
           | Some (None, t, m) \<Rightarrow> Some (Inr (True, host_path, user_path), s, t, m)))"

end
