(* ===== verification/Shebang_Properties.thy ===== *)
theory Shebang_Properties
  imports Shebang Path_Examples
begin

section \<open>Properties of the expansion of scripts\<close>

subsection \<open>The first line\<close>

definition word_char :: "char \<Rightarrow> bool" where
  "word_char c = (\<not> is_blank c \<and> c \<noteq> NL \<and> c \<noteq> CR \<and> c \<noteq> NUL)"

definition line_char :: "char \<Rightarrow> bool" where
  "line_char c = (c \<noteq> NL \<and> c \<noteq> CR \<and> c \<noteq> NUL)"

text \<open>
  The parts of a first line: blanks, the interpreter, blanks and the argument with the blanks after
  it.
\<close>

definition shebang_line :: "string \<Rightarrow> string \<Rightarrow> string \<Rightarrow> string \<Rightarrow> bool" where
  "shebang_line b0 path b1 arg =
     (list_all is_blank (b0 @ b1) \<and> path \<noteq> [] \<and> list_all word_char path \<and> list_all line_char arg \<and>
      (arg \<noteq> [] \<longrightarrow> b1 \<noteq> [] \<and> \<not> is_blank (hd arg)) \<and>
      length (b0 @ path @ b1 @ arg) + 3 < BINPRM_BUF_SIZE)"

lemma blank_not_end [simp]: "is_blank c \<Longrightarrow> c \<noteq> NL" "is_blank c \<Longrightarrow> c \<noteq> CR"
  by (auto simp: is_blank_def)

lemma skip_blanks_word:
  "list_all is_blank b \<Longrightarrow> \<not> is_blank c \<Longrightarrow> n + length b < BINPRM_BUF_SIZE \<Longrightarrow>
   skip_blanks n (b @ c # rest) = Some (c, rest, n + length b + 1)"
  by (induction b arbitrary: n) auto

lemma last_not_nul: "NUL \<notin> set p \<Longrightarrow> 1 < length p \<Longrightarrow> last p \<noteq> NUL"
  by (cases p rule: rev_cases) auto

lemma slurp_path_word:
  "list_all word_char (c # cs) \<Longrightarrow> NUL \<notin> set p \<Longrightarrow> n + length cs < BINPRM_BUF_SIZE \<Longrightarrow>
   slurp_path n p c (cs @ d # rest) = slurp_path (n + length cs + 1) (p @ c # cs) d rest"
proof (induction cs arbitrary: n p c)
  case Nil
  then show ?case using last_not_nul[of p] by (subst slurp_path.simps) (auto simp: word_char_def)
next
  case (Cons x xs)
  have "slurp_path n p c ((x # xs) @ d # rest) = slurp_path (Suc n) (p @ [c]) x (xs @ d # rest)"
    using Cons.prems last_not_nul[of p] by (subst slurp_path.simps) (auto simp: word_char_def)
  then show ?case using Cons.IH[of x "p @ [c]" "Suc n"] Cons.prems by (auto simp: word_char_def)
qed

lemma slurp_path_blanks:
  "list_all is_blank (c # cs) \<Longrightarrow> n + length cs < BINPRM_BUF_SIZE \<Longrightarrow>
   slurp_path n p c (cs @ d # rest) = slurp_path (n + length cs + 1) (p @ replicate (length cs + 1) NUL) d rest"
proof (induction cs arbitrary: n p c)
  case Nil
  then show ?case by (subst slurp_path.simps) auto
next
  case (Cons x xs)
  have "slurp_path n p c ((x # xs) @ d # rest) = slurp_path (Suc n) (p @ [NUL]) x (xs @ d # rest)"
    using Cons.prems by (subst slurp_path.simps) auto
  then show ?case using Cons.IH[of x "Suc n" "p @ [NUL]"] Cons.prems by simp
qed

lemma slurp_argument_line:
  "list_all line_char (c # cs) \<Longrightarrow> n + length cs < BINPRM_BUF_SIZE \<Longrightarrow>
   slurp_argument n g c (cs @ d # rest) = slurp_argument (n + length cs + 1) (g @ c # cs) d rest"
proof (induction cs arbitrary: n g c)
  case Nil
  then show ?case by (subst slurp_argument.simps) (auto simp: line_char_def)
next
  case (Cons x xs)
  have "slurp_argument n g c ((x # xs) @ d # rest) = slurp_argument (Suc n) (g @ [c]) x (xs @ d # rest)"
    using Cons.prems by (subst slurp_argument.simps) (auto simp: line_char_def)
  then show ?case using Cons.IH[of x "Suc n" "g @ [c]"] Cons.prems by simp
qed

lemma slurp_argument_eof:
  "list_all line_char (c # cs) \<Longrightarrow> n + length cs < BINPRM_BUF_SIZE \<Longrightarrow> slurp_argument n g c cs = []"
proof (induction cs arbitrary: n g c)
  case Nil
  then show ?case by (subst slurp_argument.simps) (auto simp: line_char_def)
next
  case (Cons x xs)
  have "slurp_argument n g c (x # xs) = slurp_argument (Suc n) (g @ [c]) x xs"
    using Cons.prems by (subst slurp_argument.simps) (auto simp: line_char_def)
  then show ?case using Cons.IH[of x "Suc n" "g @ [c]"] Cons.prems by simp
qed

lemma cstring_Nil [simp]: "cstring [] = []"
  by (simp add: cstring_def)

lemma cstring_replicate [simp]: "cstring (replicate n NUL) = []"
  by (cases n) (simp_all add: cstring_def)

lemma cstring_no_nul: "NUL \<notin> set s \<Longrightarrow> cstring (s @ replicate n NUL) = s"
  unfolding cstring_def by (subst takeWhile_append2) (auto simp flip: cstring_def)

lemma no_nul:
  "list_all word_char s \<Longrightarrow> NUL \<notin> set s" "list_all line_char s \<Longrightarrow> NUL \<notin> set s"
  by (auto simp: list_all_iff word_char_def line_char_def)

text \<open>What follows the interpreter: the end of the line, or blanks before it or before an argument.\<close>

lemma slurp_path_end:
  "n < BINPRM_BUF_SIZE \<Longrightarrow> slurp_path n p NL rest = (cstring p, [])"
  by (subst slurp_path.simps) simp

lemma slurp_path_argument:
  "n < BINPRM_BUF_SIZE \<Longrightarrow> line_char c \<Longrightarrow> \<not> is_blank c \<Longrightarrow> length p > 1 \<Longrightarrow> last p = NUL \<Longrightarrow>
   slurp_path n p c rest = (cstring p, slurp_argument n [] c rest)"
  by (subst slurp_path.simps) (simp add: line_char_def)

lemma rtrim_hd:
  assumes "arg \<noteq> []" "\<not> is_blank (hd arg)"
  shows "remove_trailing_blanks arg = rev (dropWhile is_blank (rev arg))"
proof (cases arg)
  case (Cons a as)
  then have "dropWhile is_blank (rev as @ [a]) = dropWhile is_blank (rev as) @ [a]"
    using assms(2) by (simp add: dropWhile_append3)
  then show ?thesis using Cons by (simp add: remove_trailing_blanks_def)
qed (use assms in simp)

subsection \<open>Whole first lines\<close>

lemma slurp_path_after_path:
  assumes "shebang_line b0 path b1 arg" "path @ b1 @ d # rest = c # cs"
    and n: "n + length (path @ b1) < BINPRM_BUF_SIZE"
  shows "slurp_path n [] c cs = slurp_path (n + length (path @ b1)) (path @ replicate (length b1) NUL) d rest"
proof -
  obtain ps where p: "path = c # ps" using assms(1,2) by (cases path) (auto simp: shebang_line_def)
  have w: "list_all word_char (c # ps)" and b: "list_all is_blank b1"
    using assms(1) p by (simp_all add: shebang_line_def)
  show ?thesis
  proof (cases b1)
    case Nil
    then have "cs = ps @ d # rest" using assms(2) p by simp
    then show ?thesis using slurp_path_word[OF w, of "[]" n d rest] n p Nil by simp
  next
    case (Cons e es)
    then have cs: "cs = ps @ e # es @ d # rest" using assms(2) p by simp
    have "slurp_path n [] c cs = slurp_path (n + length path) path e (es @ d # rest)"
      unfolding cs using slurp_path_word[OF w, of "[]" n e "es @ d # rest"] n p by simp
    then show ?thesis
      using slurp_path_blanks[of e es "n + length path" path d rest] b n Cons by (simp add: add.assoc)
  qed
qed

text \<open>
  C21: \<open>extract_shebang\<close> splits a first line that ends with a newline and fits into its buffer into the
  interpreter and one argument, which keeps its inner blanks and loses the blanks around it.
\<close>

theorem extract_shebang_first_line:
  assumes "shebang_line b0 path b1 arg"
  shows "extract_shebang (''#!'' @ b0 @ path @ b1 @ arg @ NL # rest) =
    Inr (Some (path, rev (dropWhile is_blank (rev arg))))"
proof -
  obtain c ps where p: "path = c # ps" using assms by (cases path) (auto simp: shebang_line_def)
  obtain d ds where d: "arg @ NL # rest = d # ds" by (cases arg) auto
  let ?cs = "ps @ b1 @ arg @ NL # rest" and ?n = "length b0 + 3"
  have n: "?n + length (path @ b1 @ arg) < BINPRM_BUF_SIZE" and c: "\<not> is_blank c"
    and nul: "NUL \<notin> set path" "NUL \<notin> set arg" and b0: "list_all is_blank b0"
    using assms p no_nul[of path] no_nul[of arg] by (auto simp: shebang_line_def word_char_def)
  have skip: "skip_blanks 2 (b0 @ c # ?cs) = Some (c, ?cs, ?n)"
    using skip_blanks_word[OF b0 c, of 2 ?cs] n by simp
  have path: "slurp_path ?n [] c ?cs =
      slurp_path (?n + length (path @ b1)) (path @ replicate (length b1) NUL) d ds"
    by (rule slurp_path_after_path[OF assms]) (use p d n in simp_all)
  have "slurp_path ?n [] c ?cs = (path, rev (dropWhile is_blank (rev arg)))"
  proof (cases arg)
    case Nil
    then show ?thesis using path d n slurp_path_end cstring_no_nul[OF nul(1)] by simp
  next
    case (Cons a as)
    then have a: "\<not> is_blank a" "line_char a" "list_all line_char (a # as)" "b1 \<noteq> []" "d = a" "ds = as @ NL # rest"
      using assms d by (auto simp: shebang_line_def)
    have "slurp_path (?n + length (path @ b1)) (path @ replicate (length b1) NUL) d ds =
        (path, slurp_argument (?n + length (path @ b1)) [] a (as @ NL # rest))"
      unfolding a(5,6)
      by (subst slurp_path_argument)
        (use a(1,2,4) n p Cons cstring_no_nul[OF nul(1)] in \<open>auto simp: last_append neq_Nil_conv\<close>)
    also have "slurp_argument (?n + length (path @ b1)) [] a (as @ NL # rest) =
        slurp_argument (?n + length (path @ b1) + length arg) arg NL rest"
      using slurp_argument_line[OF a(3), of "?n + length (path @ b1)" "[]" NL rest] n Cons
      by (simp add: add.assoc)
    also have "\<dots> = cstring (remove_trailing_blanks arg)"
      using n by (subst slurp_argument.simps) simp
    also have "\<dots> = rev (dropWhile is_blank (rev arg))"
      using cstring_no_nul[of "rev (dropWhile is_blank (rev arg))" 0] rtrim_hd[of arg] a Cons nul(2)
        set_dropWhileD[of _ is_blank "rev arg"] by auto
    finally show ?thesis using path by simp
  qed
  then show ?thesis using skip p by (simp add: extract_shebang_def)
qed

theorem extract_shebang_first_line_witness:
  "extract_shebang (''#! /bin/sh'' @ [TAB] @ ''-e -x '' @ [NL] @ ''exit'') = Inr (Some (''/bin/sh'', ''-e -x''))"
proof -
  have "shebang_line '' '' ''/bin/sh'' [TAB] ''-e -x ''" by code_simp
  note l = extract_shebang_first_line[OF this, of "''exit''"]
  have "rev (dropWhile is_blank (rev ''-e -x '')) = ''-e -x''" by code_simp
  then show ?thesis using l by simp
qed

lemma slurp_path_eof:
  assumes "shebang_line b0 path b1 arg" "path @ b1 @ arg = c # cs"
    and n: "n + length (path @ b1 @ arg) < BINPRM_BUF_SIZE"
  shows "slurp_path n [] c cs = (if b1 = [] then butlast path else path, [])"
proof -
  have p: "path \<noteq> []" and w: "list_all word_char path" and b: "list_all is_blank b1"
    and a: "list_all line_char arg" "arg \<noteq> [] \<longrightarrow> b1 \<noteq> [] \<and> \<not> is_blank (hd arg)"
    and nul: "NUL \<notin> set path"
    using assms(1) no_nul[of path] by (auto simp: shebang_line_def)
  have ln: "length path + length b1 + length arg = Suc (length cs)"
    using arg_cong[OF assms(2), of length] by simp
  consider (path) "b1 = []" "arg = []" | (blanks) bs z where "b1 = bs @ [z]" "arg = []"
    | (argument) d ds where "b1 \<noteq> []" "arg = d # ds"
    using a(2) by (cases arg; cases b1 rule: rev_cases) auto
  then show ?thesis
  proof cases
    case path
    obtain ps z where z: "path = ps @ [z]" using p by (cases path rule: rev_cases) auto
    have zz: "word_char z" "list_all word_char ps" "NUL \<notin> set ps" using w z nul by auto
    have e: "slurp_path k ps z [] = (cstring ps, [])" if "k < BINPRM_BUF_SIZE" for k
      using zz last_not_nul[of ps] that by (subst slurp_path.simps) (auto simp: word_char_def)
    show ?thesis
    proof (cases ps)
      case Nil
      then show ?thesis using e[of n] z assms(2) n path by simp
    next
      case (Cons x xs)
      then have cs: "cs = xs @ [z]" "x = c" "path = c # xs @ [z]" using assms(2) z path by simp_all
      then have "slurp_path n [] c cs = slurp_path (n + length xs + 1) ps z []"
        using slurp_path_word[of c xs "[]" n z "[]"] zz(2) n Cons by simp
      then show ?thesis using e[of "n + length xs + 1"] z cs(3) n Cons path cstring_no_nul[OF zz(3), of 0] by simp
    qed
  next
    case blanks
    have bb: "list_all is_blank bs" "is_blank z" using b blanks by simp_all
    have l: "shebang_line b0 path bs []" using assms(1) blanks by (simp add: shebang_line_def)
    have "slurp_path n [] c cs = slurp_path (n + length (path @ bs)) (path @ replicate (length bs) NUL) z []"
      by (rule slurp_path_after_path[OF l]) (use assms(2) n ln blanks in simp_all)
    also have "\<dots> = (path, [])"
      using cstring_no_nul[OF nul] n ln assms(2) blanks bb(2) by (subst slurp_path.simps) auto
    finally show ?thesis using blanks by simp
  next
    case argument
    have "slurp_path n [] c cs = slurp_path (n + length (path @ b1)) (path @ replicate (length b1) NUL) d ds"
      by (rule slurp_path_after_path[OF assms(1)]) (use assms(2) n ln argument in simp_all)
    also have "\<dots> = (path, slurp_argument (n + length (path @ b1)) [] d ds)"
      by (subst slurp_path_argument)
        (use a n ln assms(2) p argument cstring_no_nul[OF nul] in \<open>auto simp: last_append neq_Nil_conv\<close>)
    also have "slurp_argument (n + length (path @ b1)) [] d ds = []"
      by (rule slurp_argument_eof) (use a n ln assms(2) argument in auto)
    finally show ?thesis using argument by simp
  qed
qed

text \<open>
  C40: when the file ends without a newline, the first line is not split that way: an argument is
  dropped, and an interpreter right before the end of the file loses its last character.
\<close>

theorem extract_shebang_without_newline:
  assumes "shebang_line b0 path b1 arg"
  shows "extract_shebang (''#!'' @ b0 @ path @ b1 @ arg) = Inr (Some (if b1 = [] then butlast path else path, []))"
proof -
  obtain c ps where p: "path = c # ps" using assms by (cases path) (auto simp: shebang_line_def)
  have n: "length b0 + 3 + length (path @ b1 @ arg) < BINPRM_BUF_SIZE" and c: "\<not> is_blank c"
    and b0: "list_all is_blank b0"
    using assms p by (auto simp: shebang_line_def word_char_def)
  have "skip_blanks 2 (b0 @ c # ps @ b1 @ arg) = Some (c, ps @ b1 @ arg, length b0 + 3)"
    using skip_blanks_word[OF b0 c, of 2 "ps @ b1 @ arg"] n by simp
  moreover have "slurp_path (length b0 + 3) [] c (ps @ b1 @ arg) = (if b1 = [] then butlast path else path, [])"
    by (rule slurp_path_eof[OF assms]) (use p n in simp_all)
  ultimately show ?thesis using p by (simp add: extract_shebang_def)
qed

theorem extract_shebang_without_newline_witness:
  "extract_shebang ''#!/bin/sh'' = Inr (Some (''/bin/s'', []))"
  using extract_shebang_without_newline[of "[]" "''/bin/sh''" "[]" "[]"] by (simp add: shebang_line_def word_char_def is_blank_def BINPRM_BUF_SIZE_def)

subsection \<open>The expanded array\<close>

text \<open>The entries that one script puts in front of its own name, and what is left of the old array.\<close>

definition level_argv :: "string \<times> string \<Rightarrow> string list" where
  "level_argv level = (case level of (interpreter, argument) \<Rightarrow>
     interpreter # (if argument = [] then [] else [argument]))"

definition argv_tail :: "xarray \<Rightarrow> xarray" where
  "argv_tail argv = (if length argv = 1 then argv else tl argv)"

text \<open>\<open>expanded u levels argv array\<close>: the array for the program \<open>u\<close> after these scripts.\<close>

definition expanded :: "string \<Rightarrow> (string \<times> string) list \<Rightarrow> xarray \<Rightarrow> xarray \<Rightarrow> bool" where
  "expanded u levels rest array =
     (\<exists>front. array = front @ rest \<and>
        map xp_local front = map Some (concat (map level_argv (rev levels)) @ [u]))"

lemma insert_interpreter_front:
  assumes "argv \<noteq> []"
  shows "\<exists>array. insert_interpreter argv p a u = Some array \<and> expanded u [(p, a)] (argv_tail argv) array"
proof -
  obtain x xs where "argv = x # xs" using assms by (cases argv) auto
  then show ?thesis
    by (cases xs)
      (auto simp: insert_interpreter_def resize_array_of_xpointers_def write_xpointee_as_string_def
        expanded_def level_argv_def argv_tail_def numeral_2_eq_2 numeral_3_eq_3 Cons_eq_append_conv
        map_eq_Cons_conv)
qed

lemma expanded_step:
  assumes "expanded u [(p, a)] rest array" "expanded p levels (tl array) array'"
  shows "expanded u ((p, a) # levels) rest array'"
proof -
  obtain f1 where f1: "array = f1 @ rest" "map xp_local f1 = map Some (level_argv (p, a) @ [u])"
    using assms(1) by (auto simp: expanded_def)
  obtain f2 where f2: "array' = f2 @ tl array"
    "map xp_local f2 = map Some (concat (map level_argv (rev levels)) @ [p])"
    using assms(2) by (auto simp: expanded_def)
  have "f1 \<noteq> []" using f1(2) by auto
  then have "array' = (f2 @ tl f1) @ rest" using f1(1) f2(1) by simp
  moreover have "map xp_local (tl f1) = map Some (tl (level_argv (p, a)) @ [u])"
    using f1(2) by (simp add: map_tl level_argv_def)
  ultimately show ?thesis
    using f2(2) unfolding expanded_def by (intro exI[of _ "f2 @ tl f1"]) (simp add: level_argv_def)
qed

lemma expanded_shape:
  assumes "expanded u [(p, a)] rest array"
  shows "array \<noteq> []" "length array \<noteq> 1" "xp_local (hd array) = Some p"
  using assms by (auto simp: expanded_def level_argv_def map_eq_Cons_conv split: if_splits)

text \<open>
  The file a program path stands for: its translation, which exists and may be executed.  The first
  line that counts is the one of that file, and the interpreter it names is looked up likewise.
\<close>

definition executable_at ::
  "'w os \<Rightarrow> ('w \<Rightarrow> string \<Rightarrow> bool option) \<Rightarrow> 'w st \<Rightarrow> string \<Rightarrow> string \<Rightarrow> 'w st \<Rightarrow> bool" where
  "executable_at os access s u h s' =
     (cchar u 0 \<noteq> NUL \<and> translate_path os s AT_FDCWD u True = (Inr h, s') \<and> access (snd s') h = Some True)"

definition first_line_of ::
  "'w os \<Rightarrow> ('w \<Rightarrow> string \<Rightarrow> bool option) \<Rightarrow> ('w \<Rightarrow> string \<Rightarrow> string result) \<Rightarrow> 'w st \<Rightarrow> string \<Rightarrow>
     string \<Rightarrow> (string \<times> string) option \<Rightarrow> 'w st \<Rightarrow> bool" where
  "first_line_of os access read_file s u h line s' =
     (executable_at os access s u h s' \<and>
      (\<exists>content. read_file (snd s') h = Inr content \<and> extract_shebang content = Inr line))"

text \<open>
  \<open>script_chain os access read_file s u levels h s'\<close>: the program \<open>u\<close> is a script whose first line
  is the first level, the interpreter it names is a script whose first line is the second one, and
  so on; the last interpreter (\<open>u\<close> itself when there is no level) is the file \<open>h\<close>, not a script.
\<close>

fun script_chain ::
  "'w os \<Rightarrow> ('w \<Rightarrow> string \<Rightarrow> bool option) \<Rightarrow> ('w \<Rightarrow> string \<Rightarrow> string result) \<Rightarrow> 'w st \<Rightarrow> string \<Rightarrow>
     (string \<times> string) list \<Rightarrow> string \<Rightarrow> 'w st \<Rightarrow> bool" where
  "script_chain os access read_file s u [] h s' = first_line_of os access read_file s u h None s'"
| "script_chain os access read_file s u ((p, a) # levels) h s' =
     (\<exists>h1 s1 h2 s2. first_line_of os access read_file s u h1 (Some (p, a)) s1 \<and>
        executable_at os access s1 p h2 s2 \<and> script_chain os access read_file s2 p levels h s')"

lemma translate_and_check_exec_ok:
  "translate_and_check_exec os access s u = (Inr h, s') \<Longrightarrow> executable_at os access s u h s'"
  by (auto simp: translate_and_check_exec_def executable_at_def
      split: if_splits sum.splits prod.splits option.splits)

text \<open>One turn of the loop: it ends there, or goes on to the next.\<close>

lemma expand_turn:
  assumes "expand_shebang_loop os access read_file (Some (Inr argv)) (Suc n) s u current =
      Some (Inr (h, prog, result), s')"
    and "array = (case current of Some array \<Rightarrow> array | None \<Rightarrow> argv)" "array \<noteq> []"
  shows "u = prog \<and> result = current \<and> first_line_of os access read_file s u h None s' \<or>
    (\<exists>h1 s1 p a h2 s2 array1. first_line_of os access read_file s u h1 (Some (p, a)) s1 \<and>
       executable_at os access s1 p h2 s2 \<and> expanded u [(p, a)] (argv_tail array) array1 \<and>
       expand_shebang_loop os access read_file (Some (Inr argv)) n s2 p (Some array1) =
         Some (Inr (h, prog, result), s'))"
proof -
  obtain host s0 where t: "translate_and_check_exec os access s u = (Inr host, s0)"
    using assms(1) by (auto split: sum.splits prod.splits)
  obtain content where r: "read_file (snd s0) host = Inr content"
    using assms(1) t by (auto split: sum.splits)
  have line: "first_line_of os access read_file s u host l s0" if "extract_shebang content = Inr l" for l
    using translate_and_check_exec_ok[OF t] r that by (auto simp: first_line_of_def)
  show ?thesis
  proof (cases "extract_shebang content")
    case (Inr level)
    show ?thesis
    proof (cases level)
      case (Some pa)
      obtain p a where pa: "pa = (p, a)" by (cases pa)
      obtain array1 where a1: "insert_interpreter array p a u = Some array1"
        "expanded u [(p, a)] (argv_tail array) array1"
        using insert_interpreter_front[OF assms(3)] by blast
      obtain h1 s1 where t1: "translate_and_check_exec os access s0 p = (Inr h1, s1)"
        using assms(1) t r Inr Some pa by (auto split: sum.splits prod.splits)
      have "expand_shebang_loop os access read_file (Some (Inr argv)) n s1 p (Some array1) =
          Some (Inr (h, prog, result), s')"
        using assms(1,2) t r Inr Some pa t1 a1(1) by (cases current) simp_all
      then show ?thesis
        using line[OF Inr] translate_and_check_exec_ok[OF t1] a1(2) unfolding Some pa by blast
    qed (use assms(1) t r Inr line in auto)
  qed (use assms(1) t r in simp)
qed

lemma expand_more:
  "expand_shebang_loop os access read_file (Some (Inr argv)) n s u (Some array) =
     Some (Inr (h, prog, result), s') \<Longrightarrow>
   array \<noteq> [] \<Longrightarrow> length array \<noteq> 1 \<Longrightarrow> xp_local (hd array) = Some u \<Longrightarrow>
   \<exists>levels array'. result = Some array' \<and> expanded u levels (tl array) array' \<and> length levels < n \<and>
     prog = last (u # map fst levels) \<and> script_chain os access read_file s u levels h s'"
proof (induction n arbitrary: s u array)
  case (Suc n)
  from expand_turn[OF Suc.prems(1)] Suc.prems(2)
  consider "u = prog" "result = Some array" "first_line_of os access read_file s u h None s'"
    | h1 s1 p a h2 s2 array1 where "first_line_of os access read_file s u h1 (Some (p, a)) s1"
      "executable_at os access s1 p h2 s2" "expanded u [(p, a)] (argv_tail array) array1"
      "expand_shebang_loop os access read_file (Some (Inr argv)) n s2 p (Some array1) =
         Some (Inr (h, prog, result), s')"
    by (auto simp del: split_paired_Ex)
  then show ?case
  proof cases
    case 1
    have "expanded u [] (tl array) array"
      using Suc.prems(2,4) by (auto simp: expanded_def intro!: exI[of _ "[hd array]"])
    then show ?thesis using 1 by (intro exI[of _ "[]"] exI[of _ array]) simp
  next
    case 2
    then obtain levels array' where l: "result = Some array'" "expanded p levels (tl array1) array'"
      "length levels < n" "prog = last (p # map fst levels)"
      "script_chain os access read_file s2 p levels h s'"
      using Suc.IH[OF 2(4)] expanded_shape[OF 2(3)] by blast
    have "expanded u ((p, a) # levels) (tl array) array'"
      using expanded_step[OF 2(3) l(2)] Suc.prems(3) by (simp add: argv_tail_def)
    moreover have "script_chain os access read_file s u ((p, a) # levels) h s'"
      using 2(1,2) l(5) by (auto simp del: split_paired_Ex)
    ultimately show ?thesis using l by (intro exI[of _ "(p, a) # levels"]) simp
  qed
qed simp

text \<open>
  C20: a successful run has followed a chain of scripts, each named by the first line of the one
  before and read from the host file its path translates to; the program it ends with is the first
  file of the chain that is no script, and \<open>argv[]\<close> becomes the last interpreter with its argument,
  down to the first interpreter with its argument, the script, and the arguments the caller gave
  after \<open>argv[0]\<close> (it stays as it was when there is no script).  A chain is shorter than the number
  of turns.
\<close>

theorem expand_shebang_argv:
  assumes "expand_shebang_loop os access read_file (Some (Inr argv)) n s u None = Some (Inr (h, prog, result), s')"
    and "argv \<noteq> []"
  shows "\<exists>levels. length levels < n \<and> prog = last (u # map fst levels) \<and>
    script_chain os access read_file s u levels h s' \<and>
    (case result of
       None \<Rightarrow> levels = []
     | Some array \<Rightarrow> levels \<noteq> [] \<and> expanded u levels (argv_tail argv) array)"
proof (cases n)
  case (Suc k)
  from expand_turn[OF assms(1)[unfolded Suc]] assms(2)
  consider "u = prog" "result = None" "first_line_of os access read_file s u h None s'"
    | h1 s1 p a h2 s2 array1 where "first_line_of os access read_file s u h1 (Some (p, a)) s1"
      "executable_at os access s1 p h2 s2" "expanded u [(p, a)] (argv_tail argv) array1"
      "expand_shebang_loop os access read_file (Some (Inr argv)) k s2 p (Some array1) =
         Some (Inr (h, prog, result), s')"
    by (auto simp del: split_paired_Ex)
  then show ?thesis
  proof cases
    case 1
    then show ?thesis using Suc by (intro exI[of _ "[]"]) simp
  next
    case 2
    then obtain levels array' where l: "result = Some array'" "expanded p levels (tl array1) array'"
      "length levels < k" "prog = last (p # map fst levels)"
      "script_chain os access read_file s2 p levels h s'"
      using expand_more[OF 2(4)] expanded_shape[OF 2(3)] by blast
    have "script_chain os access read_file s u ((p, a) # levels) h s'"
      using 2(1,2) l(5) by (auto simp del: split_paired_Ex)
    then show ?thesis
      using expanded_step[OF 2(3) l(2)] l Suc by (intro exI[of _ "(p, a) # levels"]) simp
  qed
qed (use assms(1) in simp)

text \<open>A script in the example of \<^verbatim>\<open>Path_Examples\<close>, named \<^verbatim>\<open>/l/q\<close>, for the interpreter \<^verbatim>\<open>/s -x\<close>.\<close>

definition script_files :: "unit \<Rightarrow> string \<Rightarrow> string result" where
  "script_files w path = Inr (if path = ''/h/q'' then ''#!/s -x'' @ [NL] else ''ELF'')"

definition script_argv :: xarray where
  "script_argv = map (\<lambda>p. \<lparr>xp_remote = p, xp_local = None\<rparr>) [4096, 4100, 0]"

lemma script_runs:
  "map_option (\<lambda>r. case fst r of Inl e \<Rightarrow> None | Inr (h, prog, array) \<Rightarrow> Some (h, array \<noteq> None))
     (expand_shebang_loop demo_os (\<lambda>w p. Some True) script_files (Some (Inr script_argv)) MAXSYMLINKS
        demo_st ''/l/q'' None) = Some (Some (''/r/s'', True))"
  by code_simp

theorem expand_shebang_argv_witness:
  "\<exists>levels array prog s'. expand_shebang_loop demo_os (\<lambda>w p. Some True) script_files (Some (Inr script_argv))
      MAXSYMLINKS demo_st ''/l/q'' None = Some (Inr (''/r/s'', prog, Some array), s') \<and>
    levels \<noteq> [] \<and> prog = last (map fst levels) \<and>
    script_chain demo_os (\<lambda>w p. Some True) script_files demo_st ''/l/q'' levels ''/r/s'' s' \<and>
    expanded ''/l/q'' levels (argv_tail script_argv) array"
proof -
  let ?run = "expand_shebang_loop demo_os (\<lambda>w p. Some True) script_files (Some (Inr script_argv)) MAXSYMLINKS
    demo_st ''/l/q'' None"
  obtain r s' where r: "?run = Some (r, s')"
    "(case r of Inl e \<Rightarrow> None | Inr (h, prog, array) \<Rightarrow> Some (h, array \<noteq> None)) = Some (''/r/s'', True)"
    using script_runs by (auto simp del: not_None_eq)
  obtain prog array where run: "?run = Some (Inr (''/r/s'', prog, Some array), s')"
    using r by (cases r) (auto split: prod.splits)
  have ne: "script_argv \<noteq> []" by (simp add: script_argv_def)
  obtain levels where "levels \<noteq> []" "prog = last (''/l/q'' # map fst levels)"
    "script_chain demo_os (\<lambda>w p. Some True) script_files demo_st ''/l/q'' levels ''/r/s'' s'"
    "expanded ''/l/q'' levels (argv_tail script_argv) array"
    using expand_shebang_argv[OF run ne] by auto
  then show ?thesis using run by (auto intro!: exI[of _ levels])
qed

end
