(* ===== verification/Load_Info.thy ===== *)
theory Load_Info
  imports Shebang
begin

section \<open>Load information of a program\<close>

text \<open>
  \<^verbatim>\<open>execve/elf.c\<close> and the part of \<^verbatim>\<open>execve/enter.c\<close> that turns the program headers of an ELF file into
  mappings.  A header is the list of its bytes, as the unions of \<^verbatim>\<open>elf.h\<close> are: a field is read at its
  offset, which depends on the class.  A file has its bytes and the error that \<^verbatim>\<open>lseek(2)\<close>, with its
  result converted to a C \<^verbatim>\<open>int\<close>, reports for an offset.
\<close>

type_synonym bytes = "8 word list"

record elf_file =
  ef_bytes :: bytes
  ef_seek_error :: "word_t \<Rightarrow> errno option"

definition bytes_at :: "bytes \<Rightarrow> nat \<Rightarrow> nat \<Rightarrow> bytes" where
  "bytes_at bs offset n = take n (drop offset bs)"

definition field :: "bytes \<Rightarrow> nat \<Rightarrow> nat \<Rightarrow> word_t" where
  "field bs offset n = word_le (bytes_at bs offset n)"

subsection \<open>ELF headers\<close>

definition sizeof_ElfHeader :: nat where "sizeof_ElfHeader = 64"

definition IS_CLASS32 :: "bytes \<Rightarrow> bool" where "IS_CLASS32 header = (field header 4 1 = 1)"
definition IS_CLASS64 :: "bytes \<Rightarrow> bool" where "IS_CLASS64 header = (field header 4 1 = 2)"

definition elf_type :: "bytes \<Rightarrow> word_t" where "elf_type header = field header 16 2"
definition elf_machine :: "bytes \<Rightarrow> word_t" where "elf_machine header = field header 18 2"

definition elf_entry :: "bytes \<Rightarrow> word_t" where
  "elf_entry header = (if IS_CLASS64 header then field header 24 8 else field header 24 4)"

definition elf_phoff :: "bytes \<Rightarrow> word_t" where
  "elf_phoff header = (if IS_CLASS64 header then field header 32 8 else field header 28 4)"

definition elf_phentsize :: "bytes \<Rightarrow> word_t" where
  "elf_phentsize header = (if IS_CLASS64 header then field header 54 2 else field header 42 2)"

definition elf_phnum :: "bytes \<Rightarrow> word_t" where
  "elf_phnum header = (if IS_CLASS64 header then field header 56 2 else field header 44 2)"

text \<open>The assignment to \<open>e_entry\<close>, at the width of the class.\<close>

definition set_elf_entry :: "bytes \<Rightarrow> word_t \<Rightarrow> bytes" where
  "set_elf_entry header entry =
     (let n = (if IS_CLASS64 header then 8 else 4)
      in take 24 header @ bytes_le n entry @ drop (24 + n) header)"

definition KNOWN_PHENTSIZE :: "bytes \<Rightarrow> word_t \<Rightarrow> bool" where
  "KNOWN_PHENTSIZE header n = (IS_CLASS32 header \<and> n = 32 \<or> IS_CLASS64 header \<and> n = 56)"

definition ET_EXEC :: word_t where "ET_EXEC = 2"
definition ET_DYN :: word_t where "ET_DYN = 3"

definition IS_POSITION_INDENPENDANT :: "bytes \<Rightarrow> bool" where
  "IS_POSITION_INDENPENDANT header = (elf_type header = ET_DYN)"

definition open_elf :: "elf_file result \<Rightarrow> (elf_file \<times> bytes) result" where
  "open_elf file =
     (case file of
        Inl e \<Rightarrow> Inl e
      | Inr fd \<Rightarrow>
          (let header = take sizeof_ElfHeader (ef_bytes fd) in
           if length header < sizeof_ElfHeader \<or> take 4 header \<noteq> [0x7f, 0x45, 0x4C, 0x46] then Inl ENOEXEC
           else if \<not> IS_CLASS32 header \<and> \<not> IS_CLASS64 header then Inl ENOEXEC
           else Inr (fd, header)))"

subsection \<open>Program headers\<close>

definition PT_LOAD :: word_t where "PT_LOAD = 1"
definition PT_INTERP :: word_t where "PT_INTERP = 3"
definition PT_GNU_STACK :: word_t where "PT_GNU_STACK = 0x6474e551"

definition PF_X :: word_t where "PF_X = 1"
definition PF_W :: word_t where "PF_W = 2"
definition PF_R :: word_t where "PF_R = 4"

text \<open>The macro \<open>PROGRAM_FIELD\<close>: \<open>h\<close> is the ELF header, \<open>p\<close> the program header.\<close>

definition p_type :: "bytes \<Rightarrow> bytes \<Rightarrow> word_t" where
  "p_type h p = field p 0 4"

definition p_flags :: "bytes \<Rightarrow> bytes \<Rightarrow> word_t" where
  "p_flags h p = (if IS_CLASS64 h then field p 4 4 else field p 24 4)"

definition p_offset :: "bytes \<Rightarrow> bytes \<Rightarrow> word_t" where
  "p_offset h p = (if IS_CLASS64 h then field p 8 8 else field p 4 4)"

definition p_vaddr :: "bytes \<Rightarrow> bytes \<Rightarrow> word_t" where
  "p_vaddr h p = (if IS_CLASS64 h then field p 16 8 else field p 8 4)"

definition p_filesz :: "bytes \<Rightarrow> bytes \<Rightarrow> word_t" where
  "p_filesz h p = (if IS_CLASS64 h then field p 32 8 else field p 16 4)"

definition p_memsz :: "bytes \<Rightarrow> bytes \<Rightarrow> word_t" where
  "p_memsz h p = (if IS_CLASS64 h then field p 40 8 else field p 20 4)"

text \<open>The loop over \<open>n\<close> headers from the position \<open>at\<close> of the file on.\<close>

fun iterate_from ::
  "bytes \<Rightarrow> bytes \<Rightarrow> nat \<Rightarrow> (bytes \<Rightarrow> bytes \<Rightarrow> 's \<Rightarrow> errno option \<times> 's) \<Rightarrow> nat \<Rightarrow> nat \<Rightarrow> 's \<Rightarrow>
     errno option \<times> 's" where
  "iterate_from content header phentsize callback at 0 s = (None, s)"
| "iterate_from content header phentsize callback at (Suc n) s =
     (let program_header = bytes_at content at phentsize in
      if length program_header \<noteq> phentsize then (Some ENOTSUP, s)
      else
        (case callback header program_header s of
           (Some e, s) \<Rightarrow> (Some e, s)
         | (None, s) \<Rightarrow> iterate_from content header phentsize callback (at + phentsize) n s))"

definition iterate_program_headers ::
  "elf_file \<Rightarrow> bytes \<Rightarrow> (bytes \<Rightarrow> bytes \<Rightarrow> 's \<Rightarrow> errno option \<times> 's) \<Rightarrow> 's \<Rightarrow> errno option \<times> 's" where
  "iterate_program_headers fd header callback s =
     (if elf_phnum header \<ge> 0xffff then (Some ENOTSUP, s)
      else if \<not> KNOWN_PHENTSIZE header (elf_phentsize header) then (Some ENOTSUP, s)
      else
        (case ef_seek_error fd (elf_phoff header) of
           Some e \<Rightarrow> (Some e, s)
         | None \<Rightarrow>
             iterate_from (ef_bytes fd) header (unat (elf_phentsize header)) callback
               (unat (elf_phoff header)) (unat (elf_phnum header)) s))"

definition HOST_ELF_MACHINE :: "word_t list" where "HOST_ELF_MACHINE = [62, 3, 6]"

text \<open>\<open>qemu\<close> tells whether a runner was given, \<open>force_foreign\<close> whether the variable is set.\<close>

definition is_host_elf :: "bool \<Rightarrow> bool \<Rightarrow> elf_file result \<Rightarrow> bool" where
  "is_host_elf force_foreign qemu file =
     (if force_foreign \<or> \<not> qemu then False
      else
        (case open_elf file of
           Inl e \<Rightarrow> False
         | Inr (fd, header) \<Rightarrow> elf_machine header \<in> set HOST_ELF_MACHINE))"

subsection \<open>Mappings\<close>

record mapping =
  mp_addr :: word_t
  mp_length :: word_t
  mp_clear_length :: word_t
  mp_prot :: word_t
  mp_flags :: word_t
  mp_fd :: word_t
  mp_offset :: word_t

text \<open>
  The interpreter of a program that is being read is the pair of its host and user path; its own
  load information is read afterwards.  \<open>li_raw_path\<close> is \<open>None\<close> when it is the user path.
\<close>

record load_info =
  li_host_path :: string
  li_user_path :: string
  li_raw_path :: "string option"
  li_mappings :: "mapping list"
  li_elf_header :: bytes
  li_needs_executable_stack :: bool
  li_interp :: "(string \<times> string) option"

definition page_mask :: word_t where "page_mask = not 0xFFF"

definition MAP_PRIVATE :: word_t where "MAP_PRIVATE = 2"
definition MAP_FIXED :: word_t where "MAP_FIXED = 16"
definition MAP_ANONYMOUS :: word_t where "MAP_ANONYMOUS = 32"
definition PROT_READ :: word_t where "PROT_READ = 1"
definition PROT_WRITE :: word_t where "PROT_WRITE = 2"
definition PROT_EXEC :: word_t where "PROT_EXEC = 4"

definition segment_prot :: "word_t \<Rightarrow> word_t" where
  "segment_prot flags =
     or (or (if and flags PF_R \<noteq> 0 then PROT_READ else 0) (if and flags PF_W \<noteq> 0 then PROT_WRITE else 0))
       (if and flags PF_X \<noteq> 0 then PROT_EXEC else 0)"

text \<open>The mappings of one segment, with the page size of x86\_64.\<close>

definition segment_mappings ::
  "word_t \<Rightarrow> word_t \<Rightarrow> word_t \<Rightarrow> word_t \<Rightarrow> word_t \<Rightarrow> mapping list" where
  "segment_mappings vaddr offset filesz memsz flags =
     (let start_address = and vaddr page_mask;
          end_address = and (vaddr + filesz + 0x1000 - 1) page_mask;
          m = \<lparr>mp_addr = start_address, mp_length = end_address - start_address, mp_clear_length = 0,
               mp_prot = segment_prot flags, mp_flags = or MAP_PRIVATE MAP_FIXED, mp_fd = - 1,
               mp_offset = and offset page_mask\<rparr>
      in if memsz > filesz then
           (let m = m\<lparr>mp_clear_length := end_address - (vaddr + filesz)\<rparr>;
                start_address = end_address;
                end_address = and (vaddr + memsz + 0x1000 - 1) page_mask
            in if end_address > start_address then
                 [m, \<lparr>mp_addr = start_address, mp_length = end_address - start_address,
                      mp_clear_length = 0, mp_prot = mp_prot m,
                      mp_flags = or (or MAP_PRIVATE MAP_ANONYMOUS) MAP_FIXED, mp_fd = - 1,
                      mp_offset = 0\<rparr>]
               else [m])
         else [m])"

definition add_mapping :: "bytes \<Rightarrow> bytes \<Rightarrow> load_info \<Rightarrow> load_info" where
  "add_mapping h p li =
     li\<lparr>li_mappings := li_mappings li @
          segment_mappings (p_vaddr h p) (p_offset h p) (p_filesz h p) (p_memsz h p) (p_flags h p)\<rparr>"

subsection \<open>The interpreter\<close>

definition HOST_ROOTFS :: string where "HOST_ROOTFS = ''/host-rootfs''"

text \<open>\<open>env\<close> bundles what checking a path needs: the kernel and the answers of \<^verbatim>\<open>access(2)\<close>.\<close>

definition add_interp ::
  "'w os \<Rightarrow> ('w \<Rightarrow> string \<Rightarrow> bool option) \<Rightarrow> bool \<Rightarrow> elf_file \<Rightarrow> bytes \<Rightarrow> bytes \<Rightarrow>
     load_info \<times> 'w st \<Rightarrow> errno option \<times> load_info \<times> 'w st" where
  "add_interp os access qemu fd h p ls =
     (case ls of (li, s) \<Rightarrow>
        if li_interp li \<noteq> None then (Some EINVAL, li, s)
        else
          (let li' = li\<lparr>li_interp := Some ([], [])\<rparr>;
               buffer = bytes_at (ef_bytes fd) (unat (p_offset h p)) (unat (p_filesz h p)) in
           if of_int (c_int (of_nat (length buffer))) \<noteq> p_filesz h p then (Some EACCES, li', s)
           else
             (let user_path = cstring (chars_of buffer);
                  user_path = (if qemu \<and> cchar user_path 0 = CHR ''/'' then HOST_ROOTFS @ user_path else user_path)
              in case translate_and_check_exec os access s user_path of
                   (Inl e, s) \<Rightarrow> (Some e, li', s)
                 | (Inr host_path, s) \<Rightarrow> (None, li\<lparr>li_interp := Some (host_path, user_path)\<rparr>, s))))"

definition add_load_info ::
  "'w os \<Rightarrow> ('w \<Rightarrow> string \<Rightarrow> bool option) \<Rightarrow> bool \<Rightarrow> elf_file \<Rightarrow> bytes \<Rightarrow> bytes \<Rightarrow>
     load_info \<times> 'w st \<Rightarrow> errno option \<times> load_info \<times> 'w st" where
  "add_load_info os access qemu fd h p ls =
     (case ls of (li, s) \<Rightarrow>
        if p_type h p = PT_LOAD then (None, add_mapping h p li, s)
        else if p_type h p = PT_INTERP then add_interp os access qemu fd h p (li, s)
        else if p_type h p = PT_GNU_STACK then
          (None,
           li\<lparr>li_needs_executable_stack := (li_needs_executable_stack li \<or> and (p_flags h p) PF_X \<noteq> 0)\<rparr>, s)
        else (None, li, s))"

definition extract_load_info ::
  "'w os \<Rightarrow> ('w \<Rightarrow> string \<Rightarrow> bool option) \<Rightarrow> ('w \<Rightarrow> string \<Rightarrow> elf_file result) \<Rightarrow> bool \<Rightarrow>
     load_info \<Rightarrow> 'w st \<Rightarrow> errno option \<times> load_info \<times> 'w st" where
  "extract_load_info os access open_file qemu li s =
     (case open_elf (open_file (snd s) (li_host_path li)) of
        Inl e \<Rightarrow> (Some e, li, s)
      | Inr (fd, header) \<Rightarrow>
          (let li = li\<lparr>li_elf_header := header\<rparr> in
           if elf_type header = ET_EXEC \<or> elf_type header = ET_DYN then
             iterate_program_headers fd header (add_load_info os access qemu fd) (li, s)
           else (Some EINVAL, li, s)))"

subsection \<open>Load addresses\<close>

definition add_load_base :: "load_info \<Rightarrow> word_t \<Rightarrow> load_info" where
  "add_load_base li load_base =
     li\<lparr>li_mappings := map (\<lambda>m. m\<lparr>mp_addr := mp_addr m + load_base\<rparr>) (li_mappings li),
        li_elf_header := set_elf_entry (li_elf_header li) (elf_entry (li_elf_header li) + load_base)\<rparr>"

definition EXEC_PIC_ADDRESS :: word_t where "EXEC_PIC_ADDRESS = 0x500000000000"
definition INTERP_PIC_ADDRESS :: word_t where "INTERP_PIC_ADDRESS = 0x6f0000000000"
definition EXEC_PIC_ADDRESS_32 :: word_t where "EXEC_PIC_ADDRESS_32 = 0x0f000000"
definition INTERP_PIC_ADDRESS_32 :: word_t where "INTERP_PIC_ADDRESS_32 = 0xaf000000"

text \<open>
  \<open>None\<close> stands for the access to the first mapping of a program that has none, through a null
  pointer.  \<open>class32\<close> is the class of the program, for its interpreter too.
\<close>

definition compute_load_address :: "bool \<Rightarrow> word_t \<Rightarrow> word_t \<Rightarrow> load_info \<Rightarrow> load_info option" where
  "compute_load_address class32 address address_32 li =
     (if IS_POSITION_INDENPENDANT (li_elf_header li) then
        (case li_mappings li of
           [] \<Rightarrow> None
         | m # ms \<Rightarrow>
             Some (if mp_addr m = 0 then add_load_base li (if class32 then address_32 else address) else li))
      else Some li)"

definition compute_load_addresses ::
  "load_info \<times> load_info option \<Rightarrow> (load_info \<times> load_info option) option" where
  "compute_load_addresses lis =
     (case lis of (li, interp) \<Rightarrow>
        let class32 = IS_CLASS32 (li_elf_header li) in
        (case compute_load_address class32 EXEC_PIC_ADDRESS EXEC_PIC_ADDRESS_32 li of
           None \<Rightarrow> None
         | Some li \<Rightarrow>
             (case interp of
                None \<Rightarrow> Some (li, None)
              | Some i \<Rightarrow>
                  map_option (\<lambda>i. (li, Some i))
                    (compute_load_address class32 INTERP_PIC_ADDRESS INTERP_PIC_ADDRESS_32 i))))"

end
