(* ===== verification/Load_Script.thy ===== *)
theory Load_Script
  imports Load_Info Memory_Properties
begin

section \<open>Load scripts\<close>

text \<open>
  \<^verbatim>\<open>loader/script.h\<close> and \<open>transfer_load_script\<close> of \<^verbatim>\<open>execve/exit.c\<close>: what the tracer asks the loader
  to do in the memory of the tracee, as a sequence of statements below the stack of the new program.
\<close>

datatype load_statement =
    LOAD_ACTION_OPEN_NEXT word_t
  | LOAD_ACTION_OPEN word_t
  | LOAD_ACTION_MMAP_FILE (st_addr: word_t) (st_length: word_t) (st_prot: word_t) (st_offset: word_t)
      (st_clear_length: word_t)
  | LOAD_ACTION_MMAP_ANON (st_addr: word_t) (st_length: word_t) (st_prot: word_t) (st_offset: word_t)
      (st_clear_length: word_t)
  | LOAD_ACTION_MAKE_STACK_EXEC word_t
  | LOAD_ACTION_START_TRACED (st_stack_pointer: word_t) (st_entry_point: word_t) (st_at_phdr: word_t)
      (st_at_phent: word_t) (st_at_phnum: word_t) (st_at_entry: word_t) (st_at_execfn: word_t)
  | LOAD_ACTION_START (st_stack_pointer: word_t) (st_entry_point: word_t) (st_at_phdr: word_t)
      (st_at_phent: word_t) (st_at_phnum: word_t) (st_at_entry: word_t) (st_at_execfn: word_t)

text \<open>The words of a statement, in the order of the structures.\<close>

fun statement_words :: "load_statement \<Rightarrow> word_t list" where
  "statement_words (LOAD_ACTION_OPEN_NEXT a) = [0, a]"
| "statement_words (LOAD_ACTION_OPEN a) = [1, a]"
| "statement_words (LOAD_ACTION_MMAP_FILE a l p off c) = [2, a, l, p, off, c]"
| "statement_words (LOAD_ACTION_MMAP_ANON a l p off c) = [3, a, l, p, off, c]"
| "statement_words (LOAD_ACTION_MAKE_STACK_EXEC s) = [4, s]"
| "statement_words (LOAD_ACTION_START_TRACED sp e phdr phent phnum entry execfn) =
     [5, sp, e, phdr, phent, phnum, entry, execfn]"
| "statement_words (LOAD_ACTION_START sp e phdr phent phnum entry execfn) =
     [6, sp, e, phdr, phent, phnum, entry, execfn]"

definition transcript_mappings :: "mapping list \<Rightarrow> load_statement list" where
  "transcript_mappings mappings =
     map (\<lambda>m.
       if and (mp_flags m) MAP_ANONYMOUS \<noteq> 0
       then LOAD_ACTION_MMAP_ANON (mp_addr m) (mp_length m) (mp_prot m) (mp_offset m) (mp_clear_length m)
       else LOAD_ACTION_MMAP_FILE (mp_addr m) (mp_length m) (mp_prot m) (mp_offset m) (mp_clear_length m))
     mappings"

text \<open>The strings area: where the three strings are, its contents and its padding.\<close>

definition strings_of :: "load_info \<times> load_info option \<Rightarrow> string list" where
  "strings_of lis =
     (case lis of (li, interp) \<Rightarrow>
        [li_user_path li] @
        (case interp of None \<Rightarrow> [] | Some i \<Rightarrow> [li_user_path i]) @
        (case li_raw_path li of None \<Rightarrow> [] | Some s \<Rightarrow> [s]))"

definition strings_bytes :: "load_info \<times> load_info option \<Rightarrow> 8 word list" where
  "strings_bytes lis = concat (map (\<lambda>s. bytes_of s @ [0]) (strings_of lis))"

definition padding_size :: "tracee \<Rightarrow> word_t \<Rightarrow> nat \<Rightarrow> nat" where
  "padding_size t stack_pointer n = unat ((stack_pointer - of_nat n) mod of_nat (sizeof_word t))"

text \<open>
  The statements of a script, given the addresses of the strings; \<open>None\<close> is the access to the first
  mapping of a program that has none.
\<close>

definition load_script ::
  "bool \<Rightarrow> word_t \<Rightarrow> word_t \<Rightarrow> word_t \<Rightarrow> word_t \<Rightarrow> load_info \<times> load_info option \<Rightarrow>
     load_statement list option" where
  "load_script ptraced stack_pointer string1 string2 string3 lis =
     (case lis of (li, interp) \<Rightarrow>
        let needs_executable_stack =
              (li_needs_executable_stack li \<or>
               (case interp of None \<Rightarrow> False | Some i \<Rightarrow> li_needs_executable_stack i));
            h = li_elf_header li;
            entry_point = (case interp of None \<Rightarrow> elf_entry h | Some i \<Rightarrow> elf_entry (li_elf_header i))
        in case li_mappings li of
             [] \<Rightarrow> None
           | first # _ \<Rightarrow>
               Some ([LOAD_ACTION_OPEN string1] @ transcript_mappings (li_mappings li) @
                 (case interp of
                    None \<Rightarrow> []
                  | Some i \<Rightarrow> [LOAD_ACTION_OPEN_NEXT string2] @ transcript_mappings (li_mappings i)) @
                 (if needs_executable_stack then [LOAD_ACTION_MAKE_STACK_EXEC (and stack_pointer page_mask)]
                  else []) @
                 [(if ptraced then LOAD_ACTION_START_TRACED else LOAD_ACTION_START) stack_pointer entry_point
                    (elf_phoff h + mp_addr first) (elf_phentsize h) (elf_phnum h) (elf_entry h) string3]))"

text \<open>
  The script as bytes.  For a 32-bit tracee the words are packed to the front and the rest of the
  area keeps what was there.
\<close>

definition script_bytes :: "tracee \<Rightarrow> load_statement list \<Rightarrow> 8 word list" where
  "script_bytes t script =
     (let words = concat (map statement_words script);
          buffer = concat (map (bytes_le 8) words)
      in if is_32on64_mode t
         then concat (map (bytes_le 4) words) @ drop (4 * length words) buffer
         else buffer)"

text \<open>
  The result: the status, the tracee, the memory, and the address remembered for \<^verbatim>\<open>AT_EXECFN\<close>, which is
  whatever \<open>peek_word\<close> returns.
\<close>

definition transfer_load_script ::
  "process_vm \<Rightarrow> memory \<Rightarrow> tracee \<Rightarrow> bool \<Rightarrow> load_info \<times> load_info option \<Rightarrow>
     (errno option \<times> tracee \<times> memory \<times> word_t) option" where
  "transfer_load_script vm m t ptraced lis =
     (let stack_pointer = peek_reg t CURRENT STACK_POINTER;
          execfn_addr = (case peek_word vm m t (stack_pointer + of_nat (sizeof_word t)) of
                           None \<Rightarrow> (if is_32on64_mode t then 0xFFFFFFFF else - 1)
                         | Some w \<Rightarrow> w);
          strings = strings_bytes lis;
          padding = padding_size t stack_pointer (length strings);
          strings_size = length strings + padding;
          string1_size = length (li_user_path (fst lis)) + 1;
          string2_size = (case snd lis of None \<Rightarrow> 0 | Some i \<Rightarrow> length (li_user_path i) + 1);
          string1 = stack_pointer - of_nat strings_size;
          string2 = string1 + of_nat string1_size;
          string3 = (case li_raw_path (fst lis) of
                       None \<Rightarrow> string1
                     | Some s \<Rightarrow> string1 + of_nat string1_size + of_nat string2_size)
      in case load_script ptraced stack_pointer string1 string2 string3 lis of
           None \<Rightarrow> None
         | Some script \<Rightarrow>
             (let buffer = script_bytes t script @ strings @ replicate padding 0;
                  address = stack_pointer - of_nat (length buffer);
                  t = poke_reg (poke_reg t STACK_POINTER address) USERARG_1 address
              in case write_data vm m address buffer of
                   (Some e, m) \<Rightarrow> Some (Some e, t, m, execfn_addr)
                 | (None, m) \<Rightarrow>
                     Some (None, (save_current_regs t ORIGINAL)\<lparr>regs_were_changed := True\<rparr>, m, execfn_addr)))"

end
