(* ===== verification/Loader.thy ===== *)
theory Loader
  imports Load_Script
begin

section \<open>The loader\<close>

text \<open>
  \<^verbatim>\<open>loader/loader.c\<close>, the 64-bit build: the program that runs in the tracee in place of the one it
  asked for.  It interprets the load script in its memory, maps the program and its interpreter, mends
  the auxiliary vectors on the stack and branches to the entry point.  \<open>None\<close> is a fault, or a
  loop that does not end.
\<close>

text \<open>
  The system calls of the loader: a world \<open>'w\<close>, and the memory of the process, \<open>None\<close> at the addresses
  that cannot be read.  \<open>k_writable\<close> is the protection the kernel keeps for a page: a store of the
  loader to an address without it is a fault.
\<close>

record 'w loader_kernel =
  k_open :: "'w \<Rightarrow> memory \<Rightarrow> word_t \<Rightarrow> word_t \<times> 'w"
  k_close :: "'w \<Rightarrow> word_t \<Rightarrow> word_t \<times> 'w"
  k_mmap :: "'w \<Rightarrow> memory \<Rightarrow> word_t \<Rightarrow> word_t \<Rightarrow> word_t \<Rightarrow> word_t \<Rightarrow> word_t \<Rightarrow> word_t \<Rightarrow> word_t \<times> memory \<times> 'w"
  k_mprotect :: "'w \<Rightarrow> word_t \<Rightarrow> word_t \<Rightarrow> word_t \<Rightarrow> 'w"
  k_set_name :: "'w \<Rightarrow> memory \<Rightarrow> word_t \<Rightarrow> 'w"
  k_writable :: "'w \<Rightarrow> word_t \<Rightarrow> bool"

subsection \<open>Memory of the process\<close>

definition load_word :: "memory \<Rightarrow> word_t \<Rightarrow> word_t option" where
  "load_word m a = map_option word_le (load_bytes m a 8)"

text \<open>Stores, for the predicate of the writable addresses.\<close>

definition store_word :: "(word_t \<Rightarrow> bool) \<Rightarrow> memory \<Rightarrow> word_t \<Rightarrow> word_t \<Rightarrow> memory option" where
  "store_word writable m a w =
     (if accessible m a 8 \<and> list_all (\<lambda>i. writable (a + of_nat i)) [0..<8]
      then Some (store_bytes m a (bytes_le 8 w)) else None)"

partial_function (option) clear_bytes ::
  "(word_t \<Rightarrow> bool) \<Rightarrow> memory \<Rightarrow> word_t \<Rightarrow> word_t \<Rightarrow> memory option" where
  "clear_bytes writable m start stop =
     (if start < stop then
        (if m start = None \<or> \<not> writable start then None
         else clear_bytes writable (m(start := Some 0)) (start + 1) stop)
      else Some m)"

partial_function (option) clear_words ::
  "(word_t \<Rightarrow> bool) \<Rightarrow> memory \<Rightarrow> word_t \<Rightarrow> word_t \<Rightarrow> memory option" where
  "clear_words writable m start stop =
     (if start < stop then
        (case store_word writable m start 0 of
           None \<Rightarrow> None
         | Some m \<Rightarrow> clear_words writable m (start + 8) stop)
      else Some m)"

definition clear :: "(word_t \<Rightarrow> bool) \<Rightarrow> memory \<Rightarrow> word_t \<Rightarrow> word_t \<Rightarrow> memory option" where
  "clear writable m start stop =
     (let start_bytes = start mod 8;
          stop_bytes = stop mod 8;
          start_aligned = (if start_bytes \<noteq> 0 then start + 8 - start_bytes else start);
          stop_aligned = stop - stop_bytes
      in case clear_bytes writable m start start_aligned of
           None \<Rightarrow> None
         | Some m \<Rightarrow>
             (case clear_words writable m start_aligned stop_aligned of
                None \<Rightarrow> None
              | Some m \<Rightarrow>
                  clear_bytes writable m stop_aligned stop))"

text \<open>The two loops of \<open>basename\<close>.\<close>

partial_function (option) string_end :: "memory \<Rightarrow> word_t \<Rightarrow> word_t option" where
  "string_end m cursor =
     (case m cursor of None \<Rightarrow> None | Some b \<Rightarrow> (if b \<noteq> 0 then string_end m (cursor + 1) else Some cursor))"

partial_function (option) last_slash :: "memory \<Rightarrow> word_t \<Rightarrow> word_t \<Rightarrow> word_t option" where
  "last_slash m string cursor =
     (case m cursor of
        None \<Rightarrow> None
      | Some b \<Rightarrow> (if b \<noteq> 0x2F \<and> cursor > string then last_slash m string (cursor - 1) else Some cursor))"

definition basename :: "memory \<Rightarrow> word_t \<Rightarrow> word_t option" where
  "basename m string =
     (case string_end m string of
        None \<Rightarrow> None
      | Some cursor \<Rightarrow>
          map_option (\<lambda>cursor. if cursor \<noteq> string then cursor + 1 else cursor) (last_slash m string cursor))"

subsection \<open>The stack of the new program\<close>

partial_function (option) skip_envp :: "memory \<Rightarrow> word_t \<Rightarrow> word_t option" where
  "skip_envp m cursor2 =
     (let cursor2 = cursor2 + 8 in
      case load_word m cursor2 of
        None \<Rightarrow> None
      | Some w \<Rightarrow> (if w \<noteq> 0 then skip_envp m cursor2 else Some cursor2))"

definition AT_NULL :: word_t where "AT_NULL = 0"
definition AT_PHDR :: word_t where "AT_PHDR = 3"
definition AT_PHENT :: word_t where "AT_PHENT = 4"
definition AT_PHNUM :: word_t where "AT_PHNUM = 5"
definition AT_BASE :: word_t where "AT_BASE = 7"
definition AT_ENTRY :: word_t where "AT_ENTRY = 9"
definition AT_EXECFN :: word_t where "AT_EXECFN = 31"

text \<open>The value that replaces the one of an auxiliary vector, if any.\<close>

definition adjusted_value :: "load_statement \<Rightarrow> word_t \<Rightarrow> word_t \<Rightarrow> word_t \<Rightarrow> word_t option" where
  "adjusted_value stmt at_base at_execfn ty =
     (if ty = AT_PHDR then Some (st_at_phdr stmt)
      else if ty = AT_PHENT then Some (st_at_phent stmt)
      else if ty = AT_PHNUM then Some (st_at_phnum stmt)
      else if ty = AT_ENTRY then Some (st_at_entry stmt)
      else if ty = AT_BASE then Some at_base
      else if ty = AT_EXECFN then Some at_execfn
      else None)"

partial_function (option) adjust_auxv ::
  "(word_t \<Rightarrow> bool) \<Rightarrow> load_statement \<Rightarrow> word_t \<Rightarrow> word_t \<Rightarrow> memory \<Rightarrow> word_t \<Rightarrow> memory option" where
  "adjust_auxv writable stmt at_base at_execfn m cursor2 =
     (case load_word m cursor2 of
        None \<Rightarrow> None
      | Some ty \<Rightarrow>
          (case (case adjusted_value stmt at_base at_execfn ty of
                   None \<Rightarrow> Some m
                 | Some v \<Rightarrow> store_word writable m (cursor2 + 8) v) of
             None \<Rightarrow> None
           | Some m \<Rightarrow>
               (case load_word m (cursor2 + 16) of
                  None \<Rightarrow> None
                | Some ty \<Rightarrow>
                    (if ty \<noteq> AT_NULL then adjust_auxv writable stmt at_base at_execfn m (cursor2 + 16) else Some m))))"

subsection \<open>The interpreter of scripts\<close>

text \<open>The statement at an address, with its size.\<close>

definition load_args :: "memory \<Rightarrow> word_t \<Rightarrow> nat \<Rightarrow> word_t list option" where
  "load_args m a n =
     (case load_bytes m (a + 8) (8 * n) of
        None \<Rightarrow> None
      | Some bs \<Rightarrow> Some (map (\<lambda>i. word_le (take 8 (drop (8 * i) bs))) [0..<n]))"

definition fetch_statement :: "memory \<Rightarrow> word_t \<Rightarrow> (load_statement option \<times> word_t) option" where
  "fetch_statement m cursor =
     (case load_word m cursor of
        None \<Rightarrow> None
      | Some action \<Rightarrow>
          (if action = 0 then map_option (\<lambda>a. (Some (LOAD_ACTION_OPEN_NEXT (a ! 0)), 16)) (load_args m cursor 1)
           else if action = 1 then map_option (\<lambda>a. (Some (LOAD_ACTION_OPEN (a ! 0)), 16)) (load_args m cursor 1)
           else if action = 2 then
             map_option (\<lambda>a. (Some (LOAD_ACTION_MMAP_FILE (a ! 0) (a ! 1) (a ! 2) (a ! 3) (a ! 4)), 48))
               (load_args m cursor 5)
           else if action = 3 then
             map_option (\<lambda>a. (Some (LOAD_ACTION_MMAP_ANON (a ! 0) (a ! 1) (a ! 2) (a ! 3) (a ! 4)), 48))
               (load_args m cursor 5)
           else if action = 4 then
             map_option (\<lambda>a. (Some (LOAD_ACTION_MAKE_STACK_EXEC (a ! 0)), 16)) (load_args m cursor 1)
           else if action = 5 then
             map_option (\<lambda>a. (Some (LOAD_ACTION_START_TRACED (a ! 0) (a ! 1) (a ! 2) (a ! 3) (a ! 4) (a ! 5) (a ! 6)), 64))
               (load_args m cursor 7)
           else if action = 6 then
             map_option (\<lambda>a. (Some (LOAD_ACTION_START (a ! 0) (a ! 1) (a ! 2) (a ! 3) (a ! 4) (a ! 5) (a ! 6)), 64))
               (load_args m cursor 7)
           else Some (None, 0)))"

record loader_state =
  ld_memory :: memory
  ld_fd :: word_t
  ld_at_base :: word_t
  ld_reset_at_base :: bool

text \<open>
  How the loader ends: it exits with 182, branches to the program, or notifies the tracer with a
  special \<^verbatim>\<open>execve(2)\<close>, in these two cases with the stack pointer and the entry point.
\<close>

datatype loader_end = Fatal | Branch word_t word_t | Notify word_t word_t

definition loader_start ::
  "'w loader_kernel \<Rightarrow> load_statement \<Rightarrow> bool \<Rightarrow> loader_state \<Rightarrow> 'w \<Rightarrow> (loader_end \<times> loader_state \<times> 'w) option" where
  "loader_start K stmt traced ld w =
     (let sp = st_stack_pointer stmt; m = ld_memory ld in
      case (load_word m sp, load_word m (sp + 8)) of
        (Some argc, Some at_execfn) \<Rightarrow>
          (case k_close K w (ld_fd ld) of
             (status, w) \<Rightarrow>
               (if c_int status < 0 then Some (Fatal, ld, w)
                else
                  (case skip_envp m (sp + 8 * (argc + 1)) of
                     None \<Rightarrow> None
                   | Some cursor2 \<Rightarrow>
                       (case adjust_auxv (k_writable K w) stmt (ld_at_base ld) at_execfn m (cursor2 + 8) of
                          None \<Rightarrow> None
                        | Some m \<Rightarrow>
                            (case basename m (st_at_execfn stmt) of
                               None \<Rightarrow> None
                             | Some name \<Rightarrow>
                                 Some ((if traced then Notify else Branch) sp (st_entry_point stmt),
                                   ld\<lparr>ld_memory := m\<rparr>, k_set_name K w m name))))))
      | _ \<Rightarrow> None)"

text \<open>One turn of the main loop: the end, or the state for the next turn.\<close>

definition PROT_GROWSDOWN :: word_t where "PROT_GROWSDOWN = 0x01000000"

definition loader_open ::
  "'w loader_kernel \<Rightarrow> word_t \<Rightarrow> loader_state \<Rightarrow> 'w \<Rightarrow> loader_end option \<times> loader_state \<times> 'w" where
  "loader_open K string_address ld w =
     (case k_open K w (ld_memory ld) string_address of
        (fd, w) \<Rightarrow>
          (let ld = ld\<lparr>ld_fd := fd\<rparr> in
           if c_int fd < 0 then (Some Fatal, ld, w) else (None, ld\<lparr>ld_reset_at_base := True\<rparr>, w)))"

definition loader_turn ::
  "'w loader_kernel \<Rightarrow> load_statement option \<Rightarrow> loader_state \<Rightarrow> 'w \<Rightarrow>
     (loader_end option \<times> loader_state \<times> 'w) option" where
  "loader_turn K stmt ld w =
     (case stmt of
        None \<Rightarrow> Some (Some Fatal, ld, w)
      | Some (LOAD_ACTION_OPEN_NEXT string_address) \<Rightarrow>
          (case k_close K w (ld_fd ld) of
             (status, w) \<Rightarrow>
               (if c_int status < 0 then Some (Some Fatal, ld, w) else Some (loader_open K string_address ld w)))
      | Some (LOAD_ACTION_OPEN string_address) \<Rightarrow> Some (loader_open K string_address ld w)
      | Some (LOAD_ACTION_MMAP_FILE addr len prot offset clear_length) \<Rightarrow>
          (case k_mmap K w (ld_memory ld) addr len prot (or MAP_PRIVATE MAP_FIXED) (ld_fd ld) offset of
             (status, m, w) \<Rightarrow>
               (if status \<noteq> addr then Some (Some Fatal, ld\<lparr>ld_memory := m\<rparr>, w)
                else
                  (case (if clear_length \<noteq> 0 then clear (k_writable K w) m (addr + len - clear_length) (addr + len) else Some m) of
                     None \<Rightarrow> None
                   | Some m \<Rightarrow>
                       (let ld = ld\<lparr>ld_memory := m\<rparr> in
                        Some (None,
                          (if ld_reset_at_base ld
                           then ld\<lparr>ld_at_base := addr, ld_reset_at_base := False\<rparr> else ld), w)))))
      | Some (LOAD_ACTION_MMAP_ANON addr len prot offset clear_length) \<Rightarrow>
          (case k_mmap K w (ld_memory ld) addr len prot
                  (or (or MAP_PRIVATE MAP_FIXED) MAP_ANONYMOUS) (- 1) 0 of
             (status, m, w) \<Rightarrow>
               Some (if status \<noteq> addr then Some Fatal else None, ld\<lparr>ld_memory := m\<rparr>, w))
      | Some (LOAD_ACTION_MAKE_STACK_EXEC start) \<Rightarrow>
          Some (None, ld,
            k_mprotect K w start 1 (or (or PROT_READ PROT_WRITE) (or PROT_EXEC PROT_GROWSDOWN)))
      | Some stmt \<Rightarrow>
          map_option (\<lambda>(e, ld, w). (Some e, ld, w))
            (loader_start K stmt (case stmt of LOAD_ACTION_START_TRACED _ _ _ _ _ _ _ \<Rightarrow> True | _ \<Rightarrow> False) ld w))"

partial_function (option) loader_loop ::
  "'w loader_kernel \<Rightarrow> word_t \<Rightarrow> loader_state \<Rightarrow> 'w \<Rightarrow> (loader_end \<times> loader_state \<times> 'w) option" where
  "loader_loop K cursor ld w =
     (case fetch_statement (ld_memory ld) cursor of
        None \<Rightarrow> None
      | Some (stmt, n) \<Rightarrow>
          (case loader_turn K stmt ld w of
             None \<Rightarrow> None
           | Some (Some e, ld, w) \<Rightarrow> Some (e, ld, w)
           | Some (None, ld, w) \<Rightarrow> loader_loop K (cursor + n) ld w))"

definition loader_run ::
  "'w loader_kernel \<Rightarrow> word_t \<Rightarrow> memory \<Rightarrow> 'w \<Rightarrow> (loader_end \<times> loader_state \<times> 'w) option" where
  "loader_run K cursor m w =
     loader_loop K cursor \<lparr>ld_memory = m, ld_fd = - 1, ld_at_base = 0, ld_reset_at_base = True\<rparr> w"

end
