(* ===== verification/Loader_Lemmas.thy ===== *)
theory Loader_Lemmas
  imports Loader Xpointer_Lemmas
begin

section \<open>Mapping a segment\<close>

subsection \<open>Pages\<close>

lemma unat_64: "unat (x :: word_t) < 18446744073709551616"
  using unsigned_less[of x] by simp

lemma page_mask_eq: "page_mask = not (mask 12)"
  by (simp add: page_mask_def mask_eq_exp_minus_1)

lemma unat_page: "unat (and x page_mask) = unat x div 4096 * 4096"
proof -
  have "and x page_mask = push_bit 12 (drop_bit 12 x)"
    unfolding page_mask_eq by (rule bit_word_eqI) (auto simp: bit_simps)
  moreover have "unat x div 4096 * 4096 < 2 ^ 64" using unat_64[of x] by simp
  ultimately show ?thesis
    by (simp add: push_bit_eq_mult drop_bit_eq_div unat_word_ariths unat_div)
qed

definition page_down :: "nat \<Rightarrow> nat" where "page_down n = n div 4096 * 4096"
definition page_up :: "nat \<Rightarrow> nat" where "page_up n = page_down (n + 4095)"

lemma page_facts:
  "page_down n \<le> n" "n < page_down n + 4096" "n \<le> page_up n" "page_up n < n + 4096"
  "4096 dvd page_down n" "4096 dvd page_up n" "n \<le> k \<Longrightarrow> page_up n \<le> page_up k"
  "n \<le> k \<Longrightarrow> page_down n \<le> page_down k" "page_down n \<le> page_up n"
  by (simp_all add: page_down_def page_up_def div_le_mono)

subsection \<open>Clearing\<close>

definition zeroed :: "memory \<Rightarrow> word_t \<Rightarrow> word_t \<Rightarrow> memory" where
  "zeroed m start stop = (\<lambda>a. if start \<le> a \<and> a < stop then Some 0 else m a)"

definition backed :: "(word_t \<Rightarrow> bool) \<Rightarrow> memory \<Rightarrow> word_t \<Rightarrow> word_t \<Rightarrow> bool" where
  "backed wr m start stop = (\<forall>a. start \<le> a \<and> a < stop \<longrightarrow> m a \<noteq> None \<and> wr a)"

lemma zeroed_empty [simp]: "\<not> start < stop \<Longrightarrow> zeroed m start stop = m"
  by (auto simp: zeroed_def fun_eq_iff dest: le_less_trans)

lemma zeroed_split:
  "start \<le> mid \<Longrightarrow> mid \<le> stop \<Longrightarrow> zeroed (zeroed m start mid) mid stop = zeroed m start stop"
  by (rule ext) (auto simp: zeroed_def word_le_nat_alt word_less_nat_alt)

lemma backed_zeroed: "backed wr m a b \<Longrightarrow> backed wr (zeroed m c d) a b"
  by (simp add: backed_def zeroed_def)

lemma backed_sub: "backed wr m a b \<Longrightarrow> a \<le> c \<Longrightarrow> d \<le> b \<Longrightarrow> backed wr m c d"
  by (auto simp: backed_def word_le_nat_alt word_less_nat_alt)

lemma clear_bytes_zeroed:
  "start \<le> stop \<Longrightarrow> backed wr m start stop \<Longrightarrow> clear_bytes wr m start stop = Some (zeroed m start stop)"
proof (induction "unat stop - unat start" arbitrary: m start)
  case 0
  then have "\<not> start < stop" by (simp add: word_less_nat_alt)
  then show ?case by (subst clear_bytes.simps) simp
next
  case (Suc n)
  then have lt: "start < stop" by (simp add: word_less_nat_alt)
  then have s: "unat (start + 1) = unat start + 1"
    using unat_64[of stop] by (simp add: unat_word_ariths word_less_nat_alt)
  have le: "start + 1 \<le> stop" using lt s by (simp add: word_le_nat_alt word_less_nat_alt)
  have b: "backed wr (m(start := Some 0)) (start + 1) stop" using Suc.prems(2) s
    by (auto simp: backed_def word_le_nat_alt word_less_nat_alt)
  have "m start \<noteq> None" "wr start" using Suc.prems(2) lt by (simp_all add: backed_def)
  then have "clear_bytes wr m start stop = clear_bytes wr (m(start := Some 0)) (start + 1) stop"
    using lt by (subst clear_bytes.simps) auto
  also have "\<dots> = Some (zeroed (m(start := Some 0)) (start + 1) stop)"
    by (rule Suc.hyps(1)[OF _ le b]) (use Suc.hyps(2) s in simp)
  also have "zeroed (m(start := Some 0)) (start + 1) stop = zeroed m start stop"
  proof (rule ext)
    fix a
    show "zeroed (m(start := Some 0)) (start + 1) stop a = zeroed m start stop a"
      using lt s word_unat_eq_iff[of a start] by (auto simp: zeroed_def word_le_nat_alt word_less_nat_alt)
  qed
  finally show ?case .
qed

lemma store_zero_word:
  assumes "backed wr m start (start + 8)" "unat start + 8 < 2 ^ 64"
  shows "store_word wr m start 0 = Some (zeroed m start (start + 8))"
proof -
  have o: "unat (start + of_nat i) = unat start + i" if "i \<le> 8" for i
    using assms(2) that by (simp add: unat_word_ariths unsigned_of_nat take_bit_nat_eq_self)
  have "accessible m start 8"
    using assms(1) o o[of 8] by (auto simp: accessible_iff backed_def word_le_nat_alt word_less_nat_alt)
  moreover have "list_all (\<lambda>i. wr (start + of_nat i)) [0..<8]"
    using assms(1) o o[of 8]
    by (auto simp del: upt_conv_Cons simp: list_all_iff backed_def word_le_nat_alt word_less_nat_alt)
  moreover have "store_bytes m start (bytes_le 8 0) = zeroed m start (start + 8)"
  proof (rule ext)
    fix a
    have b: "bytes_le 8 0 = replicate 8 0" by (simp add: bytes_le_def eval_nat_numeral)
    show "store_bytes m start (bytes_le 8 0) a = zeroed m start (start + 8) a"
    proof (cases "start \<le> a \<and> a < start + 8")
      case True
      define k where "k = unat a - unat start"
      have "k < 8" "a = start + of_nat k"
        using True o[of k] o[of 8] by (auto simp: k_def word_le_nat_alt word_less_nat_alt word_unat_eq_iff)
      moreover from this have "load_bytes (store_bytes m start (replicate 8 0)) (start + of_nat k) (Suc 0) =
          Some (take (Suc 0) (drop k (replicate 8 0)))"
        by (intro load_store_slice) simp_all
      ultimately have "store_bytes m start (replicate 8 0) a = Some 0"
        by (cases "8 - k") (auto split: option.splits)
      then show ?thesis using True by (simp add: zeroed_def b)
    next
      case False
      then have "\<forall>i<8. a \<noteq> start + of_nat i"
        using o o[of 8] by (auto simp: word_le_nat_alt word_less_nat_alt)
      then have "store_bytes m start (bytes_le 8 0) a = m a" by (intro store_bytes_other) simp
      then show ?thesis using False by (auto simp: zeroed_def)
    qed
  qed
  ultimately show ?thesis by (simp add: store_word_def)
qed

lemma clear_words_zeroed:
  "start \<le> stop \<Longrightarrow> 8 dvd unat start \<Longrightarrow> 8 dvd unat stop \<Longrightarrow> backed wr m start stop \<Longrightarrow>
   clear_words wr m start stop = Some (zeroed m start stop)"
proof (induction "unat stop - unat start" arbitrary: m start rule: less_induct)
  case less
  show ?case
  proof (cases "start < stop")
    case False
    then show ?thesis by (subst clear_words.simps) simp
  next
    case True
    obtain j k where jk: "unat start = 8 * j" "unat stop = 8 * k" using less.prems by (auto elim!: dvdE)
    then have jk': "j < k" using True by (simp add: word_less_nat_alt)
    have u: "unat start + 8 < 2 ^ 64 \<or> unat start + 8 = 2 ^ 64" and le8: "unat start + 8 \<le> unat stop"
      using jk jk' unat_64[of stop] by auto
    then have lt: "unat start + 8 < 2 ^ 64" using unat_64[of stop] by simp
    then have s: "unat (start + 8) = unat start + 8" by (simp add: unat_word_ariths)
    have le: "start + 8 \<le> stop" using le8 s by (simp add: word_le_nat_alt)
    have le0: "start \<le> start + 8" using s by (simp add: word_le_nat_alt)
    have "store_word wr m start 0 = Some (zeroed m start (start + 8))"
      by (rule store_zero_word[OF backed_sub[OF less.prems(4) _ le] lt]) simp
    then have "clear_words wr m start stop = clear_words wr (zeroed m start (start + 8)) (start + 8) stop"
      using True by (subst clear_words.simps) simp
    also have "\<dots> = Some (zeroed (zeroed m start (start + 8)) (start + 8) stop)"
    proof (rule less.hyps[OF _ le])
      show "unat stop - unat (start + 8) < unat stop - unat start" using s le8 by simp
      show "8 dvd unat (start + 8)" using s jk(1) by simp
      show "8 dvd unat stop" using less.prems by simp
      show "backed wr (zeroed m start (start + 8)) (start + 8) stop"
        using backed_zeroed backed_sub[OF less.prems(4) le0] by simp
    qed
    also have "\<dots> = Some (zeroed m start stop)" using zeroed_split[OF le0 le] by simp
    finally show ?thesis .
  qed
qed

lemma round_up_8: "n mod 8 \<noteq> 0 \<Longrightarrow> 8 * ((n + 7) div 8) = n + 8 - n mod 8" for n :: nat
proof -
  assume nz: "n mod 8 \<noteq> 0"
  define q r where "q = n div 8" and "r = n mod 8"
  have n: "n = 8 * q + r" and r: "0 < r" "r < 8" using nz by (simp_all add: q_def r_def)
  have "(r + 7) div 8 = 1" using r by (intro div_nat_eqI) simp_all
  moreover have "(n + 7) div 8 = q + (r + 7) div 8" unfolding n by (simp add: add.assoc)
  ultimately show ?thesis unfolding r_def[symmetric] using n r by simp
qed

lemma clear_zeroed:
  assumes "start \<le> stop" "8 dvd unat stop" "backed wr m start stop"
  shows "clear wr m start stop = Some (zeroed m start stop)"
proof -
  have mod8: "unat (x mod 8) = unat x mod 8" for x :: word_t by (simp add: unat_mod)
  define mid where "mid = (if start mod 8 \<noteq> 0 then start + 8 - start mod 8 else start)"
  define k where "k = (unat start + 7) div 8"
  have stop8: "stop mod 8 = 0" using assms(2) mod8[of stop] by (simp add: word_unat_eq_iff)
  obtain j where j: "unat stop = 8 * j" using assms(2) by auto
  have kj: "k \<le> j" using assms(1) j by (simp add: k_def word_le_nat_alt)
  have mid: "unat mid = 8 * k"
  proof (cases "start mod 8 = 0")
    case True
    then have "unat start mod 8 = 0" using mod8[of start] by simp
    then show ?thesis using True by (auto simp: mid_def k_def)
  next
    case False
    then have nz: "unat start mod 8 \<noteq> 0" using mod8[of start] by (metis unat_eq_zero)
    then have 8: "8 * k = unat start + 8 - unat start mod 8" unfolding k_def by (rule round_up_8)
    have "8 * k < 2 ^ 64" using kj j unat_64[of stop] by simp
    moreover have "mid = start - start mod 8 + 8" using False by (simp add: mid_def)
    moreover have "unat (start - start mod 8) = unat start - unat start mod 8"
      using mod8[of start] by (simp add: unat_sub word_le_nat_alt)
    ultimately show ?thesis using 8 mod8[of start] by (simp add: unat_word_ariths)
  qed
  have le: "start \<le> mid" "mid \<le> stop"
    using mid kj j by (simp_all add: word_le_nat_alt k_def)
  have 1: "clear_bytes wr m start mid = Some (zeroed m start mid)"
    by (rule clear_bytes_zeroed[OF le(1) backed_sub[OF assms(3) _ le(2)]]) simp
  have 2: "clear_words wr (zeroed m start mid) mid stop = Some (zeroed (zeroed m start mid) mid stop)"
    by (rule clear_words_zeroed[OF le(2)]) (use mid j backed_zeroed[OF backed_sub[OF assms(3) le(1)]] in simp_all)
  have 3: "clear_bytes wr (zeroed m start stop) stop stop = Some (zeroed m start stop)"
    by (subst clear_bytes.simps) simp
  show ?thesis
    unfolding clear_def Let_def mid_def[symmetric] stop8
    using 1 2 3 zeroed_split[OF le] by simp
qed

end
