(* ===== verification/Segment_Properties.thy ===== *)
theory Segment_Properties
  imports Loader_Lemmas
begin

section \<open>A loaded segment\<close>

text \<open>
  What is assumed of \<^verbatim>\<open>mmap(2)\<close>: a request for whole readable pages at a fixed address is granted
  where the kernel lets the process map pages (\<open>free\<close>: the ranges below the end of the user address
  space, above its lowest address and within the limits of the process), and for a file when the
  descriptor is open for reading on one; the pages have the bytes of the file, with zeros up to the end
  of its last page, or zeros, and may be written to when the request says so.  Nothing is assumed of
  other requests.
\<close>

definition file_byte :: "bytes \<Rightarrow> nat \<Rightarrow> 8 word option" where
  "file_byte content i =
     (if i < length content then Some (content ! i) else if i < page_up (length content) then Some 0 else None)"

definition map_range :: "memory \<Rightarrow> word_t \<Rightarrow> word_t \<Rightarrow> (nat \<Rightarrow> 8 word option) \<Rightarrow> memory" where
  "map_range m addr len f =
     (\<lambda>a. if addr \<le> a \<and> unat a < unat addr + unat len then f (unat a - unat addr) else m a)"

definition whole_pages :: "word_t \<Rightarrow> word_t \<Rightarrow> bool" where
  "whole_pages addr len =
     (4096 dvd unat addr \<and> 4096 dvd unat len \<and> len \<noteq> 0 \<and> unat addr + unat len \<le> 2 ^ 64)"

definition in_range :: "word_t \<Rightarrow> word_t \<Rightarrow> word_t \<Rightarrow> bool" where
  "in_range addr len a = (addr \<le> a \<and> unat a < unat addr + unat len)"

definition protected ::
  "'w loader_kernel \<Rightarrow> 'w \<Rightarrow> word_t \<Rightarrow> word_t \<Rightarrow> word_t \<Rightarrow> 'w \<Rightarrow> bool" where
  "protected K w addr len prot w' =
     (\<forall>a. k_writable K w' a =
        (if in_range addr len a then and prot PROT_WRITE \<noteq> 0 else k_writable K w a))"

locale granting_kernel =
  fixes K :: "'w loader_kernel" and file_of :: "'w \<Rightarrow> word_t \<Rightarrow> bytes option"
    and free :: "word_t \<Rightarrow> word_t \<Rightarrow> bool"
  assumes mmap_file: "whole_pages addr len \<Longrightarrow> free addr len \<Longrightarrow> 4096 dvd unat off \<Longrightarrow>
      file_of w fd = Some content \<Longrightarrow> and prot PROT_READ \<noteq> 0 \<Longrightarrow>
      \<exists>w'. k_mmap K w m addr len prot (or MAP_PRIVATE MAP_FIXED) fd off =
        (addr, map_range m addr len (\<lambda>i. file_byte content (unat off + i)), w') \<and>
        protected K w addr len prot w'"
    and mmap_anon: "whole_pages addr len \<Longrightarrow> free addr len \<Longrightarrow> and prot PROT_READ \<noteq> 0 \<Longrightarrow>
      \<exists>w'. k_mmap K w m addr len prot (or (or MAP_PRIVATE MAP_FIXED) MAP_ANONYMOUS) (- 1) 0 =
        (addr, map_range m addr len (\<lambda>i. Some 0), w') \<and> protected K w addr len prot w'"

text \<open>The turns of the loader for a sequence of statements.\<close>

fun loader_turns ::
  "'w loader_kernel \<Rightarrow> load_statement list \<Rightarrow> loader_state \<Rightarrow> 'w \<Rightarrow>
     (loader_end option \<times> loader_state \<times> 'w) option" where
  "loader_turns K [] ld w = Some (None, ld, w)"
| "loader_turns K (stmt # stmts) ld w =
     (case loader_turn K (Some stmt) ld w of
        None \<Rightarrow> None
      | Some (Some e, ld, w) \<Rightarrow> Some (Some e, ld, w)
      | Some (None, ld, w) \<Rightarrow> loader_turns K stmts ld w)"

text \<open>What a process finds in the memory of a segment, and the condition for it to be loaded.\<close>

definition segment_byte :: "bytes \<Rightarrow> nat \<Rightarrow> nat \<Rightarrow> nat \<Rightarrow> 8 word" where
  "segment_byte content offset filesz i = (if i < filesz then content ! (offset + i) else 0)"

definition loadable :: "bytes \<Rightarrow> word_t \<Rightarrow> word_t \<Rightarrow> word_t \<Rightarrow> word_t \<Rightarrow> bool" where
  "loadable content vaddr offset filesz memsz =
     (unat vaddr mod 4096 = unat offset mod 4096 \<and> filesz \<le> memsz \<and>
      unat offset + unat filesz \<le> length content \<and> unat vaddr + unat memsz + 4096 \<le> 2 ^ 64 \<and>
      page_down (unat vaddr) < page_up (unat vaddr + unat filesz))"

subsection \<open>The numbers of a segment\<close>

lemma unat_end:
  assumes "unat vaddr + unat n + 4096 \<le> 2 ^ 64"
  shows "unat (vaddr + n) = unat vaddr + unat n"
    "unat (and (vaddr + n + 0x1000 - 1) page_mask) = page_up (unat vaddr + unat n)"
proof -
  show 1: "unat (vaddr + n) = unat vaddr + unat n" using assms by (simp add: unat_word_ariths)
  have "unat (vaddr + n + 0x1000 - 1) = unat vaddr + unat n + 4095"
  proof -
    have "vaddr + n + 0x1000 - 1 = vaddr + n + 0xFFF" by simp
    then show ?thesis using assms 1 by (simp add: unat_word_ariths)
  qed
  then show "unat (and (vaddr + n + 0x1000 - 1) page_mask) = page_up (unat vaddr + unat n)"
    by (simp add: unat_page page_up_def page_down_def)
qed

lemma page_shift:
  assumes "v mod 4096 = k mod 4096" "page_down v \<le> a" "v \<le> a"
  shows "page_down k + (a - page_down v) = k + (a - v)"
proof -
  have "v = page_down v + v mod 4096" "k = page_down k + k mod 4096" by (simp_all add: page_down_def)
  then show ?thesis using assms by linarith
qed

text \<open>The memory after the first mapping and its clearing.\<close>

definition file_part :: "bytes \<Rightarrow> word_t \<Rightarrow> word_t \<Rightarrow> word_t \<Rightarrow> memory \<Rightarrow> memory" where
  "file_part content vaddr offset filesz m =
     map_range m (and vaddr page_mask)
       (and (vaddr + filesz + 0x1000 - 1) page_mask - and vaddr page_mask)
       (\<lambda>i. file_byte content (unat (and offset page_mask) + i))"

lemma file_part_at:
  assumes "loadable content vaddr offset filesz memsz"
  shows "unat vaddr \<le> unat a \<Longrightarrow> unat a < unat vaddr + unat filesz \<Longrightarrow>
      file_part content vaddr offset filesz m a = Some (content ! (unat offset + (unat a - unat vaddr)))"
    and "unat vaddr \<le> unat a \<Longrightarrow> unat a < page_up (unat vaddr + unat filesz) \<Longrightarrow>
      file_part content vaddr offset filesz m a \<noteq> None"
    and "unat a < page_down (unat vaddr) \<or> page_up (unat vaddr + unat filesz) \<le> unat a \<Longrightarrow>
      file_part content vaddr offset filesz m a = m a"
proof -
  let ?v = "unat vaddr" and ?f = "unat filesz" and ?o = "unat offset"
  have l: "?v mod 4096 = ?o mod 4096" "?f \<le> unat memsz" "?o + ?f \<le> length content"
    "?v + unat memsz + 4096 \<le> 2 ^ 64"
    using assms by (auto simp: loadable_def word_le_nat_alt)
  have s: "unat (and vaddr page_mask) = page_down ?v" "unat (and offset page_mask) = page_down ?o"
    by (simp_all add: unat_page page_down_def)
  have e: "unat (and (vaddr + filesz + 0x1000 - 1) page_mask) = page_up (?v + ?f)"
    using l(2,4) by (intro unat_end(2)) simp
  have le: "page_down ?v \<le> page_up (?v + ?f)" using page_facts(1)[of ?v] page_facts(3)[of "?v + ?f"] by simp
  have len: "unat (and (vaddr + filesz + 0x1000 - 1) page_mask - and vaddr page_mask) =
      page_up (?v + ?f) - page_down ?v"
    using s(1) e le by (simp add: unat_sub word_le_nat_alt)
  have at: "file_part content vaddr offset filesz m a =
      (if page_down ?v \<le> unat a \<and> unat a < page_up (?v + ?f)
       then file_byte content (page_down ?o + (unat a - page_down ?v)) else m a)"
    using s len le by (auto simp: file_part_def map_range_def word_le_nat_alt)
  have shift: "page_down ?o + (unat a - page_down ?v) = ?o + (unat a - ?v)" if "?v \<le> unat a"
    using page_shift[OF l(1) _ that] that page_facts(1)[of ?v] by simp
  show "file_part content vaddr offset filesz m a = Some (content ! (?o + (unat a - ?v)))"
    if a: "?v \<le> unat a" "unat a < ?v + ?f"
  proof -
    have "?o + (unat a - ?v) < length content" using a l(3) by linarith
    moreover have "file_part content vaddr offset filesz m a = file_byte content (?o + (unat a - ?v))"
      using at shift[OF a(1)] a page_facts(1)[of ?v] page_facts(3)[of "?v + ?f"] by simp
    ultimately show ?thesis by (simp add: file_byte_def)
  qed
  show "file_part content vaddr offset filesz m a \<noteq> None" if a: "?v \<le> unat a" "unat a < page_up (?v + ?f)"
  proof -
    have "?o + (page_up (?v + ?f) - ?v) = page_down ?o + (page_up (?v + ?f) - page_down ?v)"
      using page_shift[OF l(1), of "page_up (?v + ?f)"] page_facts(1)[of ?v] page_facts(3)[of "?v + ?f"] by simp
    moreover have "4096 dvd page_down ?o + (page_up (?v + ?f) - page_down ?v)"
      using page_facts(5,6) le by (simp add: dvd_diff_nat)
    ultimately have d: "4096 dvd ?o + (page_up (?v + ?f) - ?v)" by simp
    have "page_up (?v + ?f) < ?v + ?f + 4096" using page_facts(4) .
    then have "?o + (page_up (?v + ?f) - ?v) < page_up (length content) + 4096"
      using l(3) page_facts(3)[of "length content"] page_facts(3)[of "?v + ?f"] by linarith
    then have "?o + (page_up (?v + ?f) - ?v) \<le> page_up (length content)"
      using d page_facts(6)[of "length content"] by (auto elim!: dvdE)
    then have "?o + (unat a - ?v) < page_up (length content)" using a by linarith
    then show ?thesis using at shift[OF a(1)] a page_facts(1)[of ?v] by (simp add: file_byte_def)
  qed
  show "file_part content vaddr offset filesz m a = m a"
    if "unat a < page_down ?v \<or> page_up (?v + ?f) \<le> unat a"
    using at that by auto
qed

definition cleared_part :: "bytes \<Rightarrow> word_t \<Rightarrow> word_t \<Rightarrow> word_t \<Rightarrow> word_t \<Rightarrow> memory \<Rightarrow> memory" where
  "cleared_part content vaddr offset filesz memsz m =
     (let m1 = file_part content vaddr offset filesz m in
      if memsz > filesz then zeroed m1 (vaddr + filesz) (and (vaddr + filesz + 0x1000 - 1) page_mask) else m1)"

lemma cleared_part_at:
  assumes "loadable content vaddr offset filesz memsz"
  shows "unat vaddr \<le> unat a \<Longrightarrow> unat a < unat vaddr + unat memsz \<Longrightarrow>
      unat a < page_up (unat vaddr + unat filesz) \<Longrightarrow>
      cleared_part content vaddr offset filesz memsz m a =
        Some (segment_byte content (unat offset) (unat filesz) (unat a - unat vaddr))"
    and "unat a < page_down (unat vaddr) \<or> page_up (unat vaddr + unat filesz) \<le> unat a \<Longrightarrow>
      cleared_part content vaddr offset filesz memsz m a = m a"
proof -
  have le: "unat filesz \<le> unat memsz" "unat vaddr + unat filesz + 4096 \<le> 2 ^ 64"
    using assms by (auto simp: loadable_def word_le_nat_alt)
  note e = unat_end[OF le(2)]
  note at = file_part_at[OF assms, of a m]
  show "cleared_part content vaddr offset filesz memsz m a =
      Some (segment_byte content (unat offset) (unat filesz) (unat a - unat vaddr))"
    if a: "unat vaddr \<le> unat a" "unat a < unat vaddr + unat memsz" "unat a < page_up (unat vaddr + unat filesz)"
  proof (cases "unat a < unat vaddr + unat filesz")
    case True
    then show ?thesis using at(1) a e
      by (auto simp: cleared_part_def Let_def zeroed_def segment_byte_def word_le_nat_alt word_less_nat_alt)
  next
    case False
    then have "memsz > filesz" using a by (simp add: word_less_nat_alt)
    then show ?thesis using False a e
      by (auto simp: cleared_part_def Let_def zeroed_def segment_byte_def word_le_nat_alt word_less_nat_alt)
  qed
  show "cleared_part content vaddr offset filesz memsz m a = m a"
    if a: "unat a < page_down (unat vaddr) \<or> page_up (unat vaddr + unat filesz) \<le> unat a"
    using at(3)[OF a] a e page_facts(1)[of "unat vaddr"]
    by (auto simp: cleared_part_def Let_def zeroed_def word_le_nat_alt word_less_nat_alt)
qed

lemma anon_flags: "and (or (or MAP_PRIVATE MAP_ANONYMOUS) MAP_FIXED) MAP_ANONYMOUS \<noteq> 0"
    "and (or MAP_PRIVATE MAP_FIXED) MAP_ANONYMOUS = 0"
  by (simp_all add: MAP_PRIVATE_def MAP_ANONYMOUS_def MAP_FIXED_def)

lemma segment_prot_bits:
  "(and (segment_prot flags) PROT_READ \<noteq> 0) = (and flags PF_R \<noteq> 0)"
  "(and (segment_prot flags) PROT_WRITE \<noteq> 0) = (and flags PF_W \<noteq> 0)"
  by (simp_all add: segment_prot_def PROT_READ_def PROT_WRITE_def PROT_EXEC_def)

context granting_kernel
begin

lemma file_turn:
  assumes "loadable content vaddr offset filesz memsz" "file_of w (ld_fd ld) = Some content"
    and prot: "and prot PROT_READ \<noteq> 0" "memsz > filesz \<Longrightarrow> and prot PROT_WRITE \<noteq> 0"
  defines "start \<equiv> and vaddr page_mask" and "stop \<equiv> and (vaddr + filesz + 0x1000 - 1) page_mask"
  assumes free: "free start (stop - start)"
  shows "\<exists>ld' w'. loader_turn K (Some (LOAD_ACTION_MMAP_FILE start (stop - start) prot (and offset page_mask)
      (if memsz > filesz then stop - (vaddr + filesz) else 0))) ld w = Some (None, ld', w') \<and>
    ld_memory ld' = cleared_part content vaddr offset filesz memsz (ld_memory ld) \<and>
    protected K w start (stop - start) prot w'"
proof -
  let ?v = "unat vaddr" and ?f = "unat filesz"
  let ?m1 = "file_part content vaddr offset filesz (ld_memory ld)"
  have le: "?v + ?f + 4096 \<le> 2 ^ 64" and pos: "page_down ?v < page_up (?v + ?f)"
    using assms(1) by (auto simp: loadable_def word_le_nat_alt)
  note e = unat_end[OF le]
  have s: "unat start = page_down ?v" "unat stop = page_up (?v + ?f)"
    using e(2) by (simp_all add: start_def stop_def unat_page[of vaddr] page_down_def)
  then have len: "unat (stop - start) = page_up (?v + ?f) - page_down ?v"
    using pos by (simp add: unat_sub word_le_nat_alt)
  have "whole_pages start (stop - start)"
    using s len pos page_facts(5)[of ?v] page_facts(6)[of "?v + ?f"] unat_64[of stop]
    by (auto simp: whole_pages_def word_unat_eq_iff[of _ 0])
  moreover have "4096 dvd unat (and offset page_mask)" by (simp add: unat_page)
  ultimately obtain w' where mm: "k_mmap K w (ld_memory ld) start (stop - start) prot
      (or MAP_PRIVATE MAP_FIXED) (ld_fd ld) (and offset page_mask) = (start, ?m1, w')"
    and pr: "protected K w start (stop - start) prot w'"
    using mmap_file[OF _ free _ assms(2) prot(1)] unfolding file_part_def start_def stop_def by blast
  have clear: "clear (k_writable K w') ?m1 (vaddr + filesz) stop = Some (zeroed ?m1 (vaddr + filesz) stop)"
    if big: "memsz > filesz"
  proof (rule clear_zeroed)
    show "vaddr + filesz \<le> stop" using e s(2) page_facts(3)[of "?v + ?f"] by (simp add: word_le_nat_alt)
    show "8 dvd unat stop" using s(2) page_facts(6)[of "?v + ?f"] by (auto elim!: dvdE)
    have "k_writable K w' a" if "vaddr + filesz \<le> a" "a < stop" for a
      using pr prot(2)[OF big] that s e len pos page_facts(1)[of ?v]
      by (auto simp: protected_def in_range_def word_le_nat_alt word_less_nat_alt)
    then show "backed (k_writable K w') ?m1 (vaddr + filesz) stop"
      using file_part_at(2)[OF assms(1)] e s(2) by (simp add: backed_def word_le_nat_alt word_less_nat_alt)
  qed
  have "start + (stop - start) - (stop - (vaddr + filesz)) = vaddr + filesz" "start + (stop - start) = stop"
    by simp_all
  moreover have "zeroed ?m1 (vaddr + filesz) stop = ?m1" if "stop - (vaddr + filesz) = 0"
    using that by simp
  ultimately show ?thesis
    using clear mm pr unfolding cleared_part_def stop_def[symmetric]
    by (cases "stop - (vaddr + filesz) = 0") (auto simp: loader_turn_def Let_def)
qed

lemma anon_turn:
  assumes "whole_pages addr len" "free addr len" "and prot PROT_READ \<noteq> 0"
  shows "\<exists>w'. loader_turn K (Some (LOAD_ACTION_MMAP_ANON addr len prot off clear_length)) ld w =
    Some (None, ld\<lparr>ld_memory := map_range (ld_memory ld) addr len (\<lambda>i. Some 0)\<rparr>, w') \<and>
    protected K w addr len prot w'"
  using mmap_anon[OF assms, of w "ld_memory ld"] by (auto simp: loader_turn_def)

lemma segment_turns:
  assumes l: "loadable content vaddr offset filesz memsz" and fd: "file_of w (ld_fd ld) = Some content"
    and flags: "and flags PF_R \<noteq> 0" "memsz > filesz \<Longrightarrow> and flags PF_W \<noteq> 0"
    and free: "\<forall>addr len. page_down (unat vaddr) \<le> unat addr \<and>
      unat addr + unat len \<le> page_up (unat vaddr + unat memsz) \<longrightarrow> free addr len"
  shows "\<exists>ld' w'. loader_turns K (transcript_mappings (segment_mappings vaddr offset filesz memsz flags)) ld w =
      Some (None, ld', w') \<and>
    (\<forall>i<unat memsz. ld_memory ld' (vaddr + of_nat i) =
       Some (segment_byte content (unat offset) (unat filesz) i) \<and>
       k_writable K w' (vaddr + of_nat i) = (and flags PF_W \<noteq> 0)) \<and>
    (\<forall>a. unat a < page_down (unat vaddr) \<or> page_up (unat vaddr + unat memsz) \<le> unat a \<longrightarrow>
       ld_memory ld' a = ld_memory ld a \<and> k_writable K w' a = k_writable K w a)"
proof -
  let ?v = "unat vaddr" and ?f = "unat filesz" and ?z = "unat memsz"
  let ?start = "and vaddr page_mask" and ?stop = "and (vaddr + filesz + 0x1000 - 1) page_mask"
  let ?stop2 = "and (vaddr + memsz + 0x1000 - 1) page_mask"
  have prot: "and (segment_prot flags) PROT_READ \<noteq> 0"
    "(and (segment_prot flags) PROT_WRITE \<noteq> 0) = (and flags PF_W \<noteq> 0)"
    using flags(1) by (simp_all add: segment_prot_bits)
  have le: "?f \<le> ?z" "?v + ?z + 4096 \<le> 2 ^ 64" using l by (auto simp: loadable_def word_le_nat_alt)
  have e: "unat ?stop = page_up (?v + ?f)" "unat ?stop2 = page_up (?v + ?z)"
    using le by (intro unat_end(2); simp)+
  have up: "page_up (?v + ?f) \<le> page_up (?v + ?z)" using le by (intro page_facts(7)) simp
  have s: "unat ?start = page_down ?v" by (simp add: unat_page page_down_def)
  have pos: "page_down ?v < page_up (?v + ?f)" using l by (simp add: loadable_def)
  have len1: "unat (?stop - ?start) = page_up (?v + ?f) - page_down ?v"
    using e(1) s pos by (simp add: unat_sub word_le_nat_alt)
  have "free ?start (?stop - ?start)" using free s len1 pos up by auto
  then obtain ld1 w1 where t1: "loader_turn K (Some (LOAD_ACTION_MMAP_FILE ?start (?stop - ?start)
      (segment_prot flags) (and offset page_mask) (if memsz > filesz then ?stop - (vaddr + filesz) else 0))) ld w =
      Some (None, ld1, w1)"
    and m1: "ld_memory ld1 = cleared_part content vaddr offset filesz memsz (ld_memory ld)"
    and p1: "protected K w ?start (?stop - ?start) (segment_prot flags) w1"
    using file_turn[OF l fd prot(1)] prot(2) flags(2) by blast
  have wr1: "k_writable K w1 a = (if page_down ?v \<le> unat a \<and> unat a < page_up (?v + ?f)
      then and flags PF_W \<noteq> 0 else k_writable K w a)" for a
    using p1 prot(2) s len1 pos by (auto simp: protected_def in_range_def word_le_nat_alt)
  have o: "unat (vaddr + of_nat i) = ?v + i" if "i < ?z" for i
    using le(2) that by (simp add: unat_word_ariths unsigned_of_nat take_bit_nat_eq_self)
  note c1 = cleared_part_at[OF l, of _ "ld_memory ld"]
  show ?thesis
  proof (cases "memsz > filesz \<and> ?stop2 > ?stop")
    case True
    have len: "unat (?stop2 - ?stop) = page_up (?v + ?z) - page_up (?v + ?f)"
      using True e by (simp add: unat_sub word_less_nat_alt word_le_nat_alt)
    have "whole_pages ?stop (?stop2 - ?stop)"
      using e len True page_facts(6) unat_64[of ?stop2]
      by (auto simp: whole_pages_def word_unat_eq_iff[of _ 0] word_less_nat_alt dvd_diff_nat)
    moreover have "free ?stop (?stop2 - ?stop)" using free e len up pos by auto
    ultimately obtain w2 where t2: "loader_turn K (Some (LOAD_ACTION_MMAP_ANON ?stop (?stop2 - ?stop)
        (segment_prot flags) 0 0)) ld1 w1 =
        Some (None, ld1\<lparr>ld_memory := map_range (ld_memory ld1) ?stop (?stop2 - ?stop) (\<lambda>i. Some 0)\<rparr>, w2)"
      and p2: "protected K w1 ?stop (?stop2 - ?stop) (segment_prot flags) w2"
      using anon_turn[OF _ _ prot(1)] by blast
    let ?m = "map_range (ld_memory ld1) ?stop (?stop2 - ?stop) (\<lambda>i. Some 0)"
    have at: "?m a = (if page_up (?v + ?f) \<le> unat a \<and> unat a < page_up (?v + ?z) then Some 0 else ld_memory ld1 a)" for a
      using e len up by (auto simp: map_range_def word_le_nat_alt)
    have wr: "k_writable K w2 a = (if page_down ?v \<le> unat a \<and> unat a < page_up (?v + ?z)
        then and flags PF_W \<noteq> 0 else k_writable K w a)" for a
      using p2 wr1[of a] prot(2) e len up pos by (auto simp: protected_def in_range_def word_le_nat_alt)
    have "?m (vaddr + of_nat i) = Some (segment_byte content (unat offset) ?f i)" if i: "i < ?z" for i
      using c1(1)[of "vaddr + of_nat i"] at[of "vaddr + of_nat i"] o[OF i] i m1 page_facts(3)[of "?v + ?z"]
        page_facts(3)[of "?v + ?f"]
      by (auto simp: segment_byte_def not_le)
    moreover have "?m a = ld_memory ld a" if "unat a < page_down ?v \<or> page_up (?v + ?z) \<le> unat a" for a
    proof -
      have "\<not> (page_up (?v + ?f) \<le> unat a \<and> unat a < page_up (?v + ?z))"
        "unat a < page_down ?v \<or> page_up (?v + ?f) \<le> unat a"
        using that up page_facts(1)[of ?v] page_facts(3)[of "?v + ?f"] by auto
      then show ?thesis using c1(2)[of a] at[of a] m1 by auto
    qed
    moreover have "k_writable K w2 (vaddr + of_nat i) = (and flags PF_W \<noteq> 0)" if i: "i < ?z" for i
      using wr[of "vaddr + of_nat i"] o[OF i] i page_facts(1)[of ?v] page_facts(3)[of "?v + ?z"] by simp
    moreover have "k_writable K w2 a = k_writable K w a"
      if "unat a < page_down ?v \<or> page_up (?v + ?z) \<le> unat a" for a
      using wr[of a] that by auto
    moreover have "loader_turns K (transcript_mappings (segment_mappings vaddr offset filesz memsz flags)) ld w =
        Some (None, ld1\<lparr>ld_memory := ?m\<rparr>, w2)"
      using True t1 t2 anon_flags by (simp add: segment_mappings_def transcript_mappings_def Let_def)
    ultimately show ?thesis by auto
  next
    case False
    have "loader_turns K (transcript_mappings (segment_mappings vaddr offset filesz memsz flags)) ld w =
        Some (None, ld1, w1)"
      using False t1 anon_flags
      by (cases "memsz > filesz") (auto simp: segment_mappings_def transcript_mappings_def Let_def)
    moreover have small: "?v + ?z \<le> page_up (?v + ?f) \<and> page_up (?v + ?z) = page_up (?v + ?f)"
      using False up le(1) e page_facts(3)[of "?v + ?z"] page_facts(3)[of "?v + ?f"]
      by (auto simp: word_less_nat_alt not_less)
    moreover have "ld_memory ld1 (vaddr + of_nat i) = Some (segment_byte content (unat offset) ?f i)" if i: "i < ?z" for i
      using c1(1)[of "vaddr + of_nat i"] o[OF i] i m1 small by simp
    moreover have "k_writable K w1 (vaddr + of_nat i) = (and flags PF_W \<noteq> 0)" if i: "i < ?z" for i
      using wr1[of "vaddr + of_nat i"] o[OF i] i page_facts(1)[of ?v] small by simp
    moreover have "k_writable K w1 a = k_writable K w a"
      if "unat a < page_down ?v \<or> page_up (?v + ?z) \<le> unat a" for a
      using wr1[of a] that small by auto
    ultimately show ?thesis using c1(2) m1 by auto
  qed
qed

text \<open>
  A segment that cannot be written to, with bytes to clear in the last page of its file part, makes
  the loader fault after the mapping.
\<close>

lemma clear_faults:
  assumes "start < stop" "\<not> wr start"
  shows "clear_bytes wr m start stop = None"
  using assms by (subst clear_bytes.simps) simp

end

subsection \<open>The property\<close>

text \<open>
  A kernel that has one file, open as descriptor 3; it grants the pages from 64 KiB on up to the end of
  the user address space of x86\_64, and its world is the set of the writable pages.
\<close>

definition user_range :: "word_t \<Rightarrow> word_t \<Rightarrow> bool" where
  "user_range addr len = (0x10000 \<le> unat addr \<and> unat addr + unat len \<le> 0x7FFFFFFFF000)"

definition file_kernel :: "bytes \<Rightarrow> (word_t \<Rightarrow> bool) loader_kernel" where
  "file_kernel content =
     \<lparr>k_open = (\<lambda>w m a. (3, w)), k_close = (\<lambda>w fd. (0, w)),
      k_mmap = (\<lambda>w m addr len prot flags fd off.
        if \<not> whole_pages addr len \<or> \<not> 4096 dvd unat off then (- 22, m, w)
        else if \<not> user_range addr len then (- 1, m, w)
        else if and flags MAP_ANONYMOUS = 0 \<and> fd \<noteq> 3 then (- 9, m, w)
        else
          (addr,
           map_range m addr len
             (\<lambda>i. if and prot PROT_READ = 0 then None
                  else if and flags MAP_ANONYMOUS \<noteq> 0 then Some 0 else file_byte content (unat off + i)),
           \<lambda>a. if in_range addr len a then and prot PROT_WRITE \<noteq> 0 else w a)),
      k_mprotect = (\<lambda>w start len prot. w), k_set_name = (\<lambda>w m name. w), k_writable = (\<lambda>w. w)\<rparr>"

interpretation file_kernel: granting_kernel "file_kernel content"
  "\<lambda>w fd. if fd = 3 then Some content else None" user_range for content
  by unfold_locales
    (auto simp: file_kernel_def protected_def MAP_PRIVATE_def MAP_FIXED_def MAP_ANONYMOUS_def split: if_splits)

text \<open>
  C11: for a segment that can be read, and can be written to if it is larger in memory than in the file,
  the mappings that \<open>add_mapping\<close> makes of it, as the loader carries them out with a kernel that grants
  the pages of the segment, put the bytes of the file at the addresses of the segment and zeros after
  them up to its size in memory, can be written to exactly when the segment can, and change nothing
  outside the pages of the segment.
\<close>

theorem segment_loaded:
  assumes "granting_kernel K file_of free" "loadable content vaddr offset filesz memsz"
    and "file_of w (ld_fd ld) = Some content"
    and "and flags PF_R \<noteq> 0" "memsz > filesz \<Longrightarrow> and flags PF_W \<noteq> 0"
    and "\<forall>addr len. page_down (unat vaddr) \<le> unat addr \<and>
      unat addr + unat len \<le> page_up (unat vaddr + unat memsz) \<longrightarrow> free addr len"
  shows "\<exists>ld' w'. loader_turns K (transcript_mappings (segment_mappings vaddr offset filesz memsz flags)) ld w =
      Some (None, ld', w') \<and>
    (\<forall>i<unat memsz. ld_memory ld' (vaddr + of_nat i) =
       Some (segment_byte content (unat offset) (unat filesz) i) \<and>
       k_writable K w' (vaddr + of_nat i) = (and flags PF_W \<noteq> 0)) \<and>
    (\<forall>a. unat a < page_down (unat vaddr) \<or> page_up (unat vaddr + unat memsz) \<le> unat a \<longrightarrow>
       ld_memory ld' a = ld_memory ld a \<and> k_writable K w' a = k_writable K w a)"
  by (rule granting_kernel.segment_turns[OF assms])

definition new_loader :: "memory \<Rightarrow> loader_state" where
  "new_loader m = \<lparr>ld_memory = m, ld_fd = 3, ld_at_base = 0, ld_reset_at_base = True\<rparr>"

theorem segment_loaded_witness:
  "\<exists>ld' w'. loader_turns (file_kernel [10, 11, 12, 13, 14])
      (transcript_mappings (segment_mappings 0x400002 2 3 5000 6)) (new_loader (\<lambda>a. None)) (\<lambda>a. False) =
      Some (None, ld', w') \<and>
    ld_memory ld' (0x400002 + of_nat 1) = Some 13 \<and> ld_memory ld' (0x400002 + of_nat 4500) = Some 0"
proof -
  have l: "loadable [10, 11, 12, 13, 14] 0x400002 2 3 5000"
    by (simp add: loadable_def page_down_def page_up_def)
  have free: "\<forall>addr len. page_down (unat (0x400002 :: word_t)) \<le> unat addr \<and>
      unat addr + unat len \<le> page_up (unat (0x400002 :: word_t) + unat (5000 :: word_t)) \<longrightarrow> user_range addr len"
    by (auto simp: user_range_def page_down_def page_up_def)
  have flags: "and 6 PF_R \<noteq> 0" "and 6 PF_W \<noteq> 0" by (simp_all add: PF_R_def PF_W_def)
  have fd: "(if ld_fd (new_loader (\<lambda>a. None)) = 3 then Some [10, 11, 12, 13, 14 :: 8 word] else None) =
      Some [10, 11, 12, 13, 14]" by (simp add: new_loader_def)
  obtain ld' w' where l: "loader_turns (file_kernel [10, 11, 12, 13, 14])
      (transcript_mappings (segment_mappings 0x400002 2 3 5000 6)) (new_loader (\<lambda>a. None)) (\<lambda>a. False) =
      Some (None, ld', w')"
    "\<forall>i<unat (5000 :: word_t). ld_memory ld' (0x400002 + of_nat i) =
       Some (segment_byte [10, 11, 12, 13, 14] (unat (2 :: word_t)) (unat (3 :: word_t)) i)"
    using segment_loaded[OF file_kernel.granting_kernel_axioms l fd flags free, where w = "\<lambda>a. False"] by blast
  have "ld_memory ld' (0x400002 + of_nat 1) = Some 13" "ld_memory ld' (0x400002 + of_nat 4500) = Some 0"
    using l(2)[rule_format, of 1] l(2)[rule_format, of 4500] by (simp_all add: segment_byte_def)
  then show ?thesis using l(1) by blast
qed

text \<open>
  A segment without bytes in the file at a page boundary gets an empty mapping first, which \<^verbatim>\<open>mmap(2)\<close>
  refuses.
\<close>

lemma empty_segment_fatal:
  assumes "4096 dvd unat vaddr" "unat vaddr + 4096 \<le> 2 ^ 64" "\<And>m prot fd off. fst (k_mmap K w m vaddr 0 prot (or MAP_PRIVATE MAP_FIXED) fd off) \<noteq> vaddr"
  shows "\<exists>ld' w'. loader_turns K (transcript_mappings (segment_mappings vaddr offset 0 memsz flags)) ld w =
    Some (Some Fatal, ld', w')"
proof -
  have s: "and vaddr page_mask = vaddr" using assms(1) by (auto simp: word_unat_eq_iff unat_page)
  have "unat vaddr + unat (0 :: word_t) + 4096 \<le> 2 ^ 64" using assms(2) by simp
  from unat_end(2)[OF this] have "and (vaddr + 0 + 0x1000 - 1) page_mask = vaddr"
    using assms(1) by (auto simp: word_unat_eq_iff page_up_def page_down_def)
  then show ?thesis
    using s assms(3)[of "ld_memory ld" "segment_prot flags" "ld_fd ld" "and offset page_mask"] anon_flags
    by (auto simp: segment_mappings_def transcript_mappings_def Let_def loader_turn_def split: prod.splits)
qed

end
