(* ===== verification/Script_Properties.thy ===== *)
theory Script_Properties
  imports Segment_Properties Push_Properties
begin

section \<open>A transferred load script\<close>

subsection \<open>Statements are read back\<close>

lemma word_le_bytes_le_8 [simp]: "word_le (bytes_le 8 w) = w"
  by (simp add: word_le_bytes_le take_bit_word_eq_self)

definition bytes_of_words :: "word_t list \<Rightarrow> 8 word list" where
  "bytes_of_words ws = concat (map (bytes_le 8) ws)"

lemma bytes_of_words_simps [simp]:
  "bytes_of_words [] = []" "bytes_of_words (w # ws) = bytes_le 8 w @ bytes_of_words ws"
  "bytes_of_words (us @ ws) = bytes_of_words us @ bytes_of_words ws"
  by (simp_all add: bytes_of_words_def)

lemma length_bytes_of_words [simp]: "length (bytes_of_words ws) = 8 * length ws"
  by (induction ws) simp_all

lemma words_of_bytes: "map (\<lambda>i. word_le (take 8 (drop (8 * i) (bytes_of_words ws)))) [0..<length ws] = ws"
proof (induction ws)
  case (Cons w ws)
  have "[0..<length (w # ws)] = 0 # map Suc [0..<length ws]" by (simp add: upt_conv_Cons map_Suc_upt del: upt_Suc)
  then show ?case using Cons by (simp add: comp_def del: upt_Suc)
qed simp

lemma load_words:
  assumes "load_bytes m cursor (8 * length (w # ws)) = Some (bytes_of_words (w # ws))"
  shows "load_word m cursor = Some w" "length ws = n \<Longrightarrow> load_args m cursor n = Some ws"
proof -
  have "load_bytes m cursor (8 + 8 * length ws) = Some (bytes_le 8 w @ bytes_of_words ws)"
    using assms by simp
  then obtain xs ys where "load_bytes m cursor 8 = Some xs"
    "load_bytes m (cursor + of_nat 8) (8 * length ws) = Some ys" "bytes_le 8 w @ bytes_of_words ws = xs @ ys"
    using load_bytes_split by blast
  moreover from this have "length xs = 8" using load_bytes_length by blast
  ultimately have s: "load_bytes m cursor 8 = Some (bytes_le 8 w)"
    "load_bytes m (cursor + 8) (8 * length ws) = Some (bytes_of_words ws)"
    by (simp_all add: append_eq_append_conv)
  then show "load_word m cursor = Some w" "length ws = n \<Longrightarrow> load_args m cursor n = Some ws"
    using words_of_bytes[of ws] by (auto simp: load_word_def load_args_def)
qed

lemma fetch_statement_words:
  assumes "load_bytes m cursor (8 * length (statement_words s)) = Some (bytes_of_words (statement_words s))"
  shows "fetch_statement m cursor = Some (Some s, of_nat (8 * length (statement_words s)))"
proof (cases s)
  case (LOAD_ACTION_OPEN_NEXT a)
  then show ?thesis using load_words(1)[of m cursor 0 "[a]"] load_words(2)[of m cursor 0 "[a]" 1] assms by (simp add: fetch_statement_def)
next
  case (LOAD_ACTION_OPEN a)
  then show ?thesis using load_words(1)[of m cursor 1 "[a]"] load_words(2)[of m cursor 1 "[a]" 1] assms by (simp add: fetch_statement_def)
next
  case (LOAD_ACTION_MMAP_FILE a l p off c)
  then show ?thesis using load_words(1)[of m cursor 2 "[a, l, p, off, c]"] load_words(2)[of m cursor 2 "[a, l, p, off, c]" 5] assms
    by (simp add: fetch_statement_def)
next
  case (LOAD_ACTION_MMAP_ANON a l p off c)
  then show ?thesis using load_words(1)[of m cursor 3 "[a, l, p, off, c]"] load_words(2)[of m cursor 3 "[a, l, p, off, c]" 5] assms
    by (simp add: fetch_statement_def)
next
  case (LOAD_ACTION_MAKE_STACK_EXEC a)
  then show ?thesis using load_words(1)[of m cursor 4 "[a]"] load_words(2)[of m cursor 4 "[a]" 1] assms by (simp add: fetch_statement_def)
next
  case (LOAD_ACTION_START_TRACED a b c d e f g)
  then show ?thesis using load_words(1)[of m cursor 5 "[a, b, c, d, e, f, g]"] load_words(2)[of m cursor 5 "[a, b, c, d, e, f, g]" 7] assms
    by (simp add: fetch_statement_def)
next
  case (LOAD_ACTION_START a b c d e f g)
  then show ?thesis using load_words(1)[of m cursor 6 "[a, b, c, d, e, f, g]"] load_words(2)[of m cursor 6 "[a, b, c, d, e, f, g]" 7] assms
    by (simp add: fetch_statement_def)
qed

text \<open>The statements the loader meets one after the other.\<close>

fun fetch_script :: "memory \<Rightarrow> word_t \<Rightarrow> nat \<Rightarrow> load_statement list option" where
  "fetch_script m cursor 0 = Some []"
| "fetch_script m cursor (Suc n) =
     (case fetch_statement m cursor of
        Some (Some s, k) \<Rightarrow> map_option ((#) s) (fetch_script m (cursor + k) n)
      | _ \<Rightarrow> None)"

definition script_words :: "load_statement list \<Rightarrow> word_t list" where
  "script_words script = concat (map statement_words script)"

lemma fetch_script_words:
  "load_bytes m cursor (8 * length (script_words script)) = Some (bytes_of_words (script_words script)) \<Longrightarrow>
   fetch_script m cursor (length script) = Some script"
proof (induction script arbitrary: cursor)
  case (Cons s script)
  let ?n = "8 * length (statement_words s)"
  have "load_bytes m cursor (?n + 8 * length (script_words script)) =
      Some (bytes_of_words (statement_words s) @ bytes_of_words (script_words script))"
    using Cons.prems by (simp add: script_words_def)
  then obtain xs ys where xy: "load_bytes m cursor ?n = Some xs"
    "load_bytes m (cursor + of_nat ?n) (8 * length (script_words script)) = Some ys"
    "bytes_of_words (statement_words s) @ bytes_of_words (script_words script) = xs @ ys"
    using load_bytes_split by blast
  have "length xs = ?n" using load_bytes_length[OF xy(1)] .
  then have "xs = bytes_of_words (statement_words s)" "ys = bytes_of_words (script_words script)"
    using xy(3) by (simp_all add: append_eq_append_conv)
  then show ?case using fetch_statement_words[of m cursor s] Cons.IH xy(1,2) by simp
qed simp

subsection \<open>The block below the stack pointer\<close>

lemma length_statement_words: "length (statement_words s) \<le> 8"
  by (cases s) auto

lemma length_script_words: "length (script_words script) \<le> 8 * length script"
proof (induction script)
  case (Cons s script)
  then show ?case using length_statement_words[of s] by (simp add: script_words_def)
qed (simp add: script_words_def)

definition script_length :: "load_info \<times> load_info option \<Rightarrow> nat" where
  "script_length lis =
     length (li_mappings (fst lis)) + (case snd lis of None \<Rightarrow> 0 | Some i \<Rightarrow> length (li_mappings i)) + 4"

lemma load_script_length: "load_script p sp a b c lis = Some script \<Longrightarrow> length script \<le> script_length lis"
  by (cases lis)
    (auto simp: load_script_def script_length_def transcript_mappings_def Let_def split: list.splits option.splits)

text \<open>There is room for the script, the strings and the padding.\<close>

definition script_room :: "tracee \<Rightarrow> load_info \<times> load_info option \<Rightarrow> bool" where
  "script_room t lis =
     (64 * script_length lis + length (strings_bytes lis) + 8 < unat (peek_reg t CURRENT STACK_POINTER))"

lemma native_mode: "native t \<Longrightarrow> \<not> is_32on64_mode t"
  by (auto simp: native_def is_32on64_mode_def Let_def)

lemma script_bytes_native: "native t \<Longrightarrow> script_bytes t script = bytes_of_words (script_words script)"
  using native_mode[of t] by (simp add: script_bytes_def script_words_def bytes_of_words_def Let_def)

lemma native_sizeof: "native t \<Longrightarrow> sizeof_word t = 8"
  using native_mode[of t] by (simp add: sizeof_word_def)

lemma unat_sub_of_nat: "n \<le> unat sp \<Longrightarrow> unat (sp - of_nat n) = unat sp - n" for sp :: word_t
  using unat_64[of sp] by (simp add: unat_sub word_le_nat_alt unsigned_of_nat take_bit_nat_eq_self)

text \<open>The first string, the path of the program, and the last one, its raw path.\<close>

lemma strings_bytes_program:
  "take (length (li_user_path (fst lis)) + 1) (strings_bytes lis) = bytes_of (li_user_path (fst lis)) @ [0]"
  by (cases lis) (simp add: strings_bytes_def strings_of_def)

lemma length_strings_program: "length (li_user_path (fst lis)) + 1 \<le> length (strings_bytes lis)"
  by (cases lis) (simp add: strings_bytes_def strings_of_def)

text \<open>
  C12: after a successful transfer the loader, which starts with the address of the block in its first
  argument, reads exactly the statements of the load script from there on, aligned and below the stack
  of the program; the first of them opens the string in the memory that is the path of the program.
\<close>

theorem load_script_transferred:
  assumes "transfer_load_script vm m t ptraced lis = Some (None, t', m', execfn)" "native t" "script_room t lis"
  shows "\<exists>string1 string2 string3 script.
    load_script ptraced (peek_reg t CURRENT STACK_POINTER) string1 string2 string3 lis = Some script \<and>
    fetch_script m' (peek_reg t' CURRENT USERARG_1) (length script) = Some script \<and>
    load_bytes m' string1 (length (li_user_path (fst lis)) + 1) = Some (bytes_of (li_user_path (fst lis)) @ [0]) \<and>
    8 dvd unat (peek_reg t' CURRENT USERARG_1) \<and>
    peek_reg t' CURRENT STACK_POINTER = peek_reg t' CURRENT USERARG_1 \<and>
    (\<forall>a\<ge>peek_reg t CURRENT STACK_POINTER. m' a = m a)"
proof -
  let ?sp = "peek_reg t CURRENT STACK_POINTER" and ?strings = "strings_bytes lis"
  define pad where "pad = padding_size t ?sp (length ?strings)"
  define s1 where "s1 = ?sp - of_nat (length ?strings + pad)"
  obtain s2 s3 script where script: "load_script ptraced ?sp s1 s2 s3 lis = Some script"
    and w: "write_data vm m (?sp - of_nat (length (script_bytes t script @ ?strings @ replicate pad 0)))
        (script_bytes t script @ ?strings @ replicate pad 0) = (None, m')"
    and t': "t' = (save_current_regs (poke_reg (poke_reg t STACK_POINTER
        (?sp - of_nat (length (script_bytes t script @ ?strings @ replicate pad 0)))) USERARG_1
        (?sp - of_nat (length (script_bytes t script @ ?strings @ replicate pad 0)))) ORIGINAL)\<lparr>regs_were_changed := True\<rparr>"
    using assms(1) unfolding transfer_load_script_def Let_def pad_def[symmetric] s1_def[symmetric]
    by (auto simp: pad_def s1_def split: option.splits prod.splits)
  let ?n = "8 * length (script_words script)"
  let ?buffer = "bytes_of_words (script_words script) @ ?strings @ replicate pad 0"
  let ?a = "?sp - of_nat (length ?buffer)"
  have sb: "script_bytes t script = bytes_of_words (script_words script)" using script_bytes_native assms(2) .
  have m': "m' = store_bytes m ?a ?buffer" using write_data_stored[OF w] unfolding sb .
  have pad8: "pad < 8" by (simp add: pad_def padding_size_def native_sizeof[OF assms(2)] unat_mod)
  have len: "length ?buffer < unat ?sp"
    using assms(3) load_script_length[OF script] length_script_words[of script] pad8 by (simp add: script_room_def)
  then have ua: "unat ?a = unat ?sp - length ?buffer" by (intro unat_sub_of_nat) simp
  have l64: "length ?buffer \<le> 2 ^ 64" using len unat_64[of ?sp] by simp
  have "load_bytes m' (?a + of_nat 0) ?n = Some (take ?n (drop 0 ?buffer))"
    unfolding m' by (rule load_store_slice[OF l64]) simp
  then have f: "fetch_script m' ?a (length script) = Some script" by (intro fetch_script_words) simp
  have "s1 = ?a + of_nat ?n" by (simp add: s1_def)
  moreover have "load_bytes m' (?a + of_nat ?n) (length (li_user_path (fst lis)) + 1) =
      Some (take (length (li_user_path (fst lis)) + 1) (drop ?n ?buffer))"
    unfolding m' by (rule load_store_slice[OF l64]) (use length_strings_program[of lis] in simp)
  ultimately have s: "load_bytes m' s1 (length (li_user_path (fst lis)) + 1) =
      Some (bytes_of (li_user_path (fst lis)) @ [0])"
    using strings_bytes_program[of lis] length_strings_program[of lis] by simp
  have "8 dvd unat ?a"
  proof -
    have "pad = (unat ?sp - length ?strings) mod 8"
      using unat_sub_of_nat[of "length ?strings" ?sp] len
      by (simp add: pad_def padding_size_def native_sizeof[OF assms(2)] unat_mod)
    then have "8 dvd (unat ?sp - length ?strings) - pad" by (simp only: dvd_minus_mod)
    then have "8 dvd (unat ?sp - length ?strings - pad) - ?n" by (rule dvd_diff_nat) simp
    then show ?thesis using ua by (simp add: diff_diff_eq add.commute add.left_commute)
  qed
  moreover have "m' a = m a" if "?sp \<le> a" for a
    unfolding m'
  proof (rule store_bytes_above[OF _ that])
    have "unat ?a + length ?buffer = unat ?sp" using ua len by linarith
    then have "int (unat ?a + length ?buffer) = int (unat ?sp)" by (rule arg_cong)
    then show "uint ?a + int (length ?buffer) \<le> uint ?sp" by (simp only: uint_nat of_nat_add order.refl)
  qed
  moreover have "peek_reg t' CURRENT USERARG_1 = ?a" "peek_reg t' CURRENT STACK_POINTER = ?a"
  proof -
    have "native t'" using assms(2) unfolding t' by (simp add: native_def)
    then show "peek_reg t' CURRENT USERARG_1 = ?a" "peek_reg t' CURRENT STACK_POINTER = ?a"
      using assms(2) by (simp_all add: native_simps(3) t' sb native_simps(4,5))
  qed
  ultimately show ?thesis using script f s by auto
qed

text \<open>A program with one mapping, and a stack with room for its script.\<close>

definition small_program :: load_info where
  "small_program =
     \<lparr>li_host_path = ''/r/p'', li_user_path = ''/p'', li_raw_path = None,
      li_mappings = segment_mappings 0x400000 0 16 16 5, li_elf_header = replicate 64 0,
      li_needs_executable_stack = False, li_interp = None\<rparr>"

definition deep_tracee :: tracee where
  "deep_tracee = sample_tracee\<lparr>regs := \<lambda>_. (\<lambda>_. 0)(RSP := 4096)\<rparr>"

definition deep_memory :: memory where
  "deep_memory a = (if a < 8192 then Some 0 else None)"

lemma small_transfer:
  "map_option fst (transfer_load_script open_vm deep_memory deep_tracee False (small_program, None)) = Some None"
  by code_simp

theorem load_script_transferred_witness:
  "\<exists>t' m' execfn script. transfer_load_script open_vm deep_memory deep_tracee False (small_program, None) =
      Some (None, t', m', execfn) \<and>
    fetch_script m' (peek_reg t' CURRENT USERARG_1) (length script) = Some script \<and>
    8 dvd unat (peek_reg t' CURRENT USERARG_1)"
proof -
  obtain t' m' execfn where tr: "transfer_load_script open_vm deep_memory deep_tracee False (small_program, None) =
      Some (None, t', m', execfn)"
    using small_transfer by auto
  have "native deep_tracee" "script_room deep_tracee (small_program, None)" by code_simp+
  from load_script_transferred[OF tr this] show ?thesis using tr by blast
qed

end
