(* ===== verification/Auxv.thy ===== *)
theory Auxv
  imports Script_Properties
begin

section \<open>ELF auxiliary vectors\<close>

text \<open>
  \<^verbatim>\<open>execve/auxv.c\<close>: the table of types and values that the kernel leaves on the stack of a new program
  after the environment.  The outer \<open>None\<close> of a result is a failed assertion or a loop without end.
\<close>

type_synonym aux_vectors = "(word_t \<times> word_t) list"

definition add_elf_aux_vector :: "aux_vectors \<Rightarrow> word_t \<Rightarrow> word_t \<Rightarrow> aux_vectors option" where
  "add_elf_aux_vector vectors ty v =
     (if vectors = [] then None
      else if fst (last vectors) \<noteq> AT_NULL then None
      else Some (butlast vectors @ [(ty, v), (AT_NULL, 0)]))"

text \<open>\<open>data\<close> is the word read last; the address is 0 on error.\<close>

partial_function (option) skip_environment :: "process_vm \<Rightarrow> memory \<Rightarrow> tracee \<Rightarrow> word_t \<Rightarrow> word_t option" where
  "skip_environment vm m t address =
     (case peek_word vm m t address of
        None \<Rightarrow> Some 0
      | Some data \<Rightarrow>
          (let address = address + of_nat (sizeof_word t)
           in if data \<noteq> 0 then skip_environment vm m t address else Some address))"

text \<open>The first argument tells whether the tracee is at the end of \<^verbatim>\<open>execve(2)\<close>.\<close>

definition get_elf_aux_vectors_address :: "bool \<Rightarrow> process_vm \<Rightarrow> memory \<Rightarrow> tracee \<Rightarrow> word_t option" where
  "get_elf_aux_vectors_address in_sysexit vm m t =
     (if \<not> in_sysexit then None
      else
        (let address = peek_reg t CURRENT STACK_POINTER in
         case peek_word vm m t address of
           None \<Rightarrow> Some 0
         | Some data \<Rightarrow> skip_environment vm m t (address + (1 + data + 1) * of_nat (sizeof_word t))))"

text \<open>The inner \<open>None\<close> is the null pointer.\<close>

partial_function (option) fetch_vectors ::
  "process_vm \<Rightarrow> memory \<Rightarrow> tracee \<Rightarrow> word_t \<Rightarrow> aux_vectors \<Rightarrow> aux_vectors option option" where
  "fetch_vectors vm m t address vectors =
     (case peek_word vm m t address of
        None \<Rightarrow> Some None
      | Some ty \<Rightarrow>
          (let address = address + of_nat (sizeof_word t) in
           if ty = AT_NULL then Some (Some vectors)
           else
             (case peek_word vm m t address of
                None \<Rightarrow> Some None
              | Some v \<Rightarrow>
                  (case add_elf_aux_vector vectors ty v of
                     None \<Rightarrow> None
                   | Some vectors \<Rightarrow> fetch_vectors vm m t (address + of_nat (sizeof_word t)) vectors))))"

definition fetch_elf_aux_vectors :: "process_vm \<Rightarrow> memory \<Rightarrow> tracee \<Rightarrow> word_t \<Rightarrow> aux_vectors option option" where
  "fetch_elf_aux_vectors vm m t address = fetch_vectors vm m t address [(AT_NULL, 0)]"

definition poke_two :: "process_vm \<Rightarrow> memory \<Rightarrow> tracee \<Rightarrow> word_t \<Rightarrow> word_t \<Rightarrow> word_t \<Rightarrow> memory result" where
  "poke_two vm m t address v1 v2 =
     (case poke_word vm m t address v1 of
        None \<Rightarrow> Inl EFAULT
      | Some m \<Rightarrow>
          (case poke_word vm m t (address + of_nat (sizeof_word t)) v2 of None \<Rightarrow> Inl EFAULT | Some m \<Rightarrow> Inr m))"

fun push_elf_aux_vectors :: "process_vm \<Rightarrow> memory \<Rightarrow> tracee \<Rightarrow> aux_vectors \<Rightarrow> word_t \<Rightarrow> memory result option" where
  "push_elf_aux_vectors vm m t [] address = None"
| "push_elf_aux_vectors vm m t ((ty, v) # vectors) address =
     (if ty \<noteq> AT_NULL then
        (case poke_two vm m t address ty v of
           Inl e \<Rightarrow> Some (Inl e)
         | Inr m \<Rightarrow> push_elf_aux_vectors vm m t vectors (address + of_nat (2 * sizeof_word t)))
      else Some (poke_two vm m t address AT_NULL 0))"

subsection \<open>Lemmas\<close>

definition pair_words :: "aux_vectors \<Rightarrow> word_t list" where
  "pair_words vectors = concat (map (\<lambda>(ty, v). [ty, v]) vectors)"

lemma pair_words_simps [simp]:
  "pair_words [] = []" "pair_words ((ty, v) # vs) = ty # v # pair_words vs"
  "pair_words (us @ vs) = pair_words us @ pair_words vs"
  by (simp_all add: pair_words_def)

lemma length_pair_words [simp]: "length (pair_words vs) = 2 * length vs"
  by (induction vs) auto

lemma peek_word_native: "native t \<Longrightarrow> peek_word vm m t a = load_word m a"
  using native_mode[of t] by (simp add: peek_word_def peekdata_def load_word_def native_sizeof option.map_ident)

lemma poke_word_native:
  "native t \<Longrightarrow> poke_word vm m t a w = Some m' \<Longrightarrow> m' = store_bytes m a (bytes_le 8 w)"
  using native_mode[of t] by (auto simp: poke_word_def pokedata_def native_sizeof split: if_splits)

lemma poke_two_stored:
  "native t \<Longrightarrow> poke_two vm m t a v1 v2 = Inr m' \<Longrightarrow> m' = store_bytes m a (bytes_of_words [v1, v2])"
  using poke_word_native[of t vm m a v1] poke_word_native[of t vm _ "a + 8" v2]
  by (auto simp: poke_two_def native_sizeof store_bytes_append split: option.splits)

lemma push_vectors_stored:
  "push_elf_aux_vectors vm m t (vs @ [(AT_NULL, 0)]) a = Some (Inr m') \<Longrightarrow> native t \<Longrightarrow>
   AT_NULL \<notin> fst ` set vs \<Longrightarrow> m' = store_bytes m a (bytes_of_words (pair_words vs @ [AT_NULL, 0]))"
proof (induction vs arbitrary: m a)
  case Nil
  then show ?case using poke_two_stored[of t vm m a AT_NULL 0 m'] by simp
next
  case (Cons x vs)
  obtain ty v where x: "x = (ty, v)" by (cases x)
  obtain m1 where m1: "poke_two vm m t a ty v = Inr m1"
    "push_elf_aux_vectors vm m1 t (vs @ [(AT_NULL, 0)]) (a + 16) = Some (Inr m')"
    using Cons.prems x by (auto simp: native_sizeof split: if_splits sum.splits)
  then show ?case
    using Cons.IH[OF m1(2)] Cons.prems x poke_two_stored[OF Cons.prems(2) m1(1)]
      store_bytes_append[of m a "bytes_of_words [ty, v]" "bytes_of_words (pair_words vs @ [AT_NULL, 0])"]
    by simp
qed

lemma load_words_append:
  assumes "load_bytes m a (8 * length (us @ ws)) = Some (bytes_of_words (us @ ws))"
  shows "load_bytes m a (8 * length us) = Some (bytes_of_words us)"
    "load_bytes m (a + of_nat (8 * length us)) (8 * length ws) = Some (bytes_of_words ws)"
proof -
  have "load_bytes m a (8 * length us + 8 * length ws) = Some (bytes_of_words us @ bytes_of_words ws)"
    using assms by (simp add: distrib_left)
  then obtain xs ys where xy: "load_bytes m a (8 * length us) = Some xs"
    "load_bytes m (a + of_nat (8 * length us)) (8 * length ws) = Some ys"
    "bytes_of_words us @ bytes_of_words ws = xs @ ys"
    using load_bytes_split by blast
  have "length xs = 8 * length us" using load_bytes_length[OF xy(1)] .
  then have "xs = bytes_of_words us" "ys = bytes_of_words ws" using xy(3) by (simp_all add: append_eq_append_conv)
  then show "load_bytes m a (8 * length us) = Some (bytes_of_words us)"
    "load_bytes m (a + of_nat (8 * length us)) (8 * length ws) = Some (bytes_of_words ws)"
    using xy(1,2) by simp_all
qed

lemma load_pair:
  assumes "load_bytes m a (8 * length (ty # v # ws)) = Some (bytes_of_words (ty # v # ws))"
  shows "load_word m a = Some ty" "load_word m (a + 8) = Some v"
    "load_bytes m (a + 16) (8 * length ws) = Some (bytes_of_words ws)"
proof -
  have 2: "[ty, v] @ ws = ty # v # ws" by simp
  have "load_bytes m (a + 8) (8 * length (v # ws)) = Some (bytes_of_words (v # ws))"
    using load_words_append(2)[of m a "[ty]" "v # ws"] assms by simp
  then show "load_word m a = Some ty" "load_word m (a + 8) = Some v"
    using load_words(1) assms by blast+
  show "load_bytes m (a + 16) (8 * length ws) = Some (bytes_of_words ws)"
    using load_words_append(2)[of m a "[ty, v]" ws] assms unfolding 2 by simp
qed

lemma fetch_vectors_loaded:
  "load_bytes m a (8 * length (pair_words vs @ [AT_NULL])) = Some (bytes_of_words (pair_words vs @ [AT_NULL])) \<Longrightarrow>
   native t \<Longrightarrow> AT_NULL \<notin> fst ` set vs \<Longrightarrow>
   fetch_vectors vm m t a (us @ [(AT_NULL, 0)]) = Some (Some (us @ vs @ [(AT_NULL, 0)]))"
proof (induction vs arbitrary: a us)
  case Nil
  then show ?case
    using load_words(1)[of m a AT_NULL "[]"] by (subst fetch_vectors.simps) (simp add: peek_word_native)
next
  case (Cons x vs)
  obtain ty v where x: "x = (ty, v)" by (cases x)
  note l = load_pair[of m a ty v "pair_words vs @ [AT_NULL]"]
  have ne: "ty \<noteq> AT_NULL" using Cons.prems(3) x by auto
  have "fetch_vectors vm m t a (us @ [(AT_NULL, 0)]) =
      fetch_vectors vm m t (a + 16) ((us @ [(ty, v)]) @ [(AT_NULL, 0)])"
    using l(1,2) Cons.prems x ne
    by (subst fetch_vectors.simps)
      (simp add: peek_word_native native_sizeof add_elf_aux_vector_def add.assoc Let_def)
  then show ?case using Cons.IH[of "a + 16" "us @ [x]"] l(3) Cons.prems x by simp
qed

end
