(* ===== verification/Auxv_Properties.thy ===== *)
theory Auxv_Properties
  imports Auxv
begin

section \<open>Properties of the auxiliary vectors\<close>

lemma load_store_words:
  "8 * length ws \<le> 2 ^ 64 \<Longrightarrow>
   load_bytes (store_bytes m a (bytes_of_words ws)) a (8 * length ws) = Some (bytes_of_words ws)"
  using load_store_bytes[of "bytes_of_words ws" m a] by simp

text \<open>
  C16: a table that was written to the memory of a tracee, and whose only entry of type \<^verbatim>\<open>AT_NULL\<close> is the
  last one, is read back as it was.
\<close>

theorem aux_vectors_round_trip:
  assumes "push_elf_aux_vectors vm m t (vs @ [(AT_NULL, 0)]) address = Some (Inr m')" "native t"
    and "AT_NULL \<notin> fst ` set vs" "16 * (length vs + 1) < 2 ^ 64"
  shows "fetch_elf_aux_vectors vm' m' t address = Some (Some (vs @ [(AT_NULL, 0)]))"
proof -
  let ?ws = "pair_words vs @ [AT_NULL]"
  have "m' = store_bytes m address (bytes_of_words (?ws @ [0]))"
    using push_vectors_stored[OF assms(1,2,3)] by simp
  then have "load_bytes m' address (8 * length (?ws @ [0])) = Some (bytes_of_words (?ws @ [0]))"
    using load_store_words[of "?ws @ [0]" m address] assms(4) by simp
  from load_words_append(1)[OF this] fetch_vectors_loaded[OF _ assms(2,3), of m' address vm' "[]"]
  show ?thesis by (simp add: fetch_elf_aux_vectors_def)
qed

lemma small_push_vectors:
  "map_option (map_sum (\<lambda>e. e) (\<lambda>m. ())) (push_elf_aux_vectors open_vm deep_memory deep_tracee
     ([(6, 4096), (3, 64)] @ [(AT_NULL, 0)]) 16) = Some (Inr ())"
  by code_simp

theorem aux_vectors_round_trip_witness:
  "\<exists>m'. push_elf_aux_vectors open_vm deep_memory deep_tracee ([(6, 4096), (3, 64)] @ [(AT_NULL, 0)]) 16 =
      Some (Inr m') \<and>
    fetch_elf_aux_vectors closed_vm m' deep_tracee 16 = Some (Some [(6, 4096), (3, 64), (AT_NULL, 0)])"
proof -
  obtain r where "push_elf_aux_vectors open_vm deep_memory deep_tracee
      ([(6, 4096), (3, 64)] @ [(AT_NULL, 0)]) 16 = Some r" "map_sum (\<lambda>e. e) (\<lambda>m. ()) r = Inr ()"
    using small_push_vectors by auto
  then obtain m' where p: "push_elf_aux_vectors open_vm deep_memory deep_tracee
      ([(6, 4096), (3, 64)] @ [(AT_NULL, 0)]) 16 = Some (Inr m')" by (cases r) auto
  have "native deep_tracee" by code_simp
  from aux_vectors_round_trip[OF p this, of closed_vm] p show ?thesis by (auto simp: AT_NULL_def)
qed

subsection \<open>The loader\<close>

text \<open>An entry as the loader leaves it.\<close>

definition adjusted_entry :: "load_statement \<Rightarrow> word_t \<Rightarrow> word_t \<Rightarrow> word_t \<times> word_t \<Rightarrow> word_t \<times> word_t" where
  "adjusted_entry stmt at_base at_execfn entry =
     (fst entry,
      case adjusted_value stmt at_base at_execfn (fst entry) of None \<Rightarrow> snd entry | Some v \<Rightarrow> v)"

lemma load_word_bytes:
  assumes "load_word m a = Some w"
  shows "load_bytes m a 8 = Some (bytes_le 8 w)"
proof -
  obtain z where z: "load_bytes m a 8 = Some z" "w = word_le z" using assms by (auto simp: load_word_def)
  then show ?thesis using bytes_le_word_le[OF load_bytes_length[OF z(1)]] by simp
qed

lemma adjust_entry_stored:
  assumes "load_word m a = Some ty" "load_word m (a + 8) = Some v"
    and "list_all (\<lambda>i. wr (a + 8 + of_nat i)) [0..<8]"
  shows "(case adjusted_value stmt at_base at_execfn ty of None \<Rightarrow> Some m | Some v \<Rightarrow> store_word wr m (a + 8) v) =
    Some (store_bytes m a (bytes_of_words [ty, snd (adjusted_entry stmt at_base at_execfn (ty, v))]))"
proof -
  have b: "load_bytes m a 8 = Some (bytes_le 8 ty)" "load_bytes m (a + 8) 8 = Some (bytes_le 8 v)"
    using assms(1,2) load_word_bytes by blast+
  then have "accessible m (a + 8) 8" by (simp add: accessible_def)
  then show ?thesis
    using store_bytes_same[OF b(1)] store_bytes_same[OF b(2)] assms(3)
    by (auto simp: store_word_def adjusted_entry_def store_bytes_append split: option.splits)
qed

lemma offset_distinct:
  fixes a :: word_t
  assumes "i < n" "j < k" "k + n \<le> 2 ^ 64"
  shows "a + of_nat k + of_nat i \<noteq> a + of_nat j"
  using of_nat_offset_inject[of "k + i" j a] assms by (auto simp: add.assoc)

lemma adjust_auxv_stored:
  "load_bytes m a (8 * length (pair_words vs @ [AT_NULL])) = Some (bytes_of_words (pair_words vs @ [AT_NULL])) \<Longrightarrow>
   vs \<noteq> [] \<Longrightarrow> AT_NULL \<notin> fst ` set vs \<Longrightarrow> 16 * (length vs + 1) < 2 ^ 64 \<Longrightarrow>
   \<forall>i<16 * length vs. wr (a + of_nat i) \<Longrightarrow>
   adjust_auxv wr stmt at_base at_execfn m a =
     Some (store_bytes m a (bytes_of_words (pair_words (map (adjusted_entry stmt at_base at_execfn) vs) @ [AT_NULL])))"
proof (induction vs arbitrary: m a)
  case (Cons x vs)
  obtain ty v where x: "x = (ty, v)" by (cases x)
  note IH = Cons.IH and prems = Cons.prems
  let ?v = "snd (adjusted_entry stmt at_base at_execfn (ty, v))"
  let ?m1 = "store_bytes m a (bytes_of_words [ty, ?v])"
  note l = load_pair[of m a ty v "pair_words vs @ [AT_NULL]"]
  have lw: "load_word m a = Some ty" "load_word m (a + 8) = Some v"
    and rest: "load_bytes m (a + 16) (8 * length (pair_words vs @ [AT_NULL])) = Some (bytes_of_words (pair_words vs @ [AT_NULL]))"
    using l Cons.prems(1) x by simp_all
  have rest1: "load_bytes ?m1 (a + 16) (8 * length (pair_words vs @ [AT_NULL])) =
      Some (bytes_of_words (pair_words vs @ [AT_NULL]))"
    using rest offset_distinct[of _ "8 * length (pair_words vs @ [AT_NULL])" _ 16 a] Cons.prems(4)
    by (subst load_store_disjoint) auto
  have p: "pair_words (map (adjusted_entry stmt at_base at_execfn) (x # vs)) =
      ty # ?v # pair_words (map (adjusted_entry stmt at_base at_execfn) vs)"
    by (simp add: x adjusted_entry_def)
  have wr: "wr (a + 8 + of_nat i)" if "i < 8" for i
    using Cons.prems(5)[rule_format, of "8 + i"] that by (simp add: add.assoc)
  have wr': "wr (a + 16 + of_nat i)" if "i < 16 * length vs" for i
    using Cons.prems(5)[rule_format, of "16 + i"] that by (simp add: add.assoc)
  have "list_all (\<lambda>i. wr (a + 8 + of_nat i)) [0..<8]"
    using wr by (auto simp del: upt_conv_Cons simp: list_all_iff)
  note e = adjust_entry_stored[where wr = wr, OF lw this, of stmt at_base at_execfn]
  show ?case
  proof (cases vs)
    case Nil
    have "load_bytes ?m1 (a + 16) 8 = Some (bytes_le 8 AT_NULL)" using rest1 Nil by simp
    then have n: "load_word ?m1 (a + 16) = Some AT_NULL" "store_bytes ?m1 (a + 16) (bytes_le 8 AT_NULL) = ?m1"
      using store_bytes_same by (simp_all add: load_word_def)
    then have "adjust_auxv wr stmt at_base at_execfn m a = Some ?m1"
      using e lw by (subst adjust_auxv.simps) simp
    moreover have "store_bytes m a (bytes_of_words ([ty, ?v] @ [AT_NULL])) = ?m1"
      using n(2) store_bytes_append[of m a "bytes_of_words [ty, ?v]" "bytes_le 8 AT_NULL"] by simp
    ultimately show ?thesis using Nil x by (simp add: adjusted_entry_def)
  next
    case (Cons y ys)
    obtain ty2 v2 where y: "y = (ty2, v2)" by (cases y)
    have "load_word ?m1 (a + 16) = Some ty2"
      using load_pair(1)[of ?m1 "a + 16" ty2 v2 "pair_words ys @ [AT_NULL]"] rest1 Cons y by simp
    moreover have "ty2 \<noteq> AT_NULL" using Cons.prems(3) Cons y by auto
    ultimately have "adjust_auxv wr stmt at_base at_execfn m a = adjust_auxv wr stmt at_base at_execfn ?m1 (a + 16)"
      using e lw by (subst adjust_auxv.simps) simp
    also have "\<dots> = Some (store_bytes ?m1 (a + 16)
        (bytes_of_words (pair_words (map (adjusted_entry stmt at_base at_execfn) vs) @ [AT_NULL])))"
      by (rule IH[OF rest1]) (use prems Cons wr' in auto)
    also have "store_bytes ?m1 (a + 16) (bytes_of_words (pair_words (map (adjusted_entry stmt at_base at_execfn) vs) @ [AT_NULL])) =
        store_bytes m a (bytes_of_words (pair_words (map (adjusted_entry stmt at_base at_execfn) (x # vs)) @ [AT_NULL]))"
      using store_bytes_append[of m a "bytes_of_words [ty, ?v]"
          "bytes_of_words (pair_words (map (adjusted_entry stmt at_base at_execfn) vs) @ [AT_NULL])"] p by simp
    finally show ?thesis .
  qed
qed simp

text \<open>The entries of the table as the new program must find them, by the numbers of \<^verbatim>\<open>elf.h\<close>.\<close>

definition described_entry ::
  "(word_t \<times> word_t) list \<Rightarrow> word_t \<times> word_t \<Rightarrow> word_t \<times> word_t" where
  "described_entry values entry =
     (case map_of values (fst entry) of None \<Rightarrow> entry | Some v \<Rightarrow> (fst entry, v))"

lemma adjusted_described:
  "adjusted_entry (LOAD_ACTION_START sp e phdr phent phnum entry execfn) at_base at_execfn =
     described_entry [(3, phdr), (4, phent), (5, phnum), (7, at_base), (9, entry), (31, at_execfn)]"
  by (rule ext, rename_tac x, case_tac x) (simp add: adjusted_entry_def adjusted_value_def described_entry_def AT_PHDR_def AT_PHENT_def
      AT_PHNUM_def AT_ENTRY_def AT_BASE_def AT_EXECFN_def)

text \<open>
  C14: the loader changes the auxiliary vectors of the new program in place, on a stack that can be
  written to.  The table the tracer reads afterwards has the same types in the same order; the address
  (\<open>AT_PHDR\<close> = 3), the entry size (\<open>AT_PHENT\<close> = 4) and the number (\<open>AT_PHNUM\<close> = 5) of the program
  headers and the entry point (\<open>AT_ENTRY\<close> = 9) are those of the load script, the base of the
  interpreter (\<open>AT_BASE\<close> = 7) and the name (\<open>AT_EXECFN\<close> = 31) those the loader found, every other
  entry keeps its value, and no byte outside the table has changed.
\<close>

theorem loader_adjusts_auxv:
  assumes "load_bytes m a (8 * length (pair_words vs @ [AT_NULL])) = Some (bytes_of_words (pair_words vs @ [AT_NULL]))"
    and "vs \<noteq> []" "AT_NULL \<notin> fst ` set vs" "16 * (length vs + 1) < 2 ^ 64" "native t"
    and "\<forall>i<16 * length vs. wr (a + of_nat i)"
  shows "\<exists>m'. adjust_auxv wr (LOAD_ACTION_START sp e phdr phent phnum entry execfn) at_base at_execfn m a =
      Some m' \<and>
    fetch_elf_aux_vectors vm m' t a =
      Some (Some (map (described_entry [(3, phdr), (4, phent), (5, phnum), (7, at_base), (9, entry),
        (31, at_execfn)]) vs @ [(AT_NULL, 0)])) \<and>
    (\<forall>x. (\<forall>i<16 * length vs + 8. x \<noteq> a + of_nat i) \<longrightarrow> m' x = m x)"
proof -
  let ?stmt = "LOAD_ACTION_START sp e phdr phent phnum entry execfn"
  let ?vs = "map (adjusted_entry ?stmt at_base at_execfn) vs"
  let ?bs = "bytes_of_words (pair_words ?vs @ [AT_NULL])"
  let ?m = "store_bytes m a ?bs"
  have "load_bytes ?m a (8 * length (pair_words ?vs @ [AT_NULL])) = Some ?bs"
    using load_store_words[of "pair_words ?vs @ [AT_NULL]" m a] assms(4) by simp
  moreover have "AT_NULL \<notin> fst ` set ?vs" using assms(3) by (simp add: image_image adjusted_entry_def)
  ultimately have "fetch_elf_aux_vectors vm ?m t a = Some (Some (?vs @ [(AT_NULL, 0)]))"
    using fetch_vectors_loaded[OF _ assms(5), of ?m a ?vs vm "[]"] by (simp add: fetch_elf_aux_vectors_def)
  moreover have "\<forall>x. (\<forall>i<16 * length vs + 8. x \<noteq> a + of_nat i) \<longrightarrow> ?m x = m x"
    by (intro allI impI store_bytes_other) simp
  moreover have "adjust_auxv wr ?stmt at_base at_execfn m a = Some ?m"
    by (rule adjust_auxv_stored[OF assms(1-4,6)])
  ultimately show ?thesis unfolding adjusted_described by blast
qed

text \<open>A table with the address of the program headers and the page size.\<close>

definition small_table :: memory where
  "small_table = store_bytes deep_memory 16 (bytes_of_words (pair_words [(AT_PHDR, 1), (6, 4096)] @ [AT_NULL]))"

theorem loader_adjusts_auxv_witness:
  "\<exists>m'. adjust_auxv (\<lambda>x. True) (LOAD_ACTION_START 0 0 64 56 1 0 0) 0 0 small_table 16 = Some m' \<and>
    fetch_elf_aux_vectors open_vm m' deep_tracee 16 = Some (Some [(AT_PHDR, 64), (6, 4096), (AT_NULL, 0)])"
proof -
  have l: "load_bytes small_table 16 (8 * length (pair_words [(AT_PHDR, 1), (6, 4096)] @ [AT_NULL])) =
      Some (bytes_of_words (pair_words [(AT_PHDR, 1), (6, 4096)] @ [AT_NULL]))"
    unfolding small_table_def
    by (rule load_store_words) simp
  have "native deep_tracee" by code_simp
  have "[(AT_PHDR, 1), (6, 4096)] \<noteq> ([] :: (word_t \<times> word_t) list)" by simp
  moreover have "AT_NULL \<notin> fst ` set [(AT_PHDR, 1 :: word_t), (6, 4096 :: word_t)]"
    by (simp add: AT_NULL_def AT_PHDR_def)
  moreover have "16 * (length [(AT_PHDR, 1 :: word_t), (6, 4096 :: word_t)] + 1) < 2 ^ 64" by simp
  moreover have "\<forall>i<16 * length [(AT_PHDR, 1 :: word_t), (6, 4096 :: word_t)]. (\<lambda>x. True) (16 + of_nat i :: word_t)"
    by simp
  ultimately have "\<exists>m'. adjust_auxv (\<lambda>x. True) (LOAD_ACTION_START 0 0 64 56 1 0 0) 0 0 small_table 16 = Some m' \<and>
      fetch_elf_aux_vectors open_vm m' deep_tracee 16 =
        Some (Some (map (described_entry [(3, 64), (4, 56), (5, 1), (7, 0), (9, 0), (31, 0)])
          [(AT_PHDR, 1), (6, 4096)] @ [(AT_NULL, 0)]))"
    using loader_adjusts_auxv[OF l _ _ _ \<open>native deep_tracee\<close>, of "\<lambda>x. True" 0 0 64 56 1 0 0 0 0 open_vm]
    by blast
  moreover have "map (described_entry [(3, 64), (4, 56), (5, 1), (7, 0), (9, 0), (31, 0)])
      [(AT_PHDR, 1), (6, 4096)] = [(AT_PHDR, 64), (6, 4096)]"
    by (simp add: described_entry_def AT_PHDR_def)
  ultimately show ?thesis by simp
qed

end
