(* ===== verification/Sysargs.thy ===== *)
theory Sysargs
  imports Xpointer_Lemmas Push_Properties
begin

section \<open>Paths in the arguments of system calls\<close>

text \<open>
  \<^verbatim>\<open>get_sysarg_path\<close>, \<^verbatim>\<open>set_sysarg_data\<close> and \<^verbatim>\<open>set_sysarg_path\<close> of \<^verbatim>\<open>syscall/syscall.c\<close>, with \<^verbatim>\<open>read_path\<close> of
  \<^verbatim>\<open>tracee/mem.h\<close>.  The outer \<open>None\<close> of the setters is the failed assertion of \<open>alloc_mem\<close>.
\<close>

definition c_string :: "8 word list \<Rightarrow> string" where
  "c_string bs = chars_of (takeWhile (\<lambda>b. b \<noteq> 0) bs)"

definition read_path :: "process_vm \<Rightarrow> memory \<Rightarrow> word_t \<Rightarrow> (nat \<times> string) result" where
  "read_path vm m src =
     (case read_string vm m src PATH_MAX of
        Inl e \<Rightarrow> Inl e
      | Inr (n, bytes) \<Rightarrow> (if n \<ge> PATH_MAX then Inl ENAMETOOLONG else Inr (n, c_string bytes)))"

definition get_sysarg_path :: "process_vm \<Rightarrow> memory \<Rightarrow> tracee \<Rightarrow> Reg \<Rightarrow> (nat \<times> string) result" where
  "get_sysarg_path vm m t reg =
     (let src = peek_reg t CURRENT reg in if src = 0 then Inr (0, []) else read_path vm m src)"

definition set_sysarg_data ::
  "process_vm \<Rightarrow> memory \<Rightarrow> tracee \<Rightarrow> 8 word list \<Rightarrow> Reg \<Rightarrow> (errno option \<times> tracee \<times> memory) option" where
  "set_sysarg_data vm m t bytes reg =
     (case alloc_mem t (int (length bytes)) of
        None \<Rightarrow> None
      | Some (tracee_ptr, t) \<Rightarrow>
          (if tracee_ptr = 0 then Some (Some EFAULT, t, m)
           else
             (case write_data vm m tracee_ptr bytes of
                (Some e, m) \<Rightarrow> Some (Some e, t, m)
              | (None, m) \<Rightarrow> Some (None, poke_reg t reg tracee_ptr, m))))"

definition set_sysarg_path ::
  "process_vm \<Rightarrow> memory \<Rightarrow> tracee \<Rightarrow> string \<Rightarrow> Reg \<Rightarrow> (errno option \<times> tracee \<times> memory) option" where
  "set_sysarg_path vm m t path reg = set_sysarg_data vm m t (bytes_of path @ [0]) reg"

subsection \<open>Lemmas\<close>

lemma chars_of_bytes_of [simp]: "chars_of (bytes_of s) = s"
proof -
  have "char_of (unat (of_nat (of_char c) :: 8 word)) = c" for c :: char
    by (simp add: unsigned_of_nat take_bit_nat_eq_self)
  then show ?thesis by (simp add: chars_of_def bytes_of_def comp_def)
qed

lemma zero_bytes_of:
  assumes "NUL \<notin> set s"
  shows "(0 :: 8 word) \<notin> set (bytes_of s)"
proof
  have z: "char_of (unat (0 :: 8 word)) = NUL" by (simp add: char_of_def)
  assume "(0 :: 8 word) \<in> set (bytes_of s)"
  then have "char_of (unat (0 :: 8 word)) \<in> set (chars_of (bytes_of s))" unfolding chars_of_def set_map by (rule imageI)
  then show False using assms unfolding z by simp
qed

lemma alloc_mem_near:
  assumes "alloc_mem t count = Some (p, t')" "p \<noteq> 0" "0 < count"
  shows "uint (peek_reg t CURRENT STACK_POINTER) \<le> uint p + count + RED_ZONE_SIZE"
proof -
  let ?sp = "peek_reg t CURRENT STACK_POINTER"
  define c where "c = (if ?sp = peek_reg t ORIGINAL STACK_POINTER then count + RED_ZONE_SIZE else count)"
  have a: "alloc_mem t count =
      (if tr_status t \<noteq> 0 then None
       else if c > 0 \<and> uint ?sp \<le> c \<or> c < 0 \<and> uint ?sp \<ge> 2 ^ 64 - 1 + c then Some (0, t)
       else Some (?sp - of_int c, poke_reg t STACK_POINTER (?sp - of_int c)))"
    by (simp add: alloc_mem_def Let_def c_def)
  have c: "0 < c" "c \<le> count + RED_ZONE_SIZE" using assms(3) by (simp_all add: c_def RED_ZONE_SIZE_def)
  have s: "\<not> uint ?sp \<le> c" "p = ?sp - of_int c" using assms(1,2) c(1) unfolding a by (auto split: if_splits)
  have "uint (of_int c :: word_t) = c" using s(1) c(1) uint_lt2p[of ?sp] by (simp add: uint_word_of_int)
  then have "uint p = uint ?sp - c" using s(1,2) by (simp add: uint_sub_if')
  then show ?thesis using c(2) by simp
qed

text \<open>A successful call leaves the data below the stack pointer and its address in the register.\<close>

lemma set_sysarg_data_stored:
  assumes "set_sysarg_data vm m t bytes reg = Some (None, t', m')" "bytes \<noteq> []"
  shows "\<exists>p. p \<noteq> 0 \<and> t' = poke_reg (poke_reg t STACK_POINTER p) reg p \<and> m' = store_bytes m p bytes \<and>
    uint p + int (length bytes) \<le> uint (peek_reg t CURRENT STACK_POINTER) \<and>
    uint (peek_reg t CURRENT STACK_POINTER) \<le> uint p + int (length bytes) + RED_ZONE_SIZE"
proof -
  obtain p t1 where p: "alloc_mem t (int (length bytes)) = Some (p, t1)" "p \<noteq> 0"
    and w: "write_data vm m p bytes = (None, m')" and t': "t' = poke_reg t1 reg p"
    using assms(1) by (auto simp: set_sysarg_data_def split: option.splits if_splits prod.splits)
  then show ?thesis
    using alloc_mem_below[OF p] alloc_mem_near[OF p] assms(2) write_data_stored[OF w]
    by (intro exI[of _ p]) simp
qed

subsection \<open>The property\<close>

text \<open>The stack from a path and the red zone below the stack pointer up to the word above it.\<close>

definition stack_accessible :: "memory \<Rightarrow> word_t \<Rightarrow> bool" where
  "stack_accessible m sp =
     (\<forall>a. uint sp \<le> uint a + int PATH_MAX + RED_ZONE_SIZE \<and> uint a < uint sp + 8 \<longrightarrow> m a \<noteq> None)"

lemma range_accessible:
  assumes "\<And>a. uint p \<le> uint a \<Longrightarrow> uint a < uint p + int n \<Longrightarrow> m a \<noteq> None" "uint p + int n \<le> 2 ^ 64"
  shows "accessible m p n"
  unfolding accessible_iff
proof (intro allI impI)
  fix i assume i: "i < n"
  then have "int i < 2 ^ 64" using assms(2) uint_ge_0[of p] by linarith
  then have "uint (of_nat i :: word_t) = int i" by (simp add: unsigned_of_nat take_bit_nat_eq_self)
  then have "uint (p + of_nat i) = uint p + int i" using i assms(2) by (simp add: uint_word_ariths)
  then show "m (p + of_nat i) \<noteq> None" using assms(1)[of "p + of_nat i"] i by simp
qed

text \<open>
  C15: a path that the tracer puts into an argument of a system call is the path it, or the kernel, reads
  there: the register points to a copy in the memory that ends with its NUL.
\<close>

theorem sysarg_path_round_trip:
  assumes "set_sysarg_path vm m t path reg = Some (None, t', m')" "process_vm_laws vm" "native t"
    and "NUL \<notin> set path" "length path + 1 < PATH_MAX"
    and "stack_accessible m (peek_reg t CURRENT STACK_POINTER)" "uint (peek_reg t CURRENT STACK_POINTER) + 8 < 2 ^ 64"
  shows "get_sysarg_path vm m' t' reg = Inr (length path + 1, path)"
proof -
  let ?sp = "peek_reg t CURRENT STACK_POINTER" and ?bs = "bytes_of path @ [0]"
  obtain p where p: "p \<noteq> 0" "t' = poke_reg (poke_reg t STACK_POINTER p) reg p" "m' = store_bytes m p ?bs"
    "uint p + int (length ?bs) \<le> uint ?sp" "uint ?sp \<le> uint p + int (length ?bs) + RED_ZONE_SIZE"
    using set_sysarg_data_stored[of vm m t ?bs reg t' m'] assms(1) by (auto simp: set_sysarg_path_def)
  have reg: "peek_reg t' CURRENT reg = p" using assms(3) p(2) by (simp add: peek_poke_reg native_simps)
  have w: "int (words_touched (length path + 1)) < int (length ?bs) + 8" by (simp add: words_touched_def)
  have "accessible m p (words_touched (length path + 1))"
  proof (rule range_accessible)
    fix a :: word_t assume "uint p \<le> uint a" "uint a < uint p + int (words_touched (length path + 1))"
    then show "m a \<noteq> None"
      using assms(5,6) p(4,5) w unfolding stack_accessible_def by (auto simp del: not_None_eq)
  qed (use assms(7) p(4) w in linarith)
  then have acc: "accessible m' p (words_touched (length path + 1))" unfolding p(3) by (rule accessible_store)
  have l: "load_bytes m' p (length path + 1) = Some (bytes_of path @ [0])"
    using load_store_bytes[of ?bs m p] assms(5) p(3) by (simp add: PATH_MAX_def)
  obtain rest where "read_string vm m' p PATH_MAX = Inr (length path + 1, bytes_of path @ 0 # rest)"
    using process_vm_laws.read_string_finds[OF assms(2) l zero_bytes_of[OF assms(4)] _ acc, of PATH_MAX] assms(5)
    by auto
  moreover have "c_string (bytes_of path @ 0 # rest) = path"
    using zero_bytes_of[OF assms(4)] unfolding c_string_def by (subst takeWhile_append2) auto
  ultimately show ?thesis using reg p(1) assms(5) by (simp add: get_sysarg_path_def read_path_def)
qed

definition wide_memory :: memory where
  "wide_memory a = (if a < 4096 then Some 0 else None)"

lemma small_set_path:
  "map_option fst (set_sysarg_path closed_vm wide_memory stack_tracee ''/bin'' SYSARG_1) = Some None"
  by code_simp

theorem sysarg_path_round_trip_witness:
  "\<exists>t' m'. set_sysarg_path closed_vm wide_memory stack_tracee ''/bin'' SYSARG_1 = Some (None, t', m') \<and>
    get_sysarg_path closed_vm m' t' SYSARG_1 = Inr (5, ''/bin'')"
proof -
  obtain t' m' where s: "set_sysarg_path closed_vm wide_memory stack_tracee ''/bin'' SYSARG_1 = Some (None, t', m')"
    using small_set_path by auto
  have n: "native stack_tracee" and sp: "peek_reg stack_tracee CURRENT STACK_POINTER = 256" by code_simp+
  have "stack_accessible wide_memory (peek_reg stack_tracee CURRENT STACK_POINTER)"
    unfolding sp by (auto simp: stack_accessible_def wide_memory_def word_less_def)
  from sysarg_path_round_trip[OF s closed_vm.process_vm_laws_axioms n _ _ this] s
  show ?thesis unfolding sp by (simp add: PATH_MAX_def)
qed

end
