(* ===== verification/Execve.thy ===== *)
theory Execve
  imports Sysargs Auxv Sysnums Path_Examples
begin

section \<open>execve\<close>

text \<open>
  \<open>translate_execve_enter\<close> (\<^verbatim>\<open>execve/enter.c\<close>) and \<open>translate_execve_exit\<close> (\<^verbatim>\<open>execve/exit.c\<close>) for a tracer
  without a QEMU command, so that the loader is always used.  Files, \<^verbatim>\<open>access(2)\<close>, the environment
  of the tracer and its temporary files are parameters.  As before the outer \<open>None\<close> is a failed assertion or the access through a
  null pointer of a program that has no mapping.
\<close>

record 'w exec_env =
  ee_os :: "'w os"
  ee_access :: "'w \<Rightarrow> string \<Rightarrow> bool option"
  ee_read_file :: "'w \<Rightarrow> string \<Rightarrow> string result"
  ee_open_file :: "'w \<Rightarrow> string \<Rightarrow> elf_file result"
  ee_getenv :: "string \<Rightarrow> string option"
  ee_getpid :: nat
  ee_open_temp_file :: "'w \<Rightarrow> string \<Rightarrow> int option \<times> 'w"
  ee_write_loader :: "'w \<Rightarrow> int \<Rightarrow> bool \<Rightarrow> bool \<times> 'w"
  ee_fchmod :: "'w \<Rightarrow> int \<Rightarrow> bool \<times> 'w"
  ee_fclose :: "'w \<Rightarrow> int \<Rightarrow> 'w"
  ee_create_temp_file :: "'w \<Rightarrow> string option \<times> 'w"
  ee_write_file :: "'w \<Rightarrow> string \<Rightarrow> 8 word list \<Rightarrow> errno option \<times> 'w"
  ee_vm :: process_vm


record exec_tracee =
  et_tracee :: tracee
  et_memory :: memory
  et_host_exe :: "string option"
  et_new_exe :: "string option"
  et_exe :: "string option"
  et_load_info :: "(load_info \<times> load_info option) option"
  et_ptraced :: bool
  et_option_traceexec :: bool
  et_ignore_loader_syscalls :: bool
  et_seen_execve :: bool
  et_execfn_addr :: word_t
  et_auxv_fd :: int

definition is_notification_ptraced_load_done :: "exec_tracee \<Rightarrow> bool" where
  "is_notification_ptraced_load_done et =
     (let t = et_tracee et in
      et_ptraced et \<and> peek_reg t ORIGINAL SYSARG_1 = 1 \<and> peek_reg t ORIGINAL SYSARG_4 = 2 \<and>
      peek_reg t ORIGINAL SYSARG_5 = 3 \<and> peek_reg t ORIGINAL SYSARG_6 = 4)"

subsection \<open>System call entry\<close>








subsection \<open>System call exit\<close>

text \<open>The contents of \<^verbatim>\<open>/proc/pid/auxv\<close>, up to and with the entry \<^verbatim>\<open>AT_NULL\<close>.\<close>

fun auxv_bytes :: "tracee \<Rightarrow> aux_vectors \<Rightarrow> 8 word list" where
  "auxv_bytes t [] = []"
| "auxv_bytes t ((ty, v) # vectors) =
     bytes_le (sizeof_word t) ty @ bytes_le (sizeof_word t) v @
     (if ty \<noteq> AT_NULL then auxv_bytes t vectors else [])"

definition bind_proc_pid_auxv :: "'w exec_env \<Rightarrow> 'w st \<Rightarrow> exec_tracee \<Rightarrow> 'w st option" where
  "bind_proc_pid_auxv env s et =
     (let t = et_tracee et; m = et_memory et; vm = ee_vm env in
      case get_elf_aux_vectors_address True vm m t of
        None \<Rightarrow> None
      | Some vectors_address \<Rightarrow>
          (if vectors_address = 0 then Some s
           else
             (case fetch_elf_aux_vectors vm m t vectors_address of
                None \<Rightarrow> None
              | Some None \<Rightarrow> Some s
              | Some (Some vectors) \<Rightarrow>
                  (let guest_path = ''/proc/'' @ show_nat (pid t) @ ''/auxv'';
                       fs = (case get_binding (fst s) GUEST guest_path of
                               None \<Rightarrow> fst s
                             | Some b \<Rightarrow>
                                 (if compare_paths (path_str (guest b)) guest_path = PATHS_ARE_EQUAL
                                  then remove_binding_from_all_lists (fst s) b else fst s))
                   in case ee_create_temp_file env (snd s) of
                        (None, w) \<Rightarrow> Some (fs, w)
                      | (Some host_path, w) \<Rightarrow>
                          (case ee_write_file env w host_path (auxv_bytes t vectors) of
                             (Some e, w) \<Rightarrow> Some (fs, w)
                           | (None, w) \<Rightarrow> Some (insort_binding3 fs host_path guest_path, w))))))"

definition new_heap :: heap_t where
  "new_heap = \<lparr>heap_base = 0, heap_size = 0, heap_disabled = False\<rparr>"

text \<open>The result tells whether the tracee is sent a \<^verbatim>\<open>SIGTRAP\<close>.\<close>

definition translate_execve_exit ::
  "'w exec_env \<Rightarrow> 'w st \<Rightarrow> exec_tracee \<Rightarrow> (bool \<times> 'w st \<times> exec_tracee) option" where
  "translate_execve_exit env s et =
     (let et = et\<lparr>et_auxv_fd := - 1\<rparr>; t = et_tracee et in
      if is_notification_ptraced_load_done et then
        (let t = set_sysnum (poke_reg t SYSARG_RESULT 0) ''execve'';
             t = poke_reg t STACK_POINTER (peek_reg t ORIGINAL SYSARG_2);
             t = poke_reg t INSTR_POINTER (peek_reg t ORIGINAL SYSARG_3);
             t = poke_reg (poke_reg t RTLD_FINI 0) STATE_FLAGS 0;
             t = (save_current_regs t ORIGINAL)\<lparr>regs_were_changed := True\<rparr>;
             et = et\<lparr>et_tracee := t\<rparr>
         in map_option (\<lambda>s. (\<not> et_option_traceexec et, s, et)) (bind_proc_pid_auxv env s et))
      else if c_int (peek_reg t CURRENT SYSARG_RESULT) < 0 then Some (False, s, et)
      else
        (let et = et\<lparr>et_seen_execve := True,
                     et_exe := (case et_new_exe et of None \<Rightarrow> et_exe et | Some e \<Rightarrow> Some e),
                     et_tracee := t\<lparr>heap := new_heap\<rparr>\<rparr>
         in case et_load_info et of
              None \<Rightarrow> None
            | Some lis \<Rightarrow>
                (case transfer_load_script (ee_vm env) (et_memory et) (et_tracee et) (et_ptraced et) lis of
                   None \<Rightarrow> None
                 | Some (status, t, m, execfn_addr) \<Rightarrow>
                     Some (False, s, et\<lparr>et_tracee := t, et_memory := m, et_execfn_addr := execfn_addr\<rparr>))))"

subsection \<open>Properties\<close>






















end
