(* ===== verification/Ipc_State.thy ===== *)
theory Ipc_State
  imports Heap Bytes
begin

section \<open>System V IPC: state\<close>

text \<open>
  \<^verbatim>\<open>extension/sysvipc/sysvipc_internal.h\<close>: the objects of an IPC namespace, the state the extension
  keeps for each thread and each process, the look-up of an object by its identifier, and the loop
  over the tracees of a namespace.  Identities that are pointers in the code (a namespace, a
  process) are positions in lists of the global state.

  What the extension asks of the rest of the program and of the system is the record \<open>ipc_env\<close>,
  over a world \<open>'w\<close>: \<open>ie_read\<close> and \<open>ie_write\<close> are \<^verbatim>\<open>read_data\<close> and \<^verbatim>\<open>write_data\<close> on the memory of the
  tracee with a given process identifier, \<open>ie_tkill\<close> sends \<^verbatim>\<open>SIGSTOP\<close>, \<open>ie_setregs\<close> writes registers,
  \<open>ie_msqid_bytes\<close> and \<open>ie_shmid_bytes\<close> are the layouts of the structures of the C library, and the
  \<open>ie_shm\<close> operations are requests to the helper process that owns the shared memory.
\<close>

subsection \<open>Constants\<close>

definition IPC_PRIVATE :: word_t where "IPC_PRIVATE = 0"
definition IPC_CREAT :: word_t where "IPC_CREAT = 0x200"
definition IPC_EXCL :: word_t where "IPC_EXCL = 0x400"
definition IPC_NOWAIT :: int where "IPC_NOWAIT = 0x800"
definition IPC_RMID :: int where "IPC_RMID = 0"
definition IPC_STAT :: int where "IPC_STAT = 2"
definition MSG_NOERROR :: int where "MSG_NOERROR = 0x1000"
definition MSG_EXCEPT :: int where "MSG_EXCEPT = 0x2000"
definition MSG_COPY :: int where "MSG_COPY = 0x4000"
definition SYSVIPC_IPC_64 :: int where "SYSVIPC_IPC_64 = 0x100"

definition has_flag :: "int \<Rightarrow> int \<Rightarrow> bool" where
  "has_flag flags f = (and flags f \<noteq> 0)"

definition has_wflag :: "word_t \<Rightarrow> word_t \<Rightarrow> bool" where
  "has_wflag flags f = (and flags f \<noteq> 0)"

subsection \<open>Objects\<close>

record msg_item =
  mi_type :: word_t
  mi_text :: "8 word list"

record msg_queue =
  mq_key :: int
  mq_generation :: "16 word"
  mq_valid :: bool
  mq_items :: "msg_item list"
  mq_qnum :: word_t
  mq_cbytes :: word_t
  mq_qbytes :: word_t
  mq_lspid :: nat
  mq_lrpid :: nat
  mq_stime :: int
  mq_rtime :: int

record semaphore =
  sm_key :: int
  sm_generation :: "16 word"
  sm_valid :: bool
  sm_sems :: "16 word list"
  sm_nsems :: int

record shm_map =
  mp_id :: nat
  mp_addr :: word_t
  mp_size :: word_t
  mp_ns :: nat
  mp_shm :: nat

record shared_mem =
  sh_key :: int
  sh_generation :: "16 word"
  sh_valid :: bool
  sh_rmid_pending :: bool
  sh_fd :: int
  sh_mode :: word_t
  sh_segsz :: word_t
  sh_cpid :: nat
  sh_nattch :: word_t
  sh_mappings :: "nat list"

record ipc_ns =
  ns_queues :: "msg_queue list"
  ns_semaphores :: "semaphore list"
  ns_shms :: "shared_mem list"

datatype wait_reason =
    WR_NOT_WAITING | WR_WAIT_QUEUE_RECV | WR_WAIT_SEMOP | WR_WAIT_SHMAT_HELPER_BUSY

datatype wait_state =
    WSTATE_NOT_WAITING | WSTATE_RESTARTED_INTO_PPOLL_CANCELED | WSTATE_RESTARTED_INTO_PPOLL
  | WSTATE_ENTERED_PPOLL | WSTATE_SIGNALED_PPOLL | WSTATE_ENTERED_GETPID

datatype chain_state =
    CSTATE_NOT_CHAINED | CSTATE_SINGLE | CSTATE_SHMAT_SOCKET | CSTATE_SHMAT_CONNECT
  | CSTATE_SHMAT_RECVMSG | CSTATE_SHMAT_MMAP | CSTATE_MSGRCV_RETRY

record sembuf =
  sem_num :: "16 word"
  sem_op :: "16 word"
  sem_flg :: "16 word"

record ipc_process =
  pr_pgid :: nat
  pr_mapped :: "shm_map list"

record ipc_config =
  cf_ns :: nat
  cf_process :: nat
  cf_reason :: wait_reason
  cf_wait :: wait_state
  cf_chain :: chain_state
  cf_status :: "int result"
  cf_index :: nat
  cf_msgp :: word_t
  cf_msgsz :: word_t
  cf_msgtyp :: int
  cf_msgflg :: int
  cf_sops :: "sembuf list"
  cf_shm_buf :: word_t
  cf_shm_socket :: int
  cf_shm_mem :: word_t

record ipc_tracee =
  it_tracee :: tracee
  it_config :: "ipc_config option"

record 'w ipc_state =
  st_tracees :: "ipc_tracee list"
  st_ns :: "ipc_ns list"
  st_procs :: "ipc_process list"
  st_next_map :: nat
  st_world :: 'w

record 'w ipc_env =
  ie_read :: "'w \<Rightarrow> nat \<Rightarrow> word_t \<Rightarrow> nat \<Rightarrow> 8 word list result"
  ie_write :: "'w \<Rightarrow> nat \<Rightarrow> word_t \<Rightarrow> 8 word list \<Rightarrow> errno option \<times> 'w"
  ie_time :: "'w \<Rightarrow> int"
  ie_tkill :: "'w \<Rightarrow> nat \<Rightarrow> 'w"
  ie_setregs :: "'w \<Rightarrow> nat \<Rightarrow> reg_bank \<Rightarrow> errno option \<times> 'w"
  ie_msqid_bytes :: "msg_queue \<Rightarrow> 8 word list"
  ie_shmid_bytes :: "shared_mem \<Rightarrow> 8 word list"
  ie_page_size :: word_t
  ie_shm_alloc :: "'w \<Rightarrow> int \<Rightarrow> word_t \<Rightarrow> int \<times> 'w"
  ie_shm_free :: "'w \<Rightarrow> int \<Rightarrow> 'w"
  ie_shm_distribute :: "'w \<Rightarrow> int \<Rightarrow> 'w"
  ie_shm_addr :: "'w \<Rightarrow> 8 word list"

text \<open>
  The outcome of a handler: its status and the new state; \<open>None\<close> is a failed assertion, after which
  PRoot aborts.
\<close>

type_synonym 'w outcome = "(int result \<times> 'w ipc_state) option"

subsection \<open>Access\<close>

definition tracee_at :: "'w ipc_state \<Rightarrow> nat \<Rightarrow> tracee" where
  "tracee_at s i = it_tracee (st_tracees s ! i)"

definition config_of :: "'w ipc_state \<Rightarrow> nat \<Rightarrow> ipc_config option" where
  "config_of s i = (if i < length (st_tracees s) then it_config (st_tracees s ! i) else None)"

definition config_at :: "'w ipc_state \<Rightarrow> nat \<Rightarrow> ipc_config" where
  "config_at s i = the (config_of s i)"

definition ns_at :: "'w ipc_state \<Rightarrow> nat \<Rightarrow> ipc_ns" where
  "ns_at s i = st_ns s ! cf_ns (config_at s i)"

definition upd_tracee :: "nat \<Rightarrow> (tracee \<Rightarrow> tracee) \<Rightarrow> 'w ipc_state \<Rightarrow> 'w ipc_state" where
  "upd_tracee i f s =
     s\<lparr>st_tracees := (st_tracees s)[i := (st_tracees s ! i)\<lparr>it_tracee := f (tracee_at s i)\<rparr>]\<rparr>"

definition upd_config :: "nat \<Rightarrow> (ipc_config \<Rightarrow> ipc_config) \<Rightarrow> 'w ipc_state \<Rightarrow> 'w ipc_state" where
  "upd_config i f s =
     s\<lparr>st_tracees := (st_tracees s)
        [i := (st_tracees s ! i)\<lparr>it_config := map_option f (config_of s i)\<rparr>]\<rparr>"

definition upd_ns :: "nat \<Rightarrow> (ipc_ns \<Rightarrow> ipc_ns) \<Rightarrow> 'w ipc_state \<Rightarrow> 'w ipc_state" where
  "upd_ns n f s = s\<lparr>st_ns := (st_ns s)[n := f (st_ns s ! n)]\<rparr>"

definition upd_sem :: "nat \<Rightarrow> nat \<Rightarrow> (semaphore \<Rightarrow> semaphore) \<Rightarrow> 'w ipc_state \<Rightarrow> 'w ipc_state" where
  "upd_sem n k f = upd_ns n (\<lambda>ns. ns\<lparr>ns_semaphores := (ns_semaphores ns)[k := f (ns_semaphores ns ! k)]\<rparr>)"

definition upd_queue :: "nat \<Rightarrow> nat \<Rightarrow> (msg_queue \<Rightarrow> msg_queue) \<Rightarrow> 'w ipc_state \<Rightarrow> 'w ipc_state" where
  "upd_queue n k f = upd_ns n (\<lambda>ns. ns\<lparr>ns_queues := (ns_queues ns)[k := f (ns_queues ns ! k)]\<rparr>)"

definition sysarg :: "'w ipc_state \<Rightarrow> nat \<Rightarrow> Reg \<Rightarrow> word_t" where
  "sysarg s i r = peek_reg (tracee_at s i) CURRENT r"

definition read_mem :: "'w ipc_env \<Rightarrow> 'w ipc_state \<Rightarrow> nat \<Rightarrow> word_t \<Rightarrow> nat \<Rightarrow> 8 word list result" where
  "read_mem env s i addr n = ie_read env (st_world s) (pid (tracee_at s i)) addr n"

definition write_mem ::
  "'w ipc_env \<Rightarrow> 'w ipc_state \<Rightarrow> nat \<Rightarrow> word_t \<Rightarrow> 8 word list \<Rightarrow> errno option \<times> 'w ipc_state" where
  "write_mem env s i addr bytes =
     (case ie_write env (st_world s) (pid (tracee_at s i)) addr bytes of
        (status, w) \<Rightarrow> (status, s\<lparr>st_world := w\<rparr>))"

text \<open>A status of \<open>write_data\<close> that a handler returns: the error, or 0.\<close>

definition write_status :: "errno option \<times> 'w ipc_state \<Rightarrow> 'w outcome" where
  "write_status r = (case r of (Some e, s) \<Rightarrow> Some (Inl e, s) | (None, s) \<Rightarrow> Some (Inr 0, s))"

subsection \<open>Arrays in the memory of a tracee\<close>

fun sembufs_of :: "8 word list \<Rightarrow> sembuf list" where
  "sembufs_of (a # b # c # d # e # f # bs) =
     \<lparr>sem_num = ucast (word_le [a, b]), sem_op = ucast (word_le [c, d]),
      sem_flg = ucast (word_le [e, f])\<rparr> # sembufs_of bs"
| "sembufs_of _ = []"

subsection \<open>Object identifiers\<close>

definition ipc_object_id :: "nat \<Rightarrow> 16 word \<Rightarrow> int" where
  "ipc_object_id index generation =
     c_int (or (of_nat (index + 1)) (push_bit 12 (word_of_int (sint generation))))"

definition lookup_ipc_object ::
  "('o \<Rightarrow> bool) \<Rightarrow> ('o \<Rightarrow> 16 word) \<Rightarrow> 'o list \<Rightarrow> word_t \<Rightarrow> nat option" where
  "lookup_ipc_object valid generation objects arg =
     (let object_id = c_int arg;
          object_index = and object_id 0xFFF
      in if object_index \<le> 0 \<or> object_index > int (length objects) then None
         else
           (let i = nat object_index - 1 in
            if \<not> valid (objects ! i) \<or>
               sint (generation (objects ! i)) \<noteq> and (drop_bit 12 object_id) 0xFFFF
            then None else Some i))"

text \<open>
  The search that \<open>msgget\<close>, \<open>semget\<close> and \<open>shmget\<close> begin with: the position of the object with the
  key, and the first unused slot seen before the loop stops.
\<close>

fun scan_objects ::
  "('o \<Rightarrow> bool) \<Rightarrow> ('o \<Rightarrow> int) \<Rightarrow> word_t \<Rightarrow> 'o list \<Rightarrow> nat \<Rightarrow> nat option \<Rightarrow> nat option \<times> nat option" where
  "scan_objects valid key oid [] i unused = (None, unused)"
| "scan_objects valid key oid (x # xs) i unused =
     (if valid x then
        (if oid \<noteq> IPC_PRIVATE \<and> key x = c_int oid then (Some i, unused)
         else scan_objects valid key oid xs (Suc i) unused)
      else scan_objects valid key oid xs (Suc i) (if unused = None then Some i else unused))"

subsection \<open>Iteration and wake-up\<close>

definition in_namespace :: "'w ipc_state \<Rightarrow> nat \<Rightarrow> nat \<Rightarrow> bool" where
  "in_namespace s n j = (case config_of s j of None \<Rightarrow> False | Some c \<Rightarrow> cf_ns c = n)"

fun foreach_tracee ::
  "nat \<Rightarrow> (nat \<Rightarrow> 'w ipc_state \<Rightarrow> 'w ipc_state option) \<Rightarrow> nat list \<Rightarrow> 'w ipc_state \<Rightarrow> 'w ipc_state option" where
  "foreach_tracee n f [] s = Some s"
| "foreach_tracee n f (j # js) s =
     (if in_namespace s n j then
        (case f j s of None \<Rightarrow> None | Some s \<Rightarrow> foreach_tracee n f js s)
      else foreach_tracee n f js s)"

definition all_tracees :: "'w ipc_state \<Rightarrow> nat list" where
  "all_tracees s = [0..<length (st_tracees s)]"

definition sysvipc_wake_tracee ::
  "'w ipc_env \<Rightarrow> nat \<Rightarrow> int result \<Rightarrow> 'w ipc_state \<Rightarrow> 'w ipc_state option" where
  "sysvipc_wake_tracee env j status s =
     (let c = config_at s j in
      if cf_reason c = WR_NOT_WAITING then None
      else
        (let s = upd_config j (\<lambda>c. c\<lparr>cf_reason := WR_NOT_WAITING, cf_status := status\<rparr>) s in
         if cf_wait c = WSTATE_ENTERED_PPOLL then
           (let s = upd_config j (\<lambda>c. c\<lparr>cf_wait := WSTATE_SIGNALED_PPOLL\<rparr>) s;
                s = s\<lparr>st_world := ie_tkill env (st_world s) (pid (tracee_at s j))\<rparr>
            in Some (upd_tracee j (\<lambda>t. t\<lparr>sigstop := SIGSTOP_IGNORED\<rparr>) s))
         else if cf_wait c = WSTATE_RESTARTED_INTO_PPOLL then
           Some (upd_config j (\<lambda>c. c\<lparr>cf_wait := WSTATE_RESTARTED_INTO_PPOLL_CANCELED\<rparr>) s)
         else None))"

end
