(* ===== verification/Ipc_Sem.thy ===== *)
theory Ipc_Sem
  imports Ipc_State
begin

section \<open>System V IPC: semaphores\<close>

text \<open>
  \<^verbatim>\<open>extension/sysvipc/sysvipc_sem.c\<close>.  A handler takes the tracee that makes the call (its position
  in the list of tracees) and returns the status and the new state.
\<close>

definition SYSVIPC_MAX_SEMS :: nat where "SYSVIPC_MAX_SEMS = 512"
definition SYSVIPC_MAX_NSEMS :: int where "SYSVIPC_MAX_NSEMS = 512"
definition SYSVIPC_MAX_NSOPS :: word_t where "SYSVIPC_MAX_NSOPS = 512"
definition SYSVIPC_MAX_SEMVAL :: int where "SYSVIPC_MAX_SEMVAL = 0x7000"

subsection \<open>semget\<close>

definition empty_semaphore :: semaphore where
  "empty_semaphore =
     \<lparr>sm_key = 0, sm_generation = 0, sm_valid = False, sm_sems = [], sm_nsems = 0\<rparr>"

definition create_semaphore :: "word_t \<Rightarrow> int \<Rightarrow> semaphore \<Rightarrow> semaphore" where
  "create_semaphore key nsems x =
     x\<lparr>sm_key := c_int key, sm_valid := True, sm_sems := replicate (nat nsems) 0,
       sm_nsems := nsems\<rparr>"

definition sysvipc_semget :: "nat \<Rightarrow> 'w ipc_state \<Rightarrow> 'w outcome" where
  "sysvipc_semget i s =
     (let semaphore_id = sysarg s i SYSARG_1;
          nsems = c_int (sysarg s i SYSARG_2);
          semflg = sysarg s i SYSARG_3;
          n = cf_ns (config_at s i);
          semaphores = ns_semaphores (ns_at s i)
      in if nsems \<le> 0 \<or> nsems > SYSVIPC_MAX_NSEMS then Some (Inl EINVAL, s)
         else
           (case scan_objects sm_valid sm_key semaphore_id semaphores 0 None of
              (None, unused) \<Rightarrow>
                (if \<not> has_wflag semflg IPC_CREAT then Some (Inl ENOENT, s)
                 else
                   (case unused of
                      Some k \<Rightarrow>
                        (let s = upd_sem n k (create_semaphore semaphore_id nsems) s in
                         Some (Inr (ipc_object_id k (sm_generation (semaphores ! k))), s))
                    | None \<Rightarrow>
                        (if length semaphores \<ge> SYSVIPC_MAX_SEMS then Some (Inl ENOSPC, s)
                         else
                           (let k = length semaphores;
                                sem = create_semaphore semaphore_id nsems empty_semaphore;
                                s = upd_ns n (\<lambda>ns. ns\<lparr>ns_semaphores := semaphores @ [sem]\<rparr>) s
                            in Some (Inr (ipc_object_id k (sm_generation sem)), s)))))
            | (Some k, _) \<Rightarrow>
                (if has_wflag semflg IPC_CREAT \<and> has_wflag semflg IPC_EXCL
                 then Some (Inl EEXIST, s)
                 else if sm_nsems (semaphores ! k) < nsems then Some (Inl EINVAL, s)
                 else Some (Inr (ipc_object_id k (sm_generation (semaphores ! k))), s))))"

subsection \<open>semop\<close>

text \<open>
  The loop of \<open>sysvipc_sem_check\<close> on a copy of the values; the status 1 means that the tracee has
  to wait.  Every caller passes \<^verbatim>\<open>NULL\<close> for \<^verbatim>\<open>out_wait_type\<close>, which is left out.
\<close>

fun sem_check_loop :: "sembuf list \<Rightarrow> 16 word list \<Rightarrow> int result \<times> 16 word list" where
  "sem_check_loop [] new_sems = (Inr 0, new_sems)"
| "sem_check_loop (b # sops) new_sems =
     (let oper = sint (sem_op b);
          k = unat (sem_num b);
          nowait = has_flag (sint (sem_flg b)) IPC_NOWAIT
      in if oper = 0 then
           (if new_sems ! k \<noteq> 0 then (if nowait then Inl EAGAIN else Inr 1, new_sems)
            else sem_check_loop sops new_sems)
         else
           (let new_value = uint (new_sems ! k) + oper in
            if new_value < 0 then (if nowait then Inl EAGAIN else Inr 1, new_sems)
            else if new_value > SYSVIPC_MAX_SEMVAL then (Inl ERANGE, new_sems)
            else sem_check_loop sops (new_sems[k := word_of_int new_value])))"

text \<open>\<open>sysvipc_sem_check\<close> for tracee \<open>j\<close> and semaphore set \<open>k\<close> of namespace \<open>n\<close>.\<close>

definition sysvipc_sem_check :: "nat \<Rightarrow> nat \<Rightarrow> nat \<Rightarrow> 'w ipc_state \<Rightarrow> 'w outcome" where
  "sysvipc_sem_check n k j s =
     (if cf_reason (config_at s j) \<noteq> WR_WAIT_SEMOP then None
      else
        (case sem_check_loop (cf_sops (config_at s j)) (sm_sems (ns_semaphores (st_ns s ! n) ! k)) of
           (Inr m, new_sems) \<Rightarrow>
             (if m = 0 then Some (Inr 0, upd_sem n k (\<lambda>x. x\<lparr>sm_sems := new_sems\<rparr>) s)
              else Some (Inr m, s))
         | (Inl e, _) \<Rightarrow> Some (Inl e, s)))"

definition free_sops :: "nat \<Rightarrow> 'w ipc_state \<Rightarrow> 'w ipc_state" where
  "free_sops j = upd_config j (\<lambda>c. c\<lparr>cf_sops := []\<rparr>)"

text \<open>The body of the loop over the tracees in \<open>sysvipc_semop\<close>.\<close>

definition semop_visit ::
  "'w ipc_env \<Rightarrow> nat \<Rightarrow> nat \<Rightarrow> nat \<Rightarrow> nat \<Rightarrow> 'w ipc_state \<Rightarrow> 'w ipc_state option" where
  "semop_visit env i n k j s =
     (if j \<noteq> i \<and> cf_reason (config_at s j) = WR_WAIT_SEMOP \<and> cf_index (config_at s j) = k then
        (case sysvipc_sem_check n k j s of
           None \<Rightarrow> None
         | Some (status, s) \<Rightarrow>
             (if status = Inr 1 then Some s
              else sysvipc_wake_tracee env j status (free_sops j s)))
      else Some s)"

definition sysvipc_semop :: "'w ipc_env \<Rightarrow> nat \<Rightarrow> 'w ipc_state \<Rightarrow> 'w outcome" where
  "sysvipc_semop env i s =
     (let n = cf_ns (config_at s i);
          semaphores = ns_semaphores (ns_at s i)
      in case lookup_ipc_object sm_valid sm_generation semaphores (sysarg s i SYSARG_1) of
           None \<Rightarrow> Some (Inl EINVAL, s)
         | Some k \<Rightarrow>
             (let sops_ptr = sysarg s i SYSARG_2;
                  nsops = sysarg s i SYSARG_3
              in if nsops > SYSVIPC_MAX_NSOPS then Some (Inl E2BIG, s)
                 else if nsops = 0 then Some (Inl EINVAL, s)
                 else
                   (case read_mem env s i sops_ptr (6 * unat nsops) of
                      Inl e \<Rightarrow> Some (Inl e, s)
                    | Inr bytes \<Rightarrow>
                        (let sops = sembufs_of bytes in
                         if \<exists>b\<in>set sops. uint (sem_num b) \<ge> sm_nsems (semaphores ! k)
                         then Some (Inl EFBIG, s)
                         else
                           (let s = upd_config i (\<lambda>c. c\<lparr>cf_reason := WR_WAIT_SEMOP,
                                                        cf_index := k, cf_sops := sops\<rparr>) s
                            in case sysvipc_sem_check n k i s of
                                 None \<Rightarrow> None
                               | Some (this_status, s) \<Rightarrow>
                                   (case foreach_tracee n (semop_visit env i n k) (all_tracees s) s of
                                      None \<Rightarrow> None
                                    | Some s \<Rightarrow>
                                        (if this_status = Inr 1 then
                                           (if cf_reason (config_at s i) = WR_WAIT_SEMOP
                                            then Some (Inr 0, s) else None)
                                         else
                                           Some (this_status,
                                             upd_config i (\<lambda>c. c\<lparr>cf_reason := WR_NOT_WAITING,
                                                                 cf_sops := []\<rparr>) s))))))))"

definition sysvipc_semop_timedout :: "nat \<Rightarrow> 'w ipc_state \<Rightarrow> 'w ipc_state" where
  "sysvipc_semop_timedout i =
     upd_config i (\<lambda>c. c\<lparr>cf_sops := [], cf_reason := WR_NOT_WAITING\<rparr>)"

subsection \<open>semctl\<close>

definition invalidate_semaphore :: "semaphore \<Rightarrow> semaphore" where
  "invalidate_semaphore x =
     x\<lparr>sm_valid := False, sm_generation := sm_generation x + 1, sm_sems := []\<rparr>"

definition semctl_rmid_visit ::
  "'w ipc_env \<Rightarrow> nat \<Rightarrow> nat \<Rightarrow> 'w ipc_state \<Rightarrow> 'w ipc_state option" where
  "semctl_rmid_visit env k j s =
     (if cf_reason (config_at s j) = WR_WAIT_SEMOP \<and> cf_index (config_at s j) = k
      then sysvipc_wake_tracee env j (Inl EIDRM) s else Some s)"

text \<open>
  \<^verbatim>\<open>struct SysVIpcSeminfo\<close>: ten \<^verbatim>\<open>int\<close> fields.  \<^verbatim>\<open>SEM_INFO\<close> adds the number of slots and the sum of
  \<open>nsems\<close> over all of them.
\<close>

definition seminfo_bytes :: "semaphore list option \<Rightarrow> 8 word list" where
  "seminfo_bytes info =
     concat (map (\<lambda>v. bytes_le 4 (word_of_int v))
       [0, 512, 512 * 512, 0, 512, 512, 0,
        (case info of None \<Rightarrow> 0 | Some semaphores \<Rightarrow> int (length semaphores)),
        SYSVIPC_MAX_SEMVAL,
        (case info of None \<Rightarrow> 0 | Some semaphores \<Rightarrow> sum_list (map sm_nsems semaphores))])"

definition sysvipc_semctl :: "'w ipc_env \<Rightarrow> nat \<Rightarrow> 'w ipc_state \<Rightarrow> 'w outcome" where
  "sysvipc_semctl env i s =
     (let n = cf_ns (config_at s i);
          semaphores = ns_semaphores (ns_at s i)
      in case lookup_ipc_object sm_valid sm_generation semaphores (sysarg s i SYSARG_1) of
           None \<Rightarrow> Some (Inl EINVAL, s)
         | Some k \<Rightarrow>
             (let sem = semaphores ! k;
                  semnum = c_int (sysarg s i SYSARG_2);
                  cmd = c_int (sysarg s i SYSARG_3);
                  cmdarg = sysarg s i SYSARG_4;
                  cmd' = and cmd (not SYSVIPC_IPC_64)
              in if cmd' = 12 then
                   (if semnum < 0 \<or> semnum \<ge> sm_nsems sem then Some (Inl EINVAL, s)
                    else Some (Inr (uint (sm_sems sem ! nat semnum)), s))
                 else if cmd' = 16 then
                   (if uint cmdarg > SYSVIPC_MAX_SEMVAL then Some (Inl ERANGE, s)
                    else if semnum < 0 \<or> semnum \<ge> sm_nsems sem then Some (Inl EINVAL, s)
                    else Some (Inr 0, upd_sem n k
                      (\<lambda>x. x\<lparr>sm_sems := (sm_sems x)[nat semnum := ucast cmdarg]\<rparr>) s))
                 else if cmd' = 13 then
                   write_status (write_mem env s i cmdarg
                     (concat (map (\<lambda>v. bytes_le 2 (ucast v)) (sm_sems sem))))
                 else if cmd' = IPC_RMID then
                   (case foreach_tracee n (semctl_rmid_visit env k) (all_tracees s) s of
                      None \<Rightarrow> None
                    | Some s \<Rightarrow> Some (Inr 0, upd_sem n k invalidate_semaphore s))
                 else if cmd' = 3 \<or> cmd' = 19 then
                   write_status (write_mem env s i cmdarg
                     (seminfo_bytes (if cmd = 19 then Some semaphores else None)))
                 else Some (Inl EINVAL, s)))"

end
