(* ===== verification/Ipc_Msg.thy ===== *)
theory Ipc_Msg
  imports Ipc_Sem
begin

section \<open>System V IPC: message queues\<close>

text \<open>
  \<^verbatim>\<open>extension/sysvipc/sysvipc_msg.c\<close>.  A queue is the list of its items; when it is removed its items
  are freed, and \<open>mq_items\<close> is then empty.
\<close>

definition SYSVIPC_MAX_MSG_SIZE :: word_t where "SYSVIPC_MAX_MSG_SIZE = 0xFFFF"

subsection \<open>msgget\<close>

definition empty_queue :: msg_queue where
  "empty_queue =
     \<lparr>mq_key = 0, mq_generation = 0, mq_valid = False, mq_items = [], mq_qnum = 0, mq_cbytes = 0,
      mq_qbytes = 0, mq_lspid = 0, mq_lrpid = 0, mq_stime = 0, mq_rtime = 0\<rparr>"

definition create_queue :: "word_t \<Rightarrow> msg_queue \<Rightarrow> msg_queue" where
  "create_queue key q =
     q\<lparr>mq_key := c_int key, mq_valid := True, mq_items := [], mq_qnum := 0, mq_cbytes := 0,
       mq_lspid := 0, mq_lrpid := 0, mq_stime := 0, mq_rtime := 0, mq_qbytes := 1024 * 64\<rparr>"

definition sysvipc_msgget :: "nat \<Rightarrow> 'w ipc_state \<Rightarrow> 'w outcome" where
  "sysvipc_msgget i s =
     (let queue_id = sysarg s i SYSARG_1;
          msgflg = sysarg s i SYSARG_2;
          n = cf_ns (config_at s i);
          queues = ns_queues (ns_at s i)
      in case scan_objects mq_valid mq_key queue_id queues 0 None of
           (None, unused) \<Rightarrow>
             (if \<not> has_wflag msgflg IPC_CREAT then Some (Inl ENOENT, s)
              else
                (case unused of
                   Some k \<Rightarrow>
                     Some (Inr (ipc_object_id k (mq_generation (queues ! k))),
                           upd_queue n k (create_queue queue_id) s)
                 | None \<Rightarrow>
                     (let k = length queues;
                          q = create_queue queue_id empty_queue
                      in Some (Inr (ipc_object_id k (mq_generation q)),
                               upd_ns n (\<lambda>ns. ns\<lparr>ns_queues := queues @ [q]\<rparr>) s))))
         | (Some k, _) \<Rightarrow>
             (if has_wflag msgflg IPC_CREAT \<and> has_wflag msgflg IPC_EXCL
              then Some (Inl EEXIST, s)
              else Some (Inr (ipc_object_id k (mq_generation (queues ! k))), s)))"

subsection \<open>msgsnd\<close>

text \<open>The type of a message is truncated to an \<^verbatim>\<open>int\<close> by the call.\<close>

definition sysvipc_msg_match :: "int \<Rightarrow> int \<Rightarrow> int \<Rightarrow> bool" where
  "sysvipc_msg_match sender_type receiver_filter receiver_flag =
     (let matched =
            receiver_filter = 0 \<or> sender_type = receiver_filter \<or>
            receiver_filter < 0 \<and> sender_type \<le> - receiver_filter
      in if has_flag receiver_flag MSG_EXCEPT then \<not> matched else matched)"

definition item_matches :: "ipc_config \<Rightarrow> msg_item \<Rightarrow> bool" where
  "item_matches c item = sysvipc_msg_match (c_int (mi_type item)) (cf_msgtyp c) (cf_msgflg c)"

definition waits_for_item :: "'w ipc_state \<Rightarrow> nat \<Rightarrow> nat \<Rightarrow> msg_item \<Rightarrow> nat \<Rightarrow> bool" where
  "waits_for_item s n k item j =
     (in_namespace s n j \<and> cf_reason (config_at s j) = WR_WAIT_QUEUE_RECV \<and>
      cf_index (config_at s j) = k \<and> item_matches (config_at s j) item)"

text \<open>The first waiting receiver that the message matches, in the order of the tracees, is woken.\<close>

definition wake_receiver ::
  "'w ipc_env \<Rightarrow> nat \<Rightarrow> nat \<Rightarrow> msg_item \<Rightarrow> 'w ipc_state \<Rightarrow> 'w ipc_state option" where
  "wake_receiver env n k item s =
     (case find (waits_for_item s n k item) (all_tracees s) of
        None \<Rightarrow> Some s
      | Some j \<Rightarrow>
          sysvipc_wake_tracee env j (Inl EAGAIN)
            (upd_config j (\<lambda>c. c\<lparr>cf_chain := CSTATE_MSGRCV_RETRY\<rparr>) s))"

definition sysvipc_msgsnd :: "'w ipc_env \<Rightarrow> nat \<Rightarrow> 'w ipc_state \<Rightarrow> 'w outcome" where
  "sysvipc_msgsnd env i s =
     (let n = cf_ns (config_at s i);
          queues = ns_queues (ns_at s i)
      in case lookup_ipc_object mq_valid mq_generation queues (sysarg s i SYSARG_1) of
           None \<Rightarrow> Some (Inl EINVAL, s)
         | Some k \<Rightarrow>
             (let msgp = sysarg s i SYSARG_2;
                  msgsz = sysarg s i SYSARG_3
              in if msgsz > SYSVIPC_MAX_MSG_SIZE then Some (Inl EINVAL, s)
                 else
                   (case read_mem env s i msgp 8 of
                      Inl e \<Rightarrow> Some (Inl e, s)
                    | Inr type_bytes \<Rightarrow>
                        (let mtype = word_le type_bytes in
                         if sint mtype < 1 then Some (Inl EINVAL, s)
                         else
                           (case read_mem env s i (msgp + 8) (unat msgsz) of
                              Inl e \<Rightarrow> Some (Inl e, s)
                            | Inr text \<Rightarrow>
                                (let item = \<lparr>mi_type = mtype, mi_text = text\<rparr>;
                                     s = upd_queue n k
                                           (\<lambda>q. q\<lparr>mq_lspid := pid (tracee_at s i),
                                                  mq_stime := ie_time env (st_world s)\<rparr>) s
                                 in case wake_receiver env n k item s of
                                      None \<Rightarrow> None
                                    | Some s \<Rightarrow>
                                        Some (Inr 0, upd_queue n k
                                          (\<lambda>q. q\<lparr>mq_items := mq_items q @ [item],
                                                 mq_qnum := mq_qnum q + 1,
                                                 mq_cbytes := mq_cbytes q + of_nat (length text)\<rparr>) s)))))))"

subsection \<open>msgrcv\<close>

definition sysvipc_msg_deliver ::
  "'w ipc_env \<Rightarrow> nat \<Rightarrow> nat \<Rightarrow> nat \<Rightarrow> msg_item \<Rightarrow> 'w ipc_state \<Rightarrow> int result \<times> 'w ipc_state" where
  "sysvipc_msg_deliver env i n k msg s =
     (let c = config_at s i;
          msgsz = cf_msgsz c;
          too_long = of_nat (length (mi_text msg)) > msgsz
      in if too_long \<and> \<not> has_flag (cf_msgflg c) MSG_NOERROR then (Inl E2BIG, s)
         else
           (let size = (if too_long then unat msgsz else length (mi_text msg)) in
            case write_mem env s i (cf_msgp c) (bytes_le 8 (mi_type msg)) of
              (Some e, s) \<Rightarrow> (Inl e, s)
            | (None, s) \<Rightarrow>
                (case write_mem env s i (cf_msgp c + 8) (take size (mi_text msg)) of
                   (Some e, s) \<Rightarrow> (Inl e, s)
                 | (None, s) \<Rightarrow>
                     (Inr (int size), upd_queue n k
                        (\<lambda>q. q\<lparr>mq_lrpid := pid (tracee_at s i),
                               mq_rtime := ie_time env (st_world s)\<rparr>) s))))"

text \<open>The position of the message that a receiver takes: by number for \<open>MSG_COPY\<close>, else by type.\<close>

fun find_item :: "(msg_item \<Rightarrow> bool) \<Rightarrow> msg_item list \<Rightarrow> nat \<Rightarrow> nat option" where
  "find_item p [] k = None"
| "find_item p (x # xs) k = (if p x then Some k else find_item p xs (Suc k))"

definition found_item :: "ipc_config \<Rightarrow> msg_item list \<Rightarrow> nat option" where
  "found_item c items =
     (if has_flag (cf_msgflg c) MSG_COPY then
        (if 0 \<le> cf_msgtyp c \<and> cf_msgtyp c < int (length items) then Some (nat (cf_msgtyp c)) else None)
      else find_item (item_matches c) items 0)"

definition remove_at :: "nat \<Rightarrow> 'a list \<Rightarrow> 'a list" where
  "remove_at k xs = take k xs @ drop (Suc k) xs"

definition take_item :: "nat \<Rightarrow> msg_queue \<Rightarrow> msg_queue" where
  "take_item p q =
     q\<lparr>mq_qnum := mq_qnum q - 1,
       mq_cbytes := mq_cbytes q - of_nat (length (mi_text (mq_items q ! p))),
       mq_items := remove_at p (mq_items q)\<rparr>"

definition bad_msgflg :: "int \<Rightarrow> bool" where
  "bad_msgflg flg =
     (and flg (not (or (or IPC_NOWAIT MSG_NOERROR) (or MSG_COPY MSG_EXCEPT))) \<noteq> 0 \<or>
      has_flag flg MSG_COPY \<and> (\<not> has_flag flg IPC_NOWAIT \<or> has_flag flg MSG_EXCEPT))"

definition sysvipc_do_msgrcv :: "'w ipc_env \<Rightarrow> nat \<Rightarrow> nat \<Rightarrow> 'w ipc_state \<Rightarrow> int result \<times> 'w ipc_state" where
  "sysvipc_do_msgrcv env i k s =
     (let c = config_at s i;
          n = cf_ns c;
          copy = has_flag (cf_msgflg c) MSG_COPY;
          items = mq_items (ns_queues (st_ns s ! n) ! k)
      in if c_int (cf_msgsz c) < 0 then (Inl EINVAL, s)
         else if bad_msgflg (cf_msgflg c) then (Inl EINVAL, s)
         else
           (case found_item c items of
              None \<Rightarrow>
                (if has_flag (cf_msgflg c) IPC_NOWAIT then (Inl ENOMSG, s)
                 else (Inr 0, upd_config i (\<lambda>c. c\<lparr>cf_reason := WR_WAIT_QUEUE_RECV,
                                                  cf_index := k\<rparr>) s))
            | Some p \<Rightarrow>
                (case sysvipc_msg_deliver env i n k (items ! p) s of
                   (Inl e, s) \<Rightarrow> (Inl e, s)
                 | (Inr m, s) \<Rightarrow> (Inr m, if copy then s else upd_queue n k (take_item p) s))))"

definition sysvipc_msgrcv :: "'w ipc_env \<Rightarrow> nat \<Rightarrow> 'w ipc_state \<Rightarrow> 'w outcome" where
  "sysvipc_msgrcv env i s =
     (case lookup_ipc_object mq_valid mq_generation (ns_queues (ns_at s i)) (sysarg s i SYSARG_1) of
        None \<Rightarrow> Some (Inl EINVAL, s)
      | Some k \<Rightarrow>
          (let s = upd_config i (\<lambda>c. c\<lparr>cf_msgp := sysarg s i SYSARG_2,
                                       cf_msgsz := sysarg s i SYSARG_3,
                                       cf_msgtyp := c_int (sysarg s i SYSARG_4),
                                       cf_msgflg := c_int (sysarg s i SYSARG_5)\<rparr>) s
           in Some (sysvipc_do_msgrcv env i k s)))"

text \<open>The second attempt of a receiver that was woken, when its system call ends.\<close>

definition sysvipc_msgrcv_retry :: "'w ipc_env \<Rightarrow> nat \<Rightarrow> 'w ipc_state \<Rightarrow> 'w outcome" where
  "sysvipc_msgrcv_retry env i s =
     (let c = config_at s i;
          queues = ns_queues (ns_at s i);
          k = cf_index c
      in if cf_chain c \<noteq> CSTATE_MSGRCV_RETRY then None
         else
           (if cf_status c = Inl EAGAIN then
              (if k \<ge> length queues \<or> \<not> mq_valid (queues ! k) then None
               else
                 (case sysvipc_do_msgrcv env i k s of
                    (status, s) \<Rightarrow>
                      (if cf_reason (config_at s i) \<noteq> WR_NOT_WAITING then
                         Some (Inl EINTR, upd_config i (\<lambda>c. c\<lparr>cf_reason := WR_NOT_WAITING,
                                                             cf_chain := CSTATE_NOT_CHAINED\<rparr>) s)
                       else Some (status, upd_config i (\<lambda>c. c\<lparr>cf_chain := CSTATE_NOT_CHAINED\<rparr>) s))))
            else Some (cf_status c, upd_config i (\<lambda>c. c\<lparr>cf_chain := CSTATE_NOT_CHAINED\<rparr>) s)))"

subsection \<open>msgctl\<close>

definition invalidate_queue :: "msg_queue \<Rightarrow> msg_queue" where
  "invalidate_queue q =
     q\<lparr>mq_valid := False, mq_generation := mq_generation q + 1, mq_items := []\<rparr>"

definition msgctl_rmid_visit ::
  "'w ipc_env \<Rightarrow> nat \<Rightarrow> nat \<Rightarrow> 'w ipc_state \<Rightarrow> 'w ipc_state option" where
  "msgctl_rmid_visit env k j s =
     (if cf_reason (config_at s j) = WR_WAIT_QUEUE_RECV \<and> cf_index (config_at s j) = k
      then sysvipc_wake_tracee env j (Inl EIDRM) s else Some s)"

definition sysvipc_msgctl :: "'w ipc_env \<Rightarrow> nat \<Rightarrow> 'w ipc_state \<Rightarrow> 'w outcome" where
  "sysvipc_msgctl env i s =
     (let n = cf_ns (config_at s i);
          queues = ns_queues (ns_at s i)
      in case lookup_ipc_object mq_valid mq_generation queues (sysarg s i SYSARG_1) of
           None \<Rightarrow> Some (Inl EINVAL, s)
         | Some k \<Rightarrow>
             (let cmd = c_int (sysarg s i SYSARG_2);
                  buf = sysarg s i SYSARG_3
              in if cmd = IPC_RMID \<or> cmd = or IPC_RMID SYSVIPC_IPC_64 then
                   (case foreach_tracee n (msgctl_rmid_visit env k) (all_tracees s) s of
                      None \<Rightarrow> None
                    | Some s \<Rightarrow> Some (Inr 0, upd_queue n k invalidate_queue s))
                 else if cmd = IPC_STAT \<or> cmd = or IPC_STAT SYSVIPC_IPC_64 then
                   write_status (write_mem env s i buf (ie_msqid_bytes env (queues ! k)))
                 else Some (Inl EINVAL, s)))"

end
