(* ===== verification/Ipc_Shm.thy ===== *)
theory Ipc_Shm
  imports Ipc_Msg
begin

section \<open>System V IPC: shared memory\<close>

text \<open>
  \<^verbatim>\<open>extension/sysvipc/sysvipc_shm.c\<close> as it is built without \<^verbatim>\<open>WITH_LIBANDROID_SHMEM\<close>, where
  \<open>shm_use_libandroid\<close> is never set.  A mapping belongs to a segment and to a process; the segment
  keeps the identities of its mappings.  \<open>shmat\<close> is a chain of system calls that the tracee is made
  to run (socket, connect, recvmsg, mmap, close, close), driven by \<open>sysvipc_shmat_chain\<close>.
\<close>

subsection \<open>Segments and mappings\<close>

definition upd_shm :: "nat \<Rightarrow> nat \<Rightarrow> (shared_mem \<Rightarrow> shared_mem) \<Rightarrow> 'w ipc_state \<Rightarrow> 'w ipc_state" where
  "upd_shm n k f = upd_ns n (\<lambda>ns. ns\<lparr>ns_shms := (ns_shms ns)[k := f (ns_shms ns ! k)]\<rparr>)"

definition shm_at :: "'w ipc_state \<Rightarrow> nat \<Rightarrow> nat \<Rightarrow> shared_mem" where
  "shm_at s n k = ns_shms (st_ns s ! n) ! k"

definition upd_proc :: "nat \<Rightarrow> (ipc_process \<Rightarrow> ipc_process) \<Rightarrow> 'w ipc_state \<Rightarrow> 'w ipc_state" where
  "upd_proc p f s = s\<lparr>st_procs := (st_procs s)[p := f (st_procs s ! p)]\<rparr>"

definition empty_shm :: shared_mem where
  "empty_shm =
     \<lparr>sh_key = 0, sh_generation = 0, sh_valid = False, sh_rmid_pending = False, sh_fd = 0,
      sh_mode = 0, sh_segsz = 0, sh_cpid = 0, sh_nattch = 0, sh_mappings = []\<rparr>"

definition create_shm :: "word_t \<Rightarrow> word_t \<Rightarrow> word_t \<Rightarrow> nat \<Rightarrow> int \<Rightarrow> shared_mem \<Rightarrow> shared_mem" where
  "create_shm key segsz shmflg cpid fd x =
     x\<lparr>sh_fd := fd, sh_mode := and shmflg 0x1FF, sh_segsz := segsz, sh_cpid := cpid,
       sh_key := c_int key, sh_valid := True, sh_mappings := []\<rparr>"

definition sysvipc_shmget :: "'w ipc_env \<Rightarrow> nat \<Rightarrow> 'w ipc_state \<Rightarrow> 'w outcome" where
  "sysvipc_shmget env i s =
     (let shm_key = sysarg s i SYSARG_1;
          shm_size = sysarg s i SYSARG_2;
          shmflg = sysarg s i SYSARG_3;
          n = cf_ns (config_at s i);
          shms = ns_shms (ns_at s i)
      in case scan_objects sh_valid sh_key shm_key shms 0 None of
           (None, unused) \<Rightarrow>
             (if \<not> has_wflag shmflg IPC_CREAT then Some (Inl ENOENT, s)
              else
                (let (k, s) = (case unused of
                       Some k \<Rightarrow> (k, s)
                     | None \<Rightarrow> (length shms, upd_ns n (\<lambda>ns. ns\<lparr>ns_shms := shms @ [empty_shm]\<rparr>) s));
                     shmid = ipc_object_id k (sh_generation (shm_at s n k));
                     (fd, w) = ie_shm_alloc env (st_world s) shmid shm_size;
                     s = s\<lparr>st_world := w\<rparr>
                 in if fd < 0 then
                      Some (Inl ENOSPC, upd_shm n k (\<lambda>x. x\<lparr>sh_fd := fd\<rparr>) s)
                    else
                      Some (Inr shmid, upd_shm n k
                        (create_shm shm_key shm_size shmflg
                           (pr_pgid (st_procs s ! cf_process (config_at s i))) fd) s)))
         | (Some k, _) \<Rightarrow>
             (if has_wflag shmflg IPC_CREAT \<and> has_wflag shmflg IPC_EXCL then Some (Inl EEXIST, s)
              else if shm_size \<noteq> 0 \<and> shm_size \<noteq> sh_segsz (shms ! k) then Some (Inl EINVAL, s)
              else Some (Inr (ipc_object_id k (sh_generation (shms ! k))), s)))"

definition invalidate_shm :: "shared_mem \<Rightarrow> shared_mem" where
  "invalidate_shm x =
     x\<lparr>sh_mappings := [], sh_valid := False, sh_rmid_pending := False,
       sh_generation := sh_generation x + 1, sh_fd := - 1\<rparr>"

definition sysvipc_do_rmid :: "'w ipc_env \<Rightarrow> nat \<Rightarrow> nat \<Rightarrow> 'w ipc_state \<Rightarrow> 'w ipc_state option" where
  "sysvipc_do_rmid env n k s =
     (if sh_mappings (shm_at s n k) \<noteq> [] then None
      else
        (let s = s\<lparr>st_world := ie_shm_free env (st_world s) (sh_fd (shm_at s n k))\<rparr>
         in Some (upd_shm n k invalidate_shm s)))"

text \<open>
  Freeing a mapping of process \<open>p\<close> runs its destructor, which unlinks it from both lists and
  completes a pending removal of the segment.
\<close>

definition free_mapping :: "'w ipc_env \<Rightarrow> nat \<Rightarrow> shm_map \<Rightarrow> 'w ipc_state \<Rightarrow> 'w ipc_state option" where
  "free_mapping env p m s =
     (let s = upd_shm (mp_ns m) (mp_shm m)
                (\<lambda>x. x\<lparr>sh_mappings := filter (\<lambda>d. d \<noteq> mp_id m) (sh_mappings x)\<rparr>) s;
          s = upd_proc p (\<lambda>pr. pr\<lparr>pr_mapped := filter (\<lambda>x. mp_id x \<noteq> mp_id m) (pr_mapped pr)\<rparr>) s;
          shm = shm_at s (mp_ns m) (mp_shm m)
      in if sh_mappings shm = [] \<and> sh_rmid_pending shm
         then sysvipc_do_rmid env (mp_ns m) (mp_shm m) s else Some s)"

subsection \<open>shmat\<close>

definition shm_wake_visit :: "'w ipc_env \<Rightarrow> nat \<Rightarrow> 'w ipc_state \<Rightarrow> 'w ipc_state option" where
  "shm_wake_visit env j s =
     (case sysvipc_wake_tracee env j (Inr 0) s of
        None \<Rightarrow> None
      | Some s \<Rightarrow>
          (let s = upd_tracee j (\<lambda>t. register_chained_syscall t ''socket'' [1, 5, 0, 0, 0, 0]) s
           in Some (upd_config j (\<lambda>c. c\<lparr>cf_chain := CSTATE_SHMAT_SOCKET\<rparr>) s)))"

text \<open>The first tracee, of any namespace, that waits for the helper is made to start over.\<close>

definition waits_for_helper :: "'w ipc_state \<Rightarrow> nat \<Rightarrow> bool" where
  "waits_for_helper s j =
     (case config_of s j of None \<Rightarrow> False | Some c \<Rightarrow> cf_reason c = WR_WAIT_SHMAT_HELPER_BUSY)"

definition sysvipc_shm_wake_pending_shmat :: "'w ipc_env \<Rightarrow> 'w ipc_state \<Rightarrow> 'w ipc_state option" where
  "sysvipc_shm_wake_pending_shmat env s =
     (case find (waits_for_helper s) (all_tracees s) of
        None \<Rightarrow> Some s
      | Some j \<Rightarrow> shm_wake_visit env j s)"

definition uses_helper :: "'w ipc_state \<Rightarrow> nat \<Rightarrow> bool" where
  "uses_helper s j =
     (case config_of s j of
        None \<Rightarrow> False
      | Some c \<Rightarrow> cf_chain c \<in> {CSTATE_SHMAT_CONNECT, CSTATE_SHMAT_RECVMSG, CSTATE_SHMAT_MMAP})"

definition new_mapping :: "nat \<Rightarrow> nat \<Rightarrow> nat \<Rightarrow> 'w ipc_state \<Rightarrow> 'w ipc_state" where
  "new_mapping p n k s =
     (let m = \<lparr>mp_id = st_next_map s, mp_addr = 0, mp_size = 0, mp_ns = n, mp_shm = k\<rparr>;
          s = s\<lparr>st_next_map := Suc (st_next_map s)\<rparr>;
          s = upd_proc p (\<lambda>pr. pr\<lparr>pr_mapped := m # pr_mapped pr\<rparr>) s
      in upd_shm n k (\<lambda>x. x\<lparr>sh_mappings := mp_id m # sh_mappings x\<rparr>) s)"

definition sysvipc_shmat :: "nat \<Rightarrow> 'w ipc_state \<Rightarrow> 'w outcome" where
  "sysvipc_shmat i s =
     (let n = cf_ns (config_at s i) in
      case lookup_ipc_object sh_valid sh_generation (ns_shms (ns_at s i)) (sysarg s i SYSARG_1) of
        None \<Rightarrow> Some (Inl EINVAL, s)
      | Some k \<Rightarrow>
          (let s = upd_config i (\<lambda>c. c\<lparr>cf_index := k\<rparr>) s;
               s = new_mapping (cf_process (config_at s i)) n k s
           in if list_ex (uses_helper s) (all_tracees s) then
                Some (Inr 0, upd_config i (\<lambda>c. c\<lparr>cf_reason := WR_WAIT_SHMAT_HELPER_BUSY\<rparr>) s)
              else
                (let s = upd_tracee i (\<lambda>t. set_sysnum t ''socket'') s;
                     s = upd_tracee i (\<lambda>t. poke_reg t SYSARG_1 1) s;
                     s = upd_tracee i (\<lambda>t. poke_reg t SYSARG_2 5) s;
                     s = upd_tracee i (\<lambda>t. poke_reg t SYSARG_3 0) s
                 in Some (Inr 0, upd_config i (\<lambda>c. c\<lparr>cf_chain := CSTATE_SHMAT_SOCKET\<rparr>) s))))"

definition find_pending_mapping :: "'w ipc_state \<Rightarrow> nat \<Rightarrow> nat \<Rightarrow> nat \<Rightarrow> shm_map option" where
  "find_pending_mapping s p n k =
     find (\<lambda>m. mp_size m = 0 \<and> mp_shm m = k \<and> mp_ns m = n) (pr_mapped (st_procs s ! p))"

text \<open>The layout of the message header in the guest buffer of 110 bytes.\<close>

record recvmsg_pointers =
  msghdr_ptr :: word_t
  cmsg_controllen_ptr :: word_t
  cmsg_control_ptr :: word_t

definition put_field :: "nat \<Rightarrow> word_t \<Rightarrow> word_t \<Rightarrow> 8 word list \<Rightarrow> 8 word list" where
  "put_field ptr_len off v data =
     take (unat off) data @ bytes_le ptr_len v @ drop (unat off + ptr_len) data"

definition sysvipc_shm_recvmsg_pointers ::
  "'w ipc_env \<Rightarrow> nat \<Rightarrow> word_t \<Rightarrow> bool \<Rightarrow> 'w ipc_state \<Rightarrow> recvmsg_pointers result \<times> 'w ipc_state" where
  "sysvipc_shm_recvmsg_pointers env i guest_buf do_write s =
     (let ptr_size = (if is_32on64_mode (tracee_at s i) then 4 else 8);
          ptr_len = of_nat ptr_size;
          buf_end = guest_buf + 110;
          data_addr = buf_end - 4;
          data_iov_length = data_addr - ptr_len;
          data_iov_addr = data_iov_length - ptr_len;
          msghdr_flags = data_iov_addr - ptr_len;
          msghdr_controllen = msghdr_flags - ptr_len;
          msghdr_control = msghdr_controllen - ptr_len;
          msghdr_iovlen = msghdr_control - ptr_len;
          msghdr_iov = msghdr_iovlen - ptr_len;
          msghdr = msghdr_iov - ptr_len * 2;
          pointers = \<lparr>msghdr_ptr = msghdr, cmsg_controllen_ptr = msghdr_controllen,
                      cmsg_control_ptr = guest_buf\<rparr>
      in if \<not> do_write then (Inr pointers, s)
         else
           (let put = (\<lambda>addr. put_field ptr_size (addr - guest_buf));
                data = replicate 110 0;
                data = put data_iov_addr data_addr data;
                data = put data_iov_length 1 data;
                data = put msghdr_iov data_iov_addr data;
                data = put msghdr_iovlen 1 data;
                data = put msghdr_control guest_buf data;
                data = put msghdr_controllen 20 data
            in case write_mem env s i guest_buf data of
                 (Some e, s) \<Rightarrow> (Inl e, s)
               | (None, s) \<Rightarrow> (Inr pointers, s)))"

text \<open>The two ways to give up: the pending mapping is freed and the next \<open>shmat\<close> is started.\<close>

definition shmat_give_up :: "'w ipc_env \<Rightarrow> nat \<Rightarrow> 'w ipc_state \<Rightarrow> 'w ipc_state option" where
  "shmat_give_up env i s =
     (let s = upd_config i (\<lambda>c. c\<lparr>cf_chain := CSTATE_NOT_CHAINED\<rparr>) s;
          c = config_at s i
      in case find_pending_mapping s (cf_process c) (cf_ns c) (cf_index c) of
           None \<Rightarrow> None
         | Some m \<Rightarrow>
             (case free_mapping env (cf_process c) m s of
                None \<Rightarrow> None
              | Some s \<Rightarrow> sysvipc_shm_wake_pending_shmat env s))"

definition shmat_fail_dont_close :: "'w ipc_env \<Rightarrow> nat \<Rightarrow> 'w ipc_state \<Rightarrow> 'w outcome" where
  "shmat_fail_dont_close env i s =
     map_option (Pair (Inl ENOMEM)) (shmat_give_up env i s)"

definition close_syscall :: "word_t \<Rightarrow> tracee \<Rightarrow> tracee" where
  "close_syscall fd t = register_chained_syscall t ''close'' [fd, 0, 0, 0, 0, 0]"

definition shmat_fail_close_socket :: "'w ipc_env \<Rightarrow> nat \<Rightarrow> 'w ipc_state \<Rightarrow> 'w outcome" where
  "shmat_fail_close_socket env i s =
     (let s = upd_tracee i (close_syscall (word_of_int (cf_shm_socket (config_at s i)))) s;
          s = upd_tracee i (\<lambda>t. force_chain_final_result t (- 12)) s
      in map_option (Pair (Inr 1)) (shmat_give_up env i s))"

definition shmat_socket :: "'w ipc_env \<Rightarrow> nat \<Rightarrow> 'w ipc_state \<Rightarrow> 'w outcome" where
  "shmat_socket env i s =
     (let fd = c_int (sysarg s i SYSARG_RESULT);
          s = upd_config i (\<lambda>c. c\<lparr>cf_shm_socket := fd\<rparr>) s;
          guest_addr = sysarg s i STACK_POINTER - 110
      in if fd < 0 \<or> guest_addr = 0 then shmat_fail_dont_close env i s
         else
           (case write_mem env s i guest_addr (ie_shm_addr env (st_world s)) of
              (Some e, s) \<Rightarrow> shmat_fail_dont_close env i s
            | (None, s) \<Rightarrow>
                (let s = upd_tracee i (\<lambda>t. register_chained_syscall t ''connect''
                           [word_of_int fd, guest_addr, 110, 0, 0, 0]) s
                 in Some (Inr 1, upd_config i (\<lambda>c. c\<lparr>cf_shm_buf := guest_addr,
                                                    cf_chain := CSTATE_SHMAT_CONNECT\<rparr>) s))))"

definition shmat_connect :: "'w ipc_env \<Rightarrow> nat \<Rightarrow> 'w ipc_state \<Rightarrow> 'w outcome" where
  "shmat_connect env i s =
     (let c = config_at s i in
      if c_int (sysarg s i SYSARG_RESULT) \<noteq> 0 then shmat_fail_close_socket env i s
      else
        (case sysvipc_shm_recvmsg_pointers env i (cf_shm_buf c) True s of
           (Inl e, s) \<Rightarrow> shmat_fail_close_socket env i s
         | (Inr pointers, s) \<Rightarrow>
             (let s = s\<lparr>st_world :=
                        ie_shm_distribute env (st_world s) (sh_fd (shm_at s (cf_ns c) (cf_index c)))\<rparr>;
                  s = upd_tracee i (\<lambda>t. register_chained_syscall t ''recvmsg''
                        [word_of_int (cf_shm_socket c), msghdr_ptr pointers, 0, 0, 0, 0]) s
              in Some (Inr 1, upd_config i (\<lambda>c. c\<lparr>cf_chain := CSTATE_SHMAT_RECVMSG\<rparr>) s))))"

text \<open>
  \<^verbatim>\<open>struct cmsghdr\<close>: the length (8 bytes), the level and the type (4 bytes each), then the
  descriptor.
\<close>

definition shmat_recvmsg :: "'w ipc_env \<Rightarrow> nat \<Rightarrow> 'w ipc_state \<Rightarrow> 'w outcome" where
  "shmat_recvmsg env i s =
     (let c = config_at s i;
          ctl = cf_shm_buf c
      in case read_mem env s i ctl 16 of
           Inl e \<Rightarrow> shmat_fail_close_socket env i s
         | Inr cmsg \<Rightarrow>
             (if word_le (take 4 (drop 8 cmsg)) \<noteq> 1 \<or> word_le (take 4 (drop 12 cmsg)) \<noteq> 1
              then shmat_fail_close_socket env i s
              else
                (case read_mem env s i (ctl + 16) 4 of
                   Inl e \<Rightarrow> shmat_fail_close_socket env i s
                 | Inr fd_bytes \<Rightarrow>
                     (let fd = word_le fd_bytes;
                          page_size = ie_page_size env;
                          map_size = and (sh_segsz (shm_at s (cf_ns c) (cf_index c)) + (page_size - 1))
                                         (not (page_size - 1))
                      in if fd > 0xFFFF then shmat_fail_close_socket env i s
                         else
                           (let s = upd_tracee i (\<lambda>t. register_chained_syscall t (mmap_sysnum t)
                                      [0, map_size, 3, 1, fd, 0]) s
                            in Some (Inr 1, upd_config i (\<lambda>c. c\<lparr>cf_shm_mem := fd,
                                              cf_chain := CSTATE_SHMAT_MMAP\<rparr>) s))))))"

definition shmat_mmap :: "'w ipc_env \<Rightarrow> nat \<Rightarrow> 'w ipc_state \<Rightarrow> 'w outcome" where
  "shmat_mmap env i s =
     (let c = config_at s i;
          p = cf_process c;
          addr = sysarg s i SYSARG_RESULT;
          size = sysarg s i SYSARG_2
      in case find_pending_mapping s p (cf_ns c) (cf_index c) of
           None \<Rightarrow> None
         | Some m \<Rightarrow>
             (let s = upd_proc p (\<lambda>pr. pr\<lparr>pr_mapped :=
                        map (\<lambda>x. if mp_id x = mp_id m then x\<lparr>mp_addr := addr, mp_size := size\<rparr> else x)
                          (pr_mapped pr)\<rparr>) s;
                  s = upd_tracee i (close_syscall (cf_shm_mem c)) s;
                  s = upd_tracee i (close_syscall (word_of_int (cf_shm_socket c))) s;
                  s = upd_tracee i (\<lambda>t. force_chain_final_result t addr) s;
                  s = upd_config i (\<lambda>c. c\<lparr>cf_chain := CSTATE_NOT_CHAINED\<rparr>) s
              in map_option (Pair (Inr 1)) (sysvipc_shm_wake_pending_shmat env s)))"

definition sysvipc_shmat_chain :: "'w ipc_env \<Rightarrow> nat \<Rightarrow> 'w ipc_state \<Rightarrow> 'w outcome" where
  "sysvipc_shmat_chain env i s =
     (let c = config_at s i;
          shms = ns_shms (ns_at s i)
      in if cf_index c \<ge> length shms \<or> \<not> sh_valid (shms ! cf_index c) then None
         else
           (case cf_chain c of
              CSTATE_SHMAT_SOCKET \<Rightarrow> shmat_socket env i s
            | CSTATE_SHMAT_CONNECT \<Rightarrow> shmat_connect env i s
            | CSTATE_SHMAT_RECVMSG \<Rightarrow> shmat_recvmsg env i s
            | CSTATE_SHMAT_MMAP \<Rightarrow> shmat_mmap env i s
            | _ \<Rightarrow> None))"

subsection \<open>shmdt, shmctl and the life of a process\<close>

definition sysvipc_shmdt :: "'w ipc_env \<Rightarrow> nat \<Rightarrow> 'w ipc_state \<Rightarrow> 'w outcome" where
  "sysvipc_shmdt env i s =
     (let addr = sysarg s i SYSARG_1;
          p = cf_process (config_at s i)
      in case find (\<lambda>m. mp_addr m = addr) (pr_mapped (st_procs s ! p)) of
           None \<Rightarrow> Some (Inl EINVAL, s)
         | Some m \<Rightarrow>
             (let s = upd_tracee i (\<lambda>t. set_sysnum t ''munmap'') s;
                  s = upd_tracee i (\<lambda>t. poke_reg t SYSARG_2 (mp_size m)) s;
                  s = upd_config i (\<lambda>c. c\<lparr>cf_chain := CSTATE_SINGLE\<rparr>) s
              in map_option (Pair (Inr 0)) (free_mapping env p m s)))"

definition sysvipc_shm_update_stats :: "shared_mem \<Rightarrow> shared_mem" where
  "sysvipc_shm_update_stats x = x\<lparr>sh_nattch := of_nat (length (sh_mappings x))\<rparr>"

definition sysvipc_shmctl :: "'w ipc_env \<Rightarrow> nat \<Rightarrow> 'w ipc_state \<Rightarrow> 'w outcome" where
  "sysvipc_shmctl env i s =
     (let n = cf_ns (config_at s i) in
      case lookup_ipc_object sh_valid sh_generation (ns_shms (ns_at s i)) (sysarg s i SYSARG_1) of
        None \<Rightarrow> Some (Inl EINVAL, s)
      | Some k \<Rightarrow>
          (let cmd = c_int (sysarg s i SYSARG_2);
               buf = sysarg s i SYSARG_3
           in if cmd = IPC_RMID \<or> cmd = or IPC_RMID SYSVIPC_IPC_64 then
                (if sh_mappings (shm_at s n k) = []
                 then map_option (Pair (Inr 0)) (sysvipc_do_rmid env n k s)
                 else Some (Inr 0, upd_shm n k (\<lambda>x. x\<lparr>sh_rmid_pending := True\<rparr>) s))
              else if cmd = IPC_STAT then
                (let s = upd_shm n k sysvipc_shm_update_stats s
                 in write_status (write_mem env s i buf (ie_shmid_bytes env (shm_at s n k))))
              else Some (Inl EINVAL, s)))"

text \<open>
  A child process inherits the mappings of its parent, in the same order; each copy is linked to
  the segment right after the mapping it copies.
\<close>

definition insert_after :: "nat \<Rightarrow> nat \<Rightarrow> nat list \<Rightarrow> nat list" where
  "insert_after x y xs = concat (map (\<lambda>d. if d = x then [d, y] else [d]) xs)"

fun inherit_mappings :: "shm_map list \<Rightarrow> nat \<Rightarrow> 'w ipc_state \<Rightarrow> 'w ipc_state" where
  "inherit_mappings [] child s = s"
| "inherit_mappings (m # ms) child s =
     (let new = m\<lparr>mp_id := st_next_map s\<rparr>;
          s = s\<lparr>st_next_map := Suc (st_next_map s)\<rparr>;
          s = upd_shm (mp_ns m) (mp_shm m)
                (\<lambda>x. x\<lparr>sh_mappings := insert_after (mp_id m) (mp_id new) (sh_mappings x)\<rparr>) s;
          s = upd_proc child (\<lambda>pr. pr\<lparr>pr_mapped := pr_mapped pr @ [new]\<rparr>) s
      in inherit_mappings ms child s)"

definition sysvipc_shm_inherit_process :: "nat \<Rightarrow> nat \<Rightarrow> 'w ipc_state \<Rightarrow> 'w ipc_state" where
  "sysvipc_shm_inherit_process parent child s =
     inherit_mappings (pr_mapped (st_procs s ! parent)) child s"

fun free_mappings :: "'w ipc_env \<Rightarrow> nat \<Rightarrow> shm_map list \<Rightarrow> 'w ipc_state \<Rightarrow> 'w ipc_state option" where
  "free_mappings env p [] s = Some s"
| "free_mappings env p (m # ms) s =
     (case free_mapping env p m s of None \<Rightarrow> None | Some s \<Rightarrow> free_mappings env p ms s)"

definition sysvipc_shm_remove_mappings_from_process ::
  "'w ipc_env \<Rightarrow> nat \<Rightarrow> 'w ipc_state \<Rightarrow> 'w ipc_state option" where
  "sysvipc_shm_remove_mappings_from_process env p s =
     free_mappings env p (pr_mapped (st_procs s ! p)) s"

text \<open>The size column of \<^verbatim>\<open>/proc/sysvipc/shm\<close>: rounded with \<^verbatim>\<open>& ~page_size\<close>.\<close>

definition proc_map_size :: "word_t \<Rightarrow> word_t \<Rightarrow> word_t" where
  "proc_map_size page_size segsz = and (segsz + (page_size - 1)) (not page_size)"

end
