(* ===== verification/Ipc_Machine.thy ===== *)
theory Ipc_Machine
  imports Ipc_Shm
begin

section \<open>System V IPC: the wait machine\<close>

text \<open>
  \<^verbatim>\<open>extension/sysvipc/sysvipc.c\<close>: the dispatch of the system calls, the events of the extension, and
  the two functions of \<^verbatim>\<open>tracee/seccomp.c\<close> they use.  A tracee that has to wait is made to run
  \<^verbatim>\<open>ppoll\<close>; \<open>sysvipc_wake_tracee\<close> interrupts it.  The statuses 0, 1 and 2 are those of
  \<^verbatim>\<open>notify_extensions\<close>: not handled, handled, handled with the result set.
\<close>

subsection \<open>After a SIGSYS\<close>

definition push_at :: "'w ipc_env \<Rightarrow> nat \<Rightarrow> 'w ipc_state \<Rightarrow> 'w ipc_state" where
  "push_at env i s =
     (case push_specific_regs (ie_setregs env) (st_world s) (tracee_at s i) of
        (_, t, w) \<Rightarrow> upd_tracee i (\<lambda>_. t) (s\<lparr>st_world := w\<rparr>))"

text \<open>The last line is \<^verbatim>\<open>rax = orig_rax\<close>, which does not go through \<open>poke_reg\<close>.\<close>

definition prepare_restart :: "tracee \<Rightarrow> tracee" where
  "prepare_restart t =
     (let t = t\<lparr>restore_original_regs_after_seccomp_event := True, restart_how := PTRACE_SYSCALL\<rparr>;
          t = poke_reg t INSTR_POINTER (peek_reg t CURRENT INSTR_POINTER - get_systrap_size t);
          bank = regs t CURRENT
      in t\<lparr>regs := (regs t)(CURRENT := bank(RAX := bank ORIG_RAX))\<rparr>)"

definition restart_syscall_after_seccomp :: "'w ipc_env \<Rightarrow> nat \<Rightarrow> 'w ipc_state \<Rightarrow> 'w ipc_state" where
  "restart_syscall_after_seccomp env i s = push_at env i (upd_tracee i prepare_restart s)"

definition set_result_after_seccomp ::
  "'w ipc_env \<Rightarrow> nat \<Rightarrow> int \<Rightarrow> 'w ipc_state \<Rightarrow> 'w ipc_state" where
  "set_result_after_seccomp env i result s =
     (let s = upd_tracee i (\<lambda>t. poke_reg t SYSARG_RESULT (word_of_int result)) s;
          s = push_at env i s
      in upd_tracee i (\<lambda>t. t\<lparr>tr_status := 0, restart_how := PTRACE_SYSCALL\<rparr>) s)"

subsection \<open>Dispatch\<close>

text \<open>The handler of a system call: \<open>None\<close> when it is not one of System V IPC.\<close>

definition ipc_handler ::
  "'w ipc_env \<Rightarrow> Sysnum \<Rightarrow> (nat \<Rightarrow> 'w ipc_state \<Rightarrow> 'w outcome) option" where
  "ipc_handler env sysnum =
     (if sysnum = ''msgget'' then Some sysvipc_msgget
      else if sysnum = ''msgsnd'' then Some (sysvipc_msgsnd env)
      else if sysnum = ''msgrcv'' then Some (sysvipc_msgrcv env)
      else if sysnum = ''msgctl'' then Some (sysvipc_msgctl env)
      else if sysnum = ''semget'' then Some sysvipc_semget
      else if sysnum = ''semtimedop'' then Some (sysvipc_semop env)
      else if sysnum = ''semop'' then Some (sysvipc_semop env)
      else if sysnum = ''semctl'' then Some (sysvipc_semctl env)
      else if sysnum = ''shmget'' then Some (sysvipc_shmget env)
      else if sysnum = ''shmat'' then Some sysvipc_shmat
      else if sysnum = ''shmdt'' then Some (sysvipc_shmdt env)
      else if sysnum = ''shmctl'' then Some (sysvipc_shmctl env)
      else None)"

definition set_restart_syscall :: "nat \<Rightarrow> 'w ipc_state \<Rightarrow> 'w ipc_state" where
  "set_restart_syscall i = upd_tracee i (\<lambda>t. t\<lparr>restart_how := PTRACE_SYSCALL\<rparr>)"

text \<open>The three ways \<open>sysvipc_syscall_common\<close> ends: chained, waiting, and done.\<close>

definition finish_chained :: "'w ipc_env \<Rightarrow> nat \<Rightarrow> bool \<Rightarrow> 'w ipc_state \<Rightarrow> 'w outcome" where
  "finish_chained env i from_sigsys s =
     (let cs = cf_chain (config_at s i) in
      if cs \<noteq> CSTATE_SINGLE \<and> cs \<noteq> CSTATE_SHMAT_SOCKET then None
      else
        (let s = (if cs = CSTATE_SINGLE
                  then upd_config i (\<lambda>c. c\<lparr>cf_chain := CSTATE_NOT_CHAINED\<rparr>) s else s);
             s = set_restart_syscall i s
         in if from_sigsys then Some (Inr 2, restart_syscall_after_seccomp env i s)
            else Some (Inr 1, s)))"

definition enter_ppoll :: "word_t \<Rightarrow> tracee \<Rightarrow> tracee" where
  "enter_ppoll timeout t =
     (let t = poke_reg t SYSARG_1 0;
          t = poke_reg t SYSARG_2 0;
          t = poke_reg t SYSARG_3 timeout;
          t = poke_reg t SYSARG_4 0;
          t = set_sysnum t ''ppoll''
      in t\<lparr>restart_how := PTRACE_SYSCALL\<rparr>)"

definition finish_waiting :: "'w ipc_env \<Rightarrow> nat \<Rightarrow> word_t \<Rightarrow> bool \<Rightarrow> 'w ipc_state \<Rightarrow> 'w outcome" where
  "finish_waiting env i timeout from_sigsys s =
     (let s = upd_tracee i (enter_ppoll timeout) s in
      if from_sigsys then
        Some (Inr 2, restart_syscall_after_seccomp env i
          (upd_config i (\<lambda>c. c\<lparr>cf_wait := WSTATE_RESTARTED_INTO_PPOLL\<rparr>) s))
      else Some (Inr 1, upd_config i (\<lambda>c. c\<lparr>cf_wait := WSTATE_ENTERED_PPOLL\<rparr>) s))"

definition finish_done :: "'w ipc_env \<Rightarrow> nat \<Rightarrow> int result \<Rightarrow> bool \<Rightarrow> 'w ipc_state \<Rightarrow> 'w outcome" where
  "finish_done env i status from_sigsys s =
     (if from_sigsys then Some (Inr 2, set_result_after_seccomp env i (status_int status) s)
      else
        (let s = upd_config i (\<lambda>c. c\<lparr>cf_status := status, cf_wait := WSTATE_ENTERED_GETPID\<rparr>) s;
             s = upd_tracee i (\<lambda>t. set_sysnum t ''getpid'') s
         in Some (Inr 1, set_restart_syscall i s)))"

definition sysvipc_syscall_common :: "'w ipc_env \<Rightarrow> nat \<Rightarrow> bool \<Rightarrow> 'w ipc_state \<Rightarrow> 'w outcome" where
  "sysvipc_syscall_common env i from_sigsys s =
     (if cf_wait (config_at s i) \<noteq> WSTATE_NOT_WAITING then None
      else
        (case get_sysnum (tracee_at s i) CURRENT of
           None \<Rightarrow> None
         | Some sysnum \<Rightarrow>
             (let timeout = (if sysnum = ''semtimedop'' then sysarg s i SYSARG_4 else 0) in
              case ipc_handler env sysnum of
                None \<Rightarrow> Some (Inr 0, s)
              | Some handler \<Rightarrow>
                  (case handler i s of
                     None \<Rightarrow> None
                   | Some (status, s) \<Rightarrow>
                       (if cf_chain (config_at s i) \<noteq> CSTATE_NOT_CHAINED then
                          finish_chained env i from_sigsys s
                        else if cf_reason (config_at s i) \<noteq> WR_NOT_WAITING then
                          finish_waiting env i timeout from_sigsys s
                        else finish_done env i status from_sigsys s)))))"

subsection \<open>The events\<close>

text \<open>The end of a wait: the status to report, after the second attempt of a woken receiver.\<close>

definition status_after_wait :: "'w ipc_env \<Rightarrow> nat \<Rightarrow> 'w ipc_state \<Rightarrow> 'w outcome" where
  "status_after_wait env i s =
     (if cf_chain (config_at s i) = CSTATE_MSGRCV_RETRY then sysvipc_msgrcv_retry env i s
      else Some (cf_status (config_at s i), s))"

definition poke_status :: "nat \<Rightarrow> int result \<Rightarrow> 'w ipc_state \<Rightarrow> 'w ipc_state" where
  "poke_status i status = upd_tracee i (\<lambda>t. poke_reg t SYSARG_RESULT (word_of_int (status_int status)))"

definition set_wait :: "nat \<Rightarrow> wait_state \<Rightarrow> 'w ipc_state \<Rightarrow> 'w ipc_state" where
  "set_wait i w = upd_config i (\<lambda>c. c\<lparr>cf_wait := w\<rparr>)"

definition syscall_enter_start :: "'w ipc_env \<Rightarrow> nat \<Rightarrow> 'w ipc_state \<Rightarrow> 'w outcome" where
  "syscall_enter_start env i s =
     (case cf_wait (config_at s i) of
        WSTATE_NOT_WAITING \<Rightarrow> sysvipc_syscall_common env i False s
      | WSTATE_RESTARTED_INTO_PPOLL \<Rightarrow>
          (if get_sysnum (tracee_at s i) CURRENT \<noteq> Some ''ppoll'' then None
           else Some (Inr 1, set_restart_syscall i (set_wait i WSTATE_ENTERED_PPOLL s)))
      | WSTATE_RESTARTED_INTO_PPOLL_CANCELED \<Rightarrow>
          (case status_after_wait env i s of
             None \<Rightarrow> None
           | Some (status, s) \<Rightarrow>
               Some (Inr 1, set_wait i WSTATE_NOT_WAITING
                 (upd_tracee i (\<lambda>t. set_sysnum t PR_void) (poke_status i status s))))
      | _ \<Rightarrow> None)"

definition sigsys_occ :: "'w ipc_env \<Rightarrow> nat \<Rightarrow> 'w ipc_state \<Rightarrow> 'w outcome" where
  "sigsys_occ env i s = sysvipc_syscall_common env i True s"

text \<open>\<open>ppoll\<close> ended by itself: the wait is given up.\<close>

definition ppoll_exit :: "nat \<Rightarrow> 'w ipc_state \<Rightarrow> 'w outcome" where
  "ppoll_exit i s =
     (let s = set_wait i WSTATE_NOT_WAITING s;
          ppoll_status = c_int (sysarg s i SYSARG_RESULT)
      in if cf_reason (config_at s i) = WR_NOT_WAITING then None
         else
           (let s = (if cf_reason (config_at s i) = WR_WAIT_SEMOP then sysvipc_semop_timedout i s
                     else upd_config i (\<lambda>c. c\<lparr>cf_reason := WR_NOT_WAITING\<rparr>) s)
            in if ppoll_status = - errno_code EFAULT \<or> ppoll_status = - errno_code EINTR
               then Some (Inr 1, s) else Some (Inl EINTR, s)))"

definition in_shmat_chain :: "chain_state \<Rightarrow> bool" where
  "in_shmat_chain cs =
     (cs \<in> {CSTATE_SHMAT_SOCKET, CSTATE_SHMAT_CONNECT, CSTATE_SHMAT_RECVMSG, CSTATE_SHMAT_MMAP})"

definition syscall_exit_start :: "'w ipc_env \<Rightarrow> nat \<Rightarrow> 'w ipc_state \<Rightarrow> 'w outcome" where
  "syscall_exit_start env i s =
     (if in_shmat_chain (cf_chain (config_at s i)) then
        (if cf_chain (config_at s i) = CSTATE_SHMAT_SOCKET then sysvipc_shmat_chain env i s else None)
      else
        (case cf_wait (config_at s i) of
           WSTATE_NOT_WAITING \<Rightarrow> Some (Inr 0, s)
         | WSTATE_ENTERED_PPOLL \<Rightarrow> ppoll_exit i s
         | WSTATE_RESTARTED_INTO_PPOLL \<Rightarrow> None
         | WSTATE_RESTARTED_INTO_PPOLL_CANCELED \<Rightarrow> None
         | _ \<Rightarrow>
             (if cf_reason (config_at s i) \<noteq> WR_NOT_WAITING then None
              else
                (case status_after_wait env i (set_wait i WSTATE_NOT_WAITING s) of
                   None \<Rightarrow> None
                 | Some (status, s) \<Rightarrow> Some (Inr 1, poke_status i status s)))))"

definition syscall_chained_enter :: "nat \<Rightarrow> 'w ipc_state \<Rightarrow> 'w outcome" where
  "syscall_chained_enter i s =
     (case cf_wait (config_at s i) of
        WSTATE_NOT_WAITING \<Rightarrow> Some (Inr 0, s)
      | WSTATE_RESTARTED_INTO_PPOLL_CANCELED \<Rightarrow>
          Some (Inr 0, set_wait i WSTATE_SIGNALED_PPOLL (upd_tracee i (\<lambda>t. poke_reg t SYSARG_3 1) s))
      | _ \<Rightarrow> None)"

definition syscall_chained_exit :: "'w ipc_env \<Rightarrow> nat \<Rightarrow> 'w ipc_state \<Rightarrow> 'w outcome" where
  "syscall_chained_exit env i s =
     (case cf_wait (config_at s i) of
        WSTATE_NOT_WAITING \<Rightarrow>
          (if in_shmat_chain (cf_chain (config_at s i)) then
             (case sysvipc_shmat_chain env i s of
                None \<Rightarrow> None
              | Some (_, s) \<Rightarrow> Some (Inr 0, s))
           else Some (Inr 0, s))
      | WSTATE_SIGNALED_PPOLL \<Rightarrow> Some (Inr 0, set_wait i WSTATE_NOT_WAITING s)
      | _ \<Rightarrow> None)"

text \<open>\<open>execve\<close> that succeeded so far unmaps everything.\<close>

definition syscall_enter_end :: "'w ipc_env \<Rightarrow> nat \<Rightarrow> int \<Rightarrow> 'w ipc_state \<Rightarrow> 'w outcome" where
  "syscall_enter_end env i status s =
     (if status = 0 \<and> get_sysnum (tracee_at s i) CURRENT = Some ''execve'' then
        map_option (Pair (Inr 0))
          (sysvipc_shm_remove_mappings_from_process env (cf_process (config_at s i)) s)
      else Some (Inr 0, s))"

text \<open>The extension is attached to a tracee, or inherited by a new thread or process.\<close>

definition new_config :: "nat \<Rightarrow> nat \<Rightarrow> ipc_config" where
  "new_config n p =
     \<lparr>cf_ns = n, cf_process = p, cf_reason = WR_NOT_WAITING, cf_wait = WSTATE_NOT_WAITING,
      cf_chain = CSTATE_NOT_CHAINED, cf_status = Inr 0, cf_index = 0, cf_msgp = 0, cf_msgsz = 0,
      cf_msgtyp = 0, cf_msgflg = 0, cf_sops = [], cf_shm_buf = 0, cf_shm_socket = 0, cf_shm_mem = 0\<rparr>"

definition initialization :: "nat \<Rightarrow> 'w ipc_state \<Rightarrow> 'w ipc_state" where
  "initialization i s =
     (let ns = \<lparr>ns_queues = [], ns_semaphores = [], ns_shms = []\<rparr>;
          pr = \<lparr>pr_pgid = pid (tracee_at s i), pr_mapped = []\<rparr>;
          c = new_config (length (st_ns s)) (length (st_procs s));
          s = s\<lparr>st_ns := st_ns s @ [ns], st_procs := st_procs s @ [pr]\<rparr>
      in s\<lparr>st_tracees := (st_tracees s)[i := (st_tracees s ! i)\<lparr>it_config := Some c\<rparr>]\<rparr>)"

definition inherit_child :: "nat \<Rightarrow> bool \<Rightarrow> nat \<Rightarrow> 'w ipc_state \<Rightarrow> 'w ipc_state" where
  "inherit_child parent clone_thread child s =
     (let pc = config_at s parent;
          (p, s) = (if clone_thread then (cf_process pc, s)
                    else
                      (let p = length (st_procs s);
                           pr = \<lparr>pr_pgid = pid (tracee_at s child), pr_mapped = []\<rparr>
                       in (p, sysvipc_shm_inherit_process (cf_process pc) p
                                (s\<lparr>st_procs := st_procs s @ [pr]\<rparr>))));
          c = new_config (cf_ns pc) p
      in s\<lparr>st_tracees := (st_tracees s)[child := (st_tracees s ! child)\<lparr>it_config := Some c\<rparr>]\<rparr>)"

end
