(* ===== verification/Ipc_Steps.thy ===== *)
theory Ipc_Steps
  imports Ipc_Machine
begin

section \<open>System V IPC: the steps of the tracees\<close>

text \<open>
  The stages in which \<open>translate_syscall\<close> (\<^verbatim>\<open>syscall/syscall.c\<close>) calls the extension, and the step
  relation of a set of tracees.  At each stop the kernel gives the registers of the tracee
  (\<open>bank\<close>).  \<open>tr_status\<close> is 0 when the next stop of the tracee is the entry of a system call.
  What the rest of PRoot does with a system call that is not one of System V IPC is reduced to the
  status \<open>tst\<close> of its translation.
\<close>

definition fetch_regs_at :: "nat \<Rightarrow> reg_bank \<Rightarrow> restart \<Rightarrow> 'w ipc_state \<Rightarrow> 'w ipc_state" where
  "fetch_regs_at i bank how =
     upd_tracee i (\<lambda>t. t\<lparr>regs := (regs t)(CURRENT := bank), restart_how := how\<rparr>)"

definition stage_status :: "int result \<Rightarrow> tracee \<Rightarrow> tracee" where
  "stage_status status t =
     (let t = (case status of
                 Inl e \<Rightarrow>
                   (poke_reg (set_sysnum t PR_void) SYSARG_RESULT (word_of_int (- errno_code e)))
                     \<lparr>tr_status := - errno_code e\<rparr>
               | Inr _ \<Rightarrow> t\<lparr>tr_status := 1\<rparr>)
      in if restart_how t = PTRACE_CONT
         then poke_reg (t\<lparr>tr_status := 0\<rparr>) STACK_POINTER (peek_reg t ORIGINAL STACK_POINTER)
         else t)"

definition enter_stage ::
  "'w ipc_env \<Rightarrow> nat \<Rightarrow> reg_bank \<Rightarrow> restart \<Rightarrow> int result \<Rightarrow> 'w ipc_state \<Rightarrow> 'w ipc_state option" where
  "enter_stage env i bank how tst s =
     (let s = fetch_regs_at i bank how s;
          s = upd_tracee i (\<lambda>t. t\<lparr>restore_original_regs := False\<rparr>) s
      in if chain_syscalls (tracee_at s i) = None then
           (case syscall_enter_start env i (upd_tracee i (\<lambda>t. save_current_regs t ORIGINAL) s) of
              None \<Rightarrow> None
            | Some (status, s) \<Rightarrow>
                (case (if status = Inr 0
                       then map_option (\<lambda>(_, s). (tst, s)) (syscall_enter_end env i (status_int tst) s)
                       else Some (status, s)) of
                   None \<Rightarrow> None
                 | Some (status, s) \<Rightarrow>
                     Some (upd_tracee i (stage_status status)
                       (upd_tracee i (\<lambda>t. save_current_regs t MODIFIED) s))))
         else
           (case syscall_chained_enter i s of
              None \<Rightarrow> None
            | Some (status, s) \<Rightarrow>
                Some (upd_tracee i (stage_status status) (set_restart_syscall i s))))"

definition exit_stage ::
  "'w ipc_env \<Rightarrow> nat \<Rightarrow> reg_bank \<Rightarrow> restart \<Rightarrow> 'w ipc_state \<Rightarrow> 'w ipc_state option" where
  "exit_stage env i bank how s =
     (let s = fetch_regs_at i bank how s;
          s = upd_tracee i (\<lambda>t. t\<lparr>restore_original_regs := True\<rparr>) s
      in case (if chain_syscalls (tracee_at s i) = None then
                 (case syscall_exit_start env i s of
                    None \<Rightarrow> None
                  | Some (Inl e, s) \<Rightarrow> Some (poke_status i (Inl e) s)
                  | Some (Inr _, s) \<Rightarrow> Some s)
               else map_option snd (syscall_chained_exit env i s)) of
           None \<Rightarrow> None
         | Some s \<Rightarrow>
             (let s = upd_tracee i (\<lambda>t. t\<lparr>tr_status := 0\<rparr>) s in
              if chain_syscalls (tracee_at s i) = None then Some s
              else map_option (\<lambda>t. upd_tracee i (\<lambda>_. t) s) (chain_next_syscall (tracee_at s i))))"

definition sigsys_stage ::
  "'w ipc_env \<Rightarrow> nat \<Rightarrow> reg_bank \<Rightarrow> restart \<Rightarrow> 'w ipc_state \<Rightarrow> 'w ipc_state option" where
  "sigsys_stage env i bank how s =
     map_option snd (sigsys_occ env i
       (upd_tracee i (\<lambda>t. t\<lparr>restore_original_regs := False\<rparr>) (fetch_regs_at i bank how s)))"

text \<open>A new tracee is put at the head of the list of tracees.\<close>

definition fork_tracee :: "nat \<Rightarrow> bool \<Rightarrow> tracee \<Rightarrow> 'w ipc_state \<Rightarrow> 'w ipc_state" where
  "fork_tracee parent clone_thread t s =
     inherit_child (Suc parent) clone_thread 0
       (s\<lparr>st_tracees := \<lparr>it_tracee = t, it_config = None\<rparr> # st_tracees s\<rparr>)"

text \<open>The end of a tracee; its process goes with the last thread that refers to it.\<close>

definition process_used :: "'w ipc_state \<Rightarrow> nat \<Rightarrow> bool" where
  "process_used s p =
     list_ex (\<lambda>t. case it_config t of None \<Rightarrow> False | Some c \<Rightarrow> cf_process c = p) (st_tracees s)"

definition remove_tracee :: "'w ipc_env \<Rightarrow> nat \<Rightarrow> 'w ipc_state \<Rightarrow> 'w ipc_state option" where
  "remove_tracee env i s =
     (let gone = config_of s i;
          s = s\<lparr>st_tracees := remove_at i (st_tracees s)\<rparr>
      in case gone of
           None \<Rightarrow> Some s
         | Some c \<Rightarrow>
             (if process_used s (cf_process c) then Some s
              else sysvipc_shm_remove_mappings_from_process env (cf_process c) s))"

definition fresh_tracee :: "tracee \<Rightarrow> bool" where
  "fresh_tracee t = (tr_status t = 0 \<and> chain_syscalls t = None)"

text \<open>
  A tracee that was made to run \<^verbatim>\<open>socket\<close> by \<open>shmat\<close> comes back with that system call: the kernel
  restarts what PRoot put in the registers.
\<close>

definition resumes_socket :: "nat \<Rightarrow> 'w ipc_state \<Rightarrow> bool" where
  "resumes_socket i s =
     (cf_chain (config_at s i) = CSTATE_SHMAT_SOCKET \<and> chain_syscalls (tracee_at s i) = None \<longrightarrow>
      get_sysnum (tracee_at s i) CURRENT = Some ''socket'')"

inductive ipc_step :: "'w ipc_env \<Rightarrow> 'w ipc_state \<Rightarrow> 'w ipc_state \<Rightarrow> bool" for env where
  enter: "config_of s i = Some c \<Longrightarrow> tr_status (tracee_at s i) = 0 \<Longrightarrow>
    resumes_socket i (upd_tracee i (\<lambda>t. save_current_regs t ORIGINAL) (fetch_regs_at i bank how s)) \<Longrightarrow>
    enter_stage env i bank how tst s = Some s' \<Longrightarrow> ipc_step env s s'"
| exit: "config_of s i = Some c \<Longrightarrow> tr_status (tracee_at s i) \<noteq> 0 \<Longrightarrow>
    exit_stage env i bank how s = Some s' \<Longrightarrow> ipc_step env s s'"
| sigsys: "config_of s i = Some c \<Longrightarrow> tr_status (tracee_at s i) = 0 \<Longrightarrow>
    chain_syscalls (tracee_at s i) = None \<Longrightarrow> cf_wait c = WSTATE_NOT_WAITING \<Longrightarrow>
    resumes_socket i (fetch_regs_at i bank how s) \<Longrightarrow> sigsys_stage env i bank how s = Some s' \<Longrightarrow> ipc_step env s s'"
| attach: "i < length (st_tracees s) \<Longrightarrow> config_of s i = None \<Longrightarrow> fresh_tracee (tracee_at s i) \<Longrightarrow>
    ipc_step env s (initialization i s)"
| fork: "config_of s parent = Some c \<Longrightarrow> fresh_tracee t \<Longrightarrow>
    ipc_step env s (fork_tracee parent clone_thread t s)"
| gone: "i < length (st_tracees s) \<Longrightarrow> remove_tracee env i s = Some s' \<Longrightarrow> ipc_step env s s'"

text \<open>PRoot begins with one tracee, without namespace or process.\<close>

inductive ipc_reachable :: "'w ipc_env \<Rightarrow> 'w ipc_state \<Rightarrow> bool" for env where
  init: "fresh_tracee t \<Longrightarrow>
    ipc_reachable env \<lparr>st_tracees = [\<lparr>it_tracee = t, it_config = None\<rparr>], st_ns = [], st_procs = [],
      st_next_map = 0, st_world = w\<rparr>"
| step: "ipc_reachable env s \<Longrightarrow> ipc_step env s s' \<Longrightarrow> ipc_reachable env s'"

inductive_cases ipc_stepE: "ipc_step env s s'"

end
