(* ===== verification/Ipc_Invariant.thy ===== *)
theory Ipc_Invariant
  imports Ipc_Steps
begin

section \<open>System V IPC: the invariant\<close>

text \<open>
  What holds of the objects and of every tracee between two stops: semaphore values are bounded,
  the counters of a queue are right, whoever waits does so for a valid object and with operations
  on existing semaphores, and the wait and chain states agree with the stage the tracee is in.
\<close>

subsection \<open>Definition\<close>

definition sem_ok :: "semaphore \<Rightarrow> bool" where
  "sem_ok x = (sm_valid x \<longrightarrow>
     1 \<le> sm_nsems x \<and> sm_nsems x \<le> SYSVIPC_MAX_NSEMS \<and> length (sm_sems x) = nat (sm_nsems x) \<and>
     (\<forall>v\<in>set (sm_sems x). uint v \<le> SYSVIPC_MAX_SEMVAL))"

definition queue_ok :: "msg_queue \<Rightarrow> bool" where
  "queue_ok q = (mq_valid q \<longrightarrow>
     mq_qnum q = of_nat (length (mq_items q)) \<and>
     mq_cbytes q = of_nat (sum_list (map (\<lambda>m. length (mi_text m)) (mq_items q))) \<and>
     (\<forall>m\<in>set (mq_items q). 1 \<le> sint (mi_type m)))"

definition ns_ok :: "ipc_ns \<Rightarrow> bool" where
  "ns_ok ns = (length (ns_semaphores ns) \<le> SYSVIPC_MAX_SEMS \<and>
     list_all sem_ok (ns_semaphores ns) \<and> list_all queue_ok (ns_queues ns))"

definition waits_ok :: "ipc_ns \<Rightarrow> ipc_config \<Rightarrow> bool" where
  "waits_ok ns c =
     ((cf_reason c = WR_WAIT_SEMOP \<longrightarrow>
        cf_index c < length (ns_semaphores ns) \<and> sm_valid (ns_semaphores ns ! cf_index c) \<and>
        (\<forall>b\<in>set (cf_sops c). unat (sem_num b) < length (sm_sems (ns_semaphores ns ! cf_index c)))) \<and>
      (cf_reason c = WR_WAIT_QUEUE_RECV \<longrightarrow>
        cf_index c < length (ns_queues ns) \<and> mq_valid (ns_queues ns ! cf_index c)) \<and>
      (cf_chain c = CSTATE_MSGRCV_RETRY \<longrightarrow> cf_index c < length (ns_queues ns)))"

text \<open>The states in which a tracee has been woken, but does not know it yet.\<close>

definition woken_ok :: "tracee \<Rightarrow> ipc_config \<Rightarrow> bool" where
  "woken_ok t c =
     (cf_reason c = WR_NOT_WAITING \<and>
      (cf_chain c \<in> {CSTATE_NOT_CHAINED, CSTATE_MSGRCV_RETRY} \<and> chain_syscalls t = None \<or>
       cf_chain c = CSTATE_SHMAT_SOCKET \<and> (\<exists>a l. chain_syscalls t = Some (a # l))))"

definition blocked_ok :: "tracee \<Rightarrow> ipc_config \<Rightarrow> bool" where
  "blocked_ok t c =
     (cf_reason c \<noteq> WR_NOT_WAITING \<and> cf_chain c = CSTATE_NOT_CHAINED \<and> chain_syscalls t = None)"

definition idle_ok :: "tracee \<Rightarrow> ipc_config \<Rightarrow> bool" where
  "idle_ok t c =
     (cf_reason c = WR_NOT_WAITING \<and>
      (cf_chain c = CSTATE_NOT_CHAINED \<or>
       cf_chain c = CSTATE_SHMAT_SOCKET \<or>
       cf_chain c \<in> {CSTATE_SHMAT_CONNECT, CSTATE_SHMAT_RECVMSG, CSTATE_SHMAT_MMAP} \<and>
       chain_syscalls t \<noteq> None))"

definition control_ok :: "tracee \<Rightarrow> ipc_config \<Rightarrow> bool" where
  "control_ok t c =
     (case cf_wait c of
        WSTATE_NOT_WAITING \<Rightarrow> idle_ok t c
      | WSTATE_ENTERED_PPOLL \<Rightarrow> blocked_ok t c \<and> tr_status t \<noteq> 0
      | WSTATE_RESTARTED_INTO_PPOLL \<Rightarrow> blocked_ok t c \<and> tr_status t = 0
      | WSTATE_SIGNALED_PPOLL \<Rightarrow> woken_ok t c \<and> tr_status t \<noteq> 0
      | WSTATE_RESTARTED_INTO_PPOLL_CANCELED \<Rightarrow> woken_ok t c \<and> tr_status t = 0
      | WSTATE_ENTERED_GETPID \<Rightarrow>
          cf_reason c = WR_NOT_WAITING \<and> cf_chain c = CSTATE_NOT_CHAINED \<and>
          chain_syscalls t = None \<and> tr_status t \<noteq> 0)"

definition tracee_ok :: "'w ipc_state \<Rightarrow> nat \<Rightarrow> bool" where
  "tracee_ok s j =
     (case config_of s j of
        None \<Rightarrow> True
      | Some c \<Rightarrow>
          cf_ns c < length (st_ns s) \<and> waits_ok (st_ns s ! cf_ns c) c \<and>
          control_ok (tracee_at s j) c)"

definition ipc_ok :: "'w ipc_state \<Rightarrow> bool" where
  "ipc_ok s = (list_all ns_ok (st_ns s) \<and> (\<forall>j<length (st_tracees s). tracee_ok s j))"

subsection \<open>Frames\<close>

lemma upd_sel [ipc_simps, simp]:
  "length (st_tracees (upd_tracee i f s)) = length (st_tracees s)"
  "length (st_tracees (upd_config i g s)) = length (st_tracees s)"
  "st_tracees (upd_ns n h s) = st_tracees s"
  "st_ns (upd_tracee i f s) = st_ns s" "st_ns (upd_config i g s) = st_ns s"
  "st_world (upd_tracee i f s) = st_world s" "st_world (upd_config i g s) = st_world s"
  "st_world (upd_ns n h s) = st_world s"
  "st_procs (upd_tracee i f s) = st_procs s" "st_procs (upd_config i g s) = st_procs s"
  "st_procs (upd_ns n h s) = st_procs s"
  "length (st_ns (upd_ns n h s)) = length (st_ns s)"
  by (simp_all add: upd_tracee_def upd_config_def upd_ns_def)

lemma config_of_upd [ipc_simps, simp]:
  "config_of (upd_tracee i f s) j = config_of s j"
  "config_of (upd_config i g s) j = (if i = j then map_option g (config_of s j) else config_of s j)"
  "config_of (upd_ns n h s) j = config_of s j"
  "config_of (s\<lparr>st_world := w\<rparr>) j = config_of s j"
  "config_of (s\<lparr>st_ns := x\<rparr>) j = config_of s j"
  "config_of (s\<lparr>st_procs := y\<rparr>) j = config_of s j"
  "config_of (s\<lparr>st_next_map := z\<rparr>) j = config_of s j"
  by (cases "i = j"; simp add: config_of_def upd_tracee_def upd_config_def upd_ns_def)+

lemma it_config_update_tracee [simp]:
  "it_tracee (l[i := (l ! i)\<lparr>it_config := c\<rparr>] ! i) = it_tracee (l ! i)"
  by (cases "i < length l") (simp_all add: linorder_not_less list_update_beyond)

lemma tracee_at_upd [ipc_simps, simp]:
  "i < length (st_tracees s) \<Longrightarrow>
     tracee_at (upd_tracee i f s) j = (if i = j then f (tracee_at s j) else tracee_at s j)"
  "tracee_at (upd_config i g s) j = tracee_at s j"
  "tracee_at (upd_ns n h s) j = tracee_at s j"
  "tracee_at (s\<lparr>st_world := w\<rparr>) j = tracee_at s j"
  "tracee_at (s\<lparr>st_ns := x\<rparr>) j = tracee_at s j"
  "tracee_at (s\<lparr>st_procs := y\<rparr>) j = tracee_at s j"
  "tracee_at (s\<lparr>st_next_map := z\<rparr>) j = tracee_at s j"
  by (cases "i = j"; simp add: tracee_at_def upd_tracee_def upd_config_def upd_ns_def)+

lemma config_of_less: "config_of s i = Some c \<Longrightarrow> i < length (st_tracees s)"
  by (simp add: config_of_def split: if_splits)

lemma tracee_ok_cong:
  assumes "config_of s' j = config_of s j" "st_ns s' = st_ns s"
    "chain_syscalls (tracee_at s' j) = chain_syscalls (tracee_at s j)"
    "tr_status (tracee_at s' j) = tr_status (tracee_at s j)"
  shows "tracee_ok s' j = tracee_ok s j"
  using assms
  by (auto simp: tracee_ok_def control_ok_def idle_ok_def woken_ok_def blocked_ok_def
      split: option.splits wait_state.splits)

text \<open>A namespace changes in a way that keeps everybody's wait meaningful.\<close>

lemma tracee_ok_upd_ns:
  assumes "tracee_ok s j"
    "\<And>c. config_of s j = Some c \<Longrightarrow> cf_ns c = n \<Longrightarrow> waits_ok (st_ns s ! n) c \<Longrightarrow>
      waits_ok (f (st_ns s ! n)) c"
  shows "tracee_ok (upd_ns n f s) j"
proof (cases "config_of s j")
  case (Some c)
  then show ?thesis
    using assms by (cases "cf_ns c = n") (auto simp: tracee_ok_def upd_ns_def)
qed (simp add: tracee_ok_def)

lemma waits_ok_sem_update:
  assumes "waits_ok ns c" "k < length (ns_semaphores ns)"
    "sm_valid (ns_semaphores ns ! k) \<Longrightarrow>
      sm_valid x \<and> length (sm_sems x) = length (sm_sems (ns_semaphores ns ! k))"
  shows "waits_ok (ns\<lparr>ns_semaphores := (ns_semaphores ns)[k := x]\<rparr>) c"
  using assms by (cases "k = cf_index c") (auto simp: waits_ok_def)

lemma waits_ok_queue_update:
  assumes "waits_ok ns c" "mq_valid (ns_queues ns ! k) \<Longrightarrow> mq_valid x"
  shows "waits_ok (ns\<lparr>ns_queues := (ns_queues ns)[k := x]\<rparr>) c"
  using assms by (cases "k = cf_index c") (auto simp: waits_ok_def)

lemma waits_ok_shms [simp]: "waits_ok (ns\<lparr>ns_shms := x\<rparr>) c = waits_ok ns c"
  by (simp add: waits_ok_def)

lemma waits_ok_append:
  "waits_ok ns c \<Longrightarrow> waits_ok (ns\<lparr>ns_semaphores := ns_semaphores ns @ l\<rparr>) c"
  "waits_ok ns c \<Longrightarrow> waits_ok (ns\<lparr>ns_queues := ns_queues ns @ q\<rparr>) c"
  by (auto simp: waits_ok_def nth_append)

subsection \<open>Handlers\<close>

text \<open>
  A handler runs for a tracee \<open>i\<close> that is at the entry of a system call.  \<open>handled i s s'\<close> says that
  the objects and the other tracees are in order afterwards, and that tracee \<open>i\<close> is either not
  waiting, or waiting for a valid object, or at the beginning of a chain.
\<close>

definition others_ok :: "nat \<Rightarrow> 'w ipc_state \<Rightarrow> bool" where
  "others_ok i s =
     (list_all ns_ok (st_ns s) \<and> (\<forall>j<length (st_tracees s). j \<noteq> i \<longrightarrow> tracee_ok s j))"

definition ready :: "nat \<Rightarrow> 'w ipc_state \<Rightarrow> ipc_config \<Rightarrow> bool" where
  "ready i s c =
     (others_ok i s \<and> config_of s i = Some c \<and> cf_ns c < length (st_ns s) \<and>
      cf_reason c = WR_NOT_WAITING \<and> cf_chain c = CSTATE_NOT_CHAINED)"

definition handled :: "nat \<Rightarrow> 'w ipc_state \<Rightarrow> 'w ipc_state \<Rightarrow> bool" where
  "handled i s s' =
     (others_ok i s' \<and> length (st_tracees s') = length (st_tracees s) \<and>
      chain_syscalls (tracee_at s' i) = chain_syscalls (tracee_at s i) \<and>
      tr_status (tracee_at s' i) = tr_status (tracee_at s i) \<and>
      (\<exists>c c'. config_of s i = Some c \<and> config_of s' i = Some c' \<and> cf_ns c' = cf_ns c \<and>
        cf_wait c' = cf_wait c \<and> cf_ns c' < length (st_ns s') \<and>
        waits_ok (st_ns s' ! cf_ns c') c' \<and>
        (cf_reason c' = WR_NOT_WAITING \<and>
           cf_chain c' \<in> {CSTATE_NOT_CHAINED, CSTATE_SINGLE, CSTATE_SHMAT_SOCKET} \<or>
         cf_reason c' \<noteq> WR_NOT_WAITING \<and> cf_chain c' = CSTATE_NOT_CHAINED)))"

lemma ready_self:
  "ready i s c \<Longrightarrow> config_at s i = c \<and> ns_at s i = st_ns s ! cf_ns c \<and> ns_ok (st_ns s ! cf_ns c) \<and>
     i < length (st_tracees s)"
  by (auto simp: ready_def config_at_def ns_at_def others_ok_def list_all_length config_of_less)

lemma ready_handled: "ready i s c \<Longrightarrow> handled i s s"
  by (auto simp: ready_def handled_def waits_ok_def)

lemma others_ok_cong:
  assumes "length (st_tracees s') = length (st_tracees s)" "st_ns s' = st_ns s"
    "\<And>j. j \<noteq> i \<Longrightarrow> config_of s' j = config_of s j \<and>
       chain_syscalls (tracee_at s' j) = chain_syscalls (tracee_at s j) \<and>
       tr_status (tracee_at s' j) = tr_status (tracee_at s j)"
  shows "others_ok i s' = others_ok i s"
  using assms tracee_ok_cong[of s' _ s] by (auto simp: others_ok_def)

lemma others_ok_upd [simp]:
  "i < length (st_tracees s) \<Longrightarrow> others_ok i (upd_tracee i f s) = others_ok i s"
  "others_ok i (upd_config i g s) = others_ok i s"
  "others_ok i (s\<lparr>st_world := w\<rparr>) = others_ok i s"
  "others_ok i (s\<lparr>st_procs := p\<rparr>) = others_ok i s"
  "others_ok i (s\<lparr>st_next_map := m\<rparr>) = others_ok i s"
  by (rule others_ok_cong; simp)+

lemma others_ok_upd_ns:
  assumes "others_ok i s" "n < length (st_ns s)" "ns_ok (f (st_ns s ! n))"
    "\<And>c. waits_ok (st_ns s ! n) c \<Longrightarrow> waits_ok (f (st_ns s ! n)) c"
  shows "others_ok i (upd_ns n f s)"
  using assms tracee_ok_upd_ns[of s _ n f]
  by (auto simp: others_ok_def upd_ns_def[of n f s, THEN arg_cong[of _ _ st_ns]] list_all_length
      nth_list_update)

lemma ready_upd_ns:
  assumes "ready i s c" "n < length (st_ns s)" "ns_ok (f (st_ns s ! n))"
    "\<And>c. waits_ok (st_ns s ! n) c \<Longrightarrow> waits_ok (f (st_ns s ! n)) c"
  shows "ready i (upd_ns n f s) c" "handled i s (upd_ns n f s)"
proof -
  show r: "ready i (upd_ns n f s) c"
    using assms others_ok_upd_ns[of i s n f] by (auto simp: ready_def)
  have "i < length (st_tracees s)" using assms(1) by (auto dest: ready_self)
  then show "handled i s (upd_ns n f s)"
    using ready_handled[OF r] by (auto simp: handled_def)
qed

lemma ready_world: "ready i s c \<Longrightarrow> ready i (s\<lparr>st_world := w\<rparr>) c"
  by (simp add: ready_def)

lemma handled_world: "handled i s s' \<Longrightarrow> handled i s (s'\<lparr>st_world := w\<rparr>)"
  by (simp add: handled_def)

lemma handled_write:
  "ready i s c \<Longrightarrow> write_status (write_mem env s i addr bs) = Some (status, s') \<Longrightarrow> handled i s s'"
  "\<exists>status s'. write_status (write_mem env s i addr bs) = Some (status, s')"
  using handled_world[OF ready_handled]
  by (auto simp: write_status_def write_mem_def split: prod.splits option.splits)

lemma lookup_Some:
  assumes "lookup_ipc_object valid gen objs arg = Some k"
  shows "k < length objs" "valid (objs ! k)"
  using assms by (auto simp: lookup_ipc_object_def Let_def split: if_splits)

lemma scan_Some:
  "scan_objects valid key oid xs i u = (Some k, u') \<Longrightarrow>
     i \<le> k \<and> k < i + length xs \<and> valid (xs ! (k - i)) \<and> key (xs ! (k - i)) = c_int oid \<and>
     oid \<noteq> IPC_PRIVATE"
  by (induction valid key oid xs i u rule: scan_objects.induct)
    (auto split: if_splits simp: Suc_diff_le nth_Cons' dest: le_imp_less_Suc)

lemma scan_None:
  "scan_objects valid key oid xs i u = (None, Some k) \<Longrightarrow>
     u = Some k \<or> (i \<le> k \<and> k < i + length xs \<and> \<not> valid (xs ! (k - i)))"
  by (induction valid key oid xs i u rule: scan_objects.induct)
    (auto split: if_splits simp: nth_Cons')

subsection \<open>The get operations\<close>

lemma sem_ok_create:
  "1 \<le> nsems \<Longrightarrow> nsems \<le> SYSVIPC_MAX_NSEMS \<Longrightarrow> sem_ok (create_semaphore key nsems x)"
  by (auto simp: sem_ok_def create_semaphore_def SYSVIPC_MAX_SEMVAL_def)

lemma queue_ok_create: "queue_ok (create_queue key q)"
  by (simp add: queue_ok_def create_queue_def)

lemma ns_ok_sem_update:
  "ns_ok ns \<Longrightarrow> sem_ok x \<Longrightarrow> ns_ok (ns\<lparr>ns_semaphores := (ns_semaphores ns)[k := x]\<rparr>)"
  by (auto simp: ns_ok_def list_all_iff dest: set_update_subset_insert[THEN subsetD])

lemma ns_ok_queue_update:
  "ns_ok ns \<Longrightarrow> queue_ok x \<Longrightarrow> ns_ok (ns\<lparr>ns_queues := (ns_queues ns)[k := x]\<rparr>)"
  by (auto simp: ns_ok_def list_all_iff dest: set_update_subset_insert[THEN subsetD])

lemma ns_ok_shms [simp]: "ns_ok (ns\<lparr>ns_shms := x\<rparr>) = ns_ok ns"
  by (simp add: ns_ok_def)

lemma ns_ok_append:
  "ns_ok ns \<Longrightarrow> length (ns_semaphores ns) < SYSVIPC_MAX_SEMS \<Longrightarrow> sem_ok x \<Longrightarrow>
     ns_ok (ns\<lparr>ns_semaphores := ns_semaphores ns @ [x]\<rparr>)"
  "ns_ok ns \<Longrightarrow> queue_ok q \<Longrightarrow> ns_ok (ns\<lparr>ns_queues := ns_queues ns @ [q]\<rparr>)"
  by (auto simp: ns_ok_def)

lemma semget_handled:
  assumes "ready i s c" "sysvipc_semget i s = Some (status, s')"
  shows "handled i s s'"
proof -
  note r = ready_self[OF assms(1)]
  have n: "cf_ns c < length (st_ns s)" using assms(1) by (simp add: ready_def)
  let ?sems = "ns_semaphores (st_ns s ! cf_ns c)"
  have create: "handled i s (upd_sem (cf_ns c) k (create_semaphore key nsems) s)"
    if "scan_objects sm_valid sm_key key ?sems 0 None = (None, Some k)" "1 \<le> nsems"
      "nsems \<le> SYSVIPC_MAX_NSEMS" for key nsems k
  proof -
    have "k < length ?sems" "\<not> sm_valid (?sems ! k)" using scan_None[OF that(1)] by auto
    then show ?thesis
      unfolding upd_sem_def using that r n
      by (intro ready_upd_ns(2)[OF assms(1)] ns_ok_sem_update sem_ok_create waits_ok_sem_update) auto
  qed
  have append: "handled i s (upd_ns (cf_ns c)
      (\<lambda>ns. ns\<lparr>ns_semaphores := ?sems @ [create_semaphore key nsems empty_semaphore]\<rparr>) s)"
    if "length ?sems < SYSVIPC_MAX_SEMS" "1 \<le> nsems" "nsems \<le> SYSVIPC_MAX_NSEMS" for key nsems
    using that r n
    by (intro ready_upd_ns(2)[OF assms(1)] ns_ok_append sem_ok_create waits_ok_append) auto
  show ?thesis
    using assms(2) ready_handled[OF assms(1)] create append r
    by (auto simp: sysvipc_semget_def Let_def linorder_not_less linorder_not_le
        split: if_splits prod.splits option.splits)
qed

lemma msgget_handled:
  assumes "ready i s c" "sysvipc_msgget i s = Some (status, s')"
  shows "handled i s s'"
proof -
  note r = ready_self[OF assms(1)]
  have n: "cf_ns c < length (st_ns s)" using assms(1) by (simp add: ready_def)
  let ?queues = "ns_queues (st_ns s ! cf_ns c)"
  have create: "handled i s (upd_queue (cf_ns c) k (create_queue key) s)"
    if "scan_objects mq_valid mq_key key ?queues 0 None = (None, Some k)" for key k
  proof -
    have "\<not> mq_valid (?queues ! k)" using scan_None[OF that(1)] by auto
    then show ?thesis
      unfolding upd_queue_def using that r n
      by (intro ready_upd_ns(2)[OF assms(1)] ns_ok_queue_update queue_ok_create
          waits_ok_queue_update) auto
  qed
  have append: "handled i s (upd_ns (cf_ns c)
      (\<lambda>ns. ns\<lparr>ns_queues := ?queues @ [create_queue key empty_queue]\<rparr>) s)" for key
    using r n by (intro ready_upd_ns(2)[OF assms(1)] ns_ok_append queue_ok_create waits_ok_append) auto
  show ?thesis
    using assms(2) ready_handled[OF assms(1)] create append r
    by (auto simp: sysvipc_msgget_def Let_def split: if_splits prod.splits option.splits)
qed

subsection \<open>Waking\<close>

definition after_wake :: "int result \<Rightarrow> ipc_config \<Rightarrow> ipc_config" where
  "after_wake status c =
     c\<lparr>cf_reason := WR_NOT_WAITING, cf_status := status,
       cf_wait := (if cf_wait c = WSTATE_ENTERED_PPOLL then WSTATE_SIGNALED_PPOLL
                   else WSTATE_RESTARTED_INTO_PPOLL_CANCELED)\<rparr>"

text \<open>Nothing but the configuration and the \<^verbatim>\<open>sigstop\<close> field of the woken tracee changes.\<close>

definition same_but :: "nat \<Rightarrow> 'w ipc_state \<Rightarrow> 'w ipc_state \<Rightarrow> bool" where
  "same_but j s s' =
     (length (st_tracees s') = length (st_tracees s) \<and> st_ns s' = st_ns s \<and>
      st_procs s' = st_procs s \<and> (\<forall>l. l \<noteq> j \<longrightarrow> config_of s' l = config_of s l) \<and>
      (\<forall>l. chain_syscalls (tracee_at s' l) = chain_syscalls (tracee_at s l) \<and>
           tr_status (tracee_at s' l) = tr_status (tracee_at s l) \<and>
           pid (tracee_at s' l) = pid (tracee_at s l) \<and>
           regs (tracee_at s' l) = regs (tracee_at s l)))"

lemma wake_tracee_eq:
  assumes "config_of s j = Some c" "cf_reason c \<noteq> WR_NOT_WAITING"
    "cf_wait c = WSTATE_ENTERED_PPOLL \<or> cf_wait c = WSTATE_RESTARTED_INTO_PPOLL"
  shows "\<exists>s'. sysvipc_wake_tracee env j status s = Some s' \<and>
    config_of s' j = Some (after_wake status c) \<and> same_but j s s'"
proof -
  have j: "j < length (st_tracees s)" using assms(1) by (rule config_of_less)
  have "config_at s j = c" using assms(1) by (simp add: config_at_def)
  then show ?thesis
    using assms j
    by (auto simp: sysvipc_wake_tracee_def Let_def same_but_def after_wake_def)
qed

lemma tracee_ok_blocked:
  assumes "tracee_ok s j" "config_of s j = Some c" "cf_reason c \<noteq> WR_NOT_WAITING"
  shows "cf_wait c = WSTATE_ENTERED_PPOLL \<or> cf_wait c = WSTATE_RESTARTED_INTO_PPOLL"
    "blocked_ok (tracee_at s j) c"
  using assms
  by (auto simp: tracee_ok_def control_ok_def idle_ok_def woken_ok_def split: wait_state.splits)

lemma control_ok_after_wake:
  assumes "control_ok t c" "cf_reason c \<noteq> WR_NOT_WAITING"
    "chain_syscalls t' = chain_syscalls t" "tr_status t' = tr_status t"
  shows "control_ok t' (after_wake status (c\<lparr>cf_sops := x\<rparr>))"
    "control_ok t' (after_wake status c)"
    "control_ok t' (after_wake status (c\<lparr>cf_chain := CSTATE_MSGRCV_RETRY\<rparr>))"
  using assms
  by (auto simp: control_ok_def after_wake_def blocked_ok_def woken_ok_def idle_ok_def
      split: wait_state.splits)

lemma waits_ok_after_wake:
  assumes "waits_ok ns c"
  shows "waits_ok ns (after_wake status c)" "waits_ok ns (after_wake status (c\<lparr>cf_sops := x\<rparr>))"
  using assms by (auto simp: waits_ok_def after_wake_def)

lemma same_but_trans: "same_but j s s' \<Longrightarrow> same_but j s' s'' \<Longrightarrow> same_but j s s''"
  by (auto simp: same_but_def)

lemma same_but_upd_config [simp]: "same_but j s (upd_config j g s)"
  by (simp add: same_but_def)

lemma same_but_tracee_ok:
  "same_but j s s' \<Longrightarrow> l \<noteq> j \<Longrightarrow> tracee_ok s' l = tracee_ok s l"
  by (rule tracee_ok_cong) (auto simp: same_but_def)

text \<open>A loop over the tracees keeps what every visit keeps, and each visit leaves its mark.\<close>

lemma foreach_tracee_each:
  assumes "P s"
    and visit: "\<And>j s. P s \<Longrightarrow> j \<in> set js \<Longrightarrow> in_namespace s n j \<Longrightarrow>
      \<exists>s'. f j s = Some s' \<and> P s' \<and> Q j s' \<and> (\<forall>l. Q l s \<longrightarrow> Q l s')"
    and skip: "\<And>j s. P s \<Longrightarrow> j \<in> set js \<Longrightarrow> \<not> in_namespace s n j \<Longrightarrow> Q j s"
  shows "\<exists>s'. foreach_tracee n f js s = Some s' \<and> P s' \<and> (\<forall>j\<in>set js. Q j s') \<and>
    (\<forall>l. Q l s \<longrightarrow> Q l s')"
  using assms
proof (induction js arbitrary: s)
  case (Cons j js)
  have IH: "\<exists>s'. foreach_tracee n f js u = Some s' \<and> P s' \<and> (\<forall>j\<in>set js. Q j s') \<and>
    (\<forall>l. Q l u \<longrightarrow> Q l s')" if "P u" for u
    by (rule Cons.IH[OF that]) (use Cons.prems(2,3) in simp_all)
  show ?case
  proof (cases "in_namespace s n j")
    case True
    obtain s1 where s1: "f j s = Some s1" "P s1" "Q j s1" "\<forall>l. Q l s \<longrightarrow> Q l s1"
      using Cons.prems(2)[OF Cons.prems(1) _ True] by auto
    obtain s2 where "foreach_tracee n f js s1 = Some s2" "P s2" "\<forall>j\<in>set js. Q j s2"
      "\<forall>l. Q l s1 \<longrightarrow> Q l s2"
      using IH[OF s1(2)] by blast
    then show ?thesis using True s1 by auto
  next
    case False
    then have "Q j s" using Cons.prems by auto
    obtain s2 where "foreach_tracee n f js s = Some s2" "P s2" "\<forall>j\<in>set js. Q j s2"
      "\<forall>l. Q l s \<longrightarrow> Q l s2"
      using IH[OF Cons.prems(1)] by blast
    then show ?thesis using False \<open>Q j s\<close> by auto
  qed
qed simp

lemma foreach_tracee_inv:
  assumes "P s"
    "\<And>j s. P s \<Longrightarrow> j \<in> set js \<Longrightarrow> in_namespace s n j \<Longrightarrow> \<exists>s'. f j s = Some s' \<and> P s'"
  shows "\<exists>s'. foreach_tracee n f js s = Some s' \<and> P s'"
  using foreach_tracee_each[of P s js n f "\<lambda>_ _. True"] assms by auto

lemma in_namespaceD:
  "in_namespace s n j \<Longrightarrow> \<exists>c. config_of s j = Some c \<and> cf_ns c = n"
  by (auto simp: in_namespace_def split: option.splits)

end
