(* ===== verification/Ipc_Handlers.thy ===== *)
theory Ipc_Handlers
  imports Ipc_Invariant
begin

section \<open>System V IPC: the handlers keep the invariant\<close>

text \<open>
  The handlers that loop over the tracees never fail an assertion of \<open>sysvipc_wake_tracee\<close> or
  \<open>sysvipc_sem_check\<close>, and leave the objects and the other tracees in order.
\<close>

subsection \<open>Semaphore operations\<close>

lemma sem_check_loop_length: "sem_check_loop sops v = (r, v') \<Longrightarrow> length v' = length v"
  by (induction sops v rule: sem_check_loop.induct) (auto simp: Let_def split: if_splits)

lemma uint_semval:
  "0 \<le> z \<Longrightarrow> z \<le> SYSVIPC_MAX_SEMVAL \<Longrightarrow> uint (word_of_int z :: 16 word) = z"
  by (simp add: uint_word_of_int_eq take_bit_int_eq_self SYSVIPC_MAX_SEMVAL_def)

lemma sem_check_loop_bounds:
  assumes "sem_check_loop sops v = (r, v')" "\<forall>x\<in>set v. uint x \<le> SYSVIPC_MAX_SEMVAL"
  shows "\<forall>x\<in>set v'. uint x \<le> SYSVIPC_MAX_SEMVAL"
  using assms
proof (induction sops v rule: sem_check_loop.induct)
  case (2 b sops v)
  let ?new = "uint (v ! unat (sem_num b)) + sint (sem_op b)"
  have "\<forall>x\<in>set (v[unat (sem_num b) := word_of_int ?new]). uint x \<le> SYSVIPC_MAX_SEMVAL"
    if "0 \<le> ?new" "?new \<le> SYSVIPC_MAX_SEMVAL"
  proof -
    note u = uint_semval[OF that]
    show ?thesis
    proof
      fix x assume "x \<in> set (v[unat (sem_num b) := word_of_int ?new])"
      then consider "x = word_of_int ?new" | "x \<in> set v"
        by (auto dest!: set_update_subset_insert[THEN subsetD])
      then show "uint x \<le> SYSVIPC_MAX_SEMVAL" using u that(2) 2(4) by cases metis+
    qed
  qed
  then show ?case using 2 by (auto simp: Let_def split: if_splits)
qed auto

text \<open>What a look at semaphore set \<open>k\<close> may change.\<close>

definition sem_frame :: "nat \<Rightarrow> nat \<Rightarrow> 'w ipc_state \<Rightarrow> 'w ipc_state \<Rightarrow> bool" where
  "sem_frame n k s s' =
     (s' = s \<or> (\<exists>v. s' = upd_sem n k (\<lambda>x. x\<lparr>sm_sems := v\<rparr>) s \<and>
        length v = length (sm_sems (ns_semaphores (st_ns s ! n) ! k)) \<and>
        (\<forall>x\<in>set v. uint x \<le> SYSVIPC_MAX_SEMVAL)))"

lemma sem_check_frame:
  assumes "sysvipc_sem_check n k j s = Some (r, s')"
    "\<forall>x\<in>set (sm_sems (ns_semaphores (st_ns s ! n) ! k)). uint x \<le> SYSVIPC_MAX_SEMVAL"
  shows "sem_frame n k s s'"
proof (cases "sem_check_loop (cf_sops (config_at s j)) (sm_sems (ns_semaphores (st_ns s ! n) ! k))")
  case (Pair res v)
  then show ?thesis
    using assms(1) sem_check_loop_length[OF Pair] sem_check_loop_bounds[OF Pair assms(2)]
    by (auto simp: sysvipc_sem_check_def sem_frame_def split: if_splits sum.splits)
qed

lemma sem_check_Some:
  assumes "config_of s j = Some c" "cf_reason c = WR_WAIT_SEMOP"
  shows "\<exists>r s'. sysvipc_sem_check n k j s = Some (r, s')"
  using assms by (auto simp: sysvipc_sem_check_def config_at_def split: prod.splits sum.splits)

definition sem_at :: "'w ipc_state \<Rightarrow> nat \<Rightarrow> nat \<Rightarrow> semaphore" where
  "sem_at s n k = ns_semaphores (st_ns s ! n) ! k"

definition sem_present :: "nat \<Rightarrow> nat \<Rightarrow> 'w ipc_state \<Rightarrow> bool" where
  "sem_present n k s =
     (n < length (st_ns s) \<and> k < length (ns_semaphores (st_ns s ! n)) \<and> sm_valid (sem_at s n k))"

lemma sem_present_bounds:
  assumes "others_ok i s" "sem_present n k s"
  shows "sem_ok (sem_at s n k)" "\<forall>x\<in>set (sm_sems (sem_at s n k)). uint x \<le> SYSVIPC_MAX_SEMVAL"
    "length (sm_sems (sem_at s n k)) = nat (sm_nsems (sem_at s n k))"
  using assms
  by (auto simp: others_ok_def sem_present_def ns_ok_def list_all_length sem_at_def sem_ok_def)

lemma sem_frame_facts:
  assumes "sem_frame n k s s'" "others_ok i s" "sem_present n k s"
  shows "others_ok i s'" "sem_present n k s'" "config_of s' = config_of s" "tracee_at s' = tracee_at s"
    "length (st_tracees s') = length (st_tracees s)" "st_procs s' = st_procs s"
    "length (sm_sems (sem_at s' n k)) = length (sm_sems (sem_at s n k))"
    "length (st_ns s') = length (st_ns s)"
    "\<And>c. waits_ok (st_ns s ! n) c \<Longrightarrow> waits_ok (st_ns s' ! n) c"
proof -
  note b = sem_present_bounds[OF assms(2,3)]
  have p: "n < length (st_ns s)" "k < length (ns_semaphores (st_ns s ! n))" "sm_valid (sem_at s n k)"
    using assms(3) by (auto simp: sem_present_def)
  have "others_ok i (upd_sem n k (\<lambda>x. x\<lparr>sm_sems := v\<rparr>) s)"
    if "length v = length (sm_sems (sem_at s n k))" "\<forall>x\<in>set v. uint x \<le> SYSVIPC_MAX_SEMVAL" for v
  proof -
    have "sem_ok ((sem_at s n k)\<lparr>sm_sems := v\<rparr>)" using b(1) that by (auto simp: sem_ok_def)
    moreover have "ns_ok (st_ns s ! n)" using assms(2) p(1) by (simp add: others_ok_def list_all_length)
    ultimately show ?thesis
      unfolding upd_sem_def using p that
      by (intro others_ok_upd_ns assms(2) ns_ok_sem_update waits_ok_sem_update)
        (auto simp: sem_at_def)
  qed
  then show "others_ok i s'" using assms(1,2) by (auto simp: sem_frame_def sem_at_def)
  show "sem_present n k s'" "config_of s' = config_of s" "tracee_at s' = tracee_at s"
    "length (st_tracees s') = length (st_tracees s)" "st_procs s' = st_procs s"
    "length (sm_sems (sem_at s' n k)) = length (sm_sems (sem_at s n k))"
    "length (st_ns s') = length (st_ns s)"
    using assms(1) p
    by (auto simp: sem_frame_def sem_present_def sem_at_def upd_sem_def upd_ns_def config_of_def
        tracee_at_def fun_eq_iff)
  show "waits_ok (st_ns s' ! n) c" if "waits_ok (st_ns s ! n) c" for c
    using assms(1) p that
    by (auto simp: sem_frame_def upd_sem_def upd_ns_def sem_at_def intro!: waits_ok_sem_update)
qed

text \<open>The state in the middle of a handler of tracee \<open>i\<close>, whose configuration is \<open>ci\<close>.\<close>

definition mid :: "nat \<Rightarrow> ipc_config \<Rightarrow> 'w ipc_state \<Rightarrow> 'w ipc_state \<Rightarrow> bool" where
  "mid i ci s0 s =
     (others_ok i s \<and> config_of s i = Some ci \<and> length (st_tracees s) = length (st_tracees s0) \<and>
      length (st_ns s) = length (st_ns s0) \<and>
      chain_syscalls (tracee_at s i) = chain_syscalls (tracee_at s0 i) \<and>
      tr_status (tracee_at s i) = tr_status (tracee_at s0 i))"

lemma wake_other:
  assumes m: "mid i ci s0 s" and j: "j < length (st_tracees s)" "j \<noteq> i" "config_of s j = Some c"
    "cf_reason c \<noteq> WR_NOT_WAITING"
    and g: "g = id \<or> g = (\<lambda>c. c\<lparr>cf_sops := []\<rparr>) \<or>
      g = (\<lambda>c. c\<lparr>cf_chain := CSTATE_MSGRCV_RETRY\<rparr>) \<and> cf_index c < length (ns_queues (st_ns s ! cf_ns c))"
  shows "\<exists>s'. sysvipc_wake_tracee env j status (upd_config j g s) = Some s' \<and> mid i ci s0 s' \<and>
    st_ns s' = st_ns s \<and> config_of s' j = Some (after_wake status (g c)) \<and> same_but j s s'"
proof -
  have ok: "tracee_ok s j" using m j by (simp add: mid_def others_ok_def)
  note b = tracee_ok_blocked[OF ok j(3,4)]
  have gc: "cf_reason (g c) = cf_reason c" "cf_wait (g c) = cf_wait c" "cf_ns (g c) = cf_ns c"
    using g by auto
  have gj: "config_of (upd_config j g s) j = Some (g c)" using j by simp
  obtain s' where s': "sysvipc_wake_tracee env j status (upd_config j g s) = Some s'"
    "config_of s' j = Some (after_wake status (g c))" "same_but j (upd_config j g s) s'"
    using wake_tracee_eq[OF gj, of env status] b gc j(4) by auto
  have sb: "same_but j s s'" using same_but_trans[OF same_but_upd_config s'(3)] .
  have c: "cf_ns c < length (st_ns s)" "waits_ok (st_ns s ! cf_ns c) c" "control_ok (tracee_at s j) c"
    using ok j(3) by (auto simp: tracee_ok_def)
  have w: "waits_ok (st_ns s ! cf_ns c) (after_wake status (g c))"
    using g c(2) by (auto simp: waits_ok_def after_wake_def)
  have t: "chain_syscalls (tracee_at s' j) = chain_syscalls (tracee_at s j)"
    "tr_status (tracee_at s' j) = tr_status (tracee_at s j)"
    using sb by (auto simp: same_but_def)
  have "control_ok (tracee_at s' j) (after_wake status (g c))"
    using g control_ok_after_wake[OF c(3) j(4) t] by auto
  then have okj: "tracee_ok s' j"
    using s'(2) c(1) w sb gc by (simp add: tracee_ok_def same_but_def after_wake_def)
  have "tracee_ok s' l" if "l < length (st_tracees s)" "l \<noteq> i" for l
    using m okj same_but_tracee_ok[OF sb, of l] that by (cases "l = j") (auto simp: mid_def others_ok_def)
  then have "others_ok i s'"
    using m sb by (auto simp: mid_def others_ok_def same_but_def)
  then have "mid i ci s0 s'" using m sb j(2) by (auto simp: mid_def same_but_def)
  then show ?thesis using s' sb by (auto simp: same_but_def)
qed

lemma mid_sem_frame:
  "mid i ci s0 s \<Longrightarrow> sem_frame n k s s' \<Longrightarrow> sem_present n k s \<Longrightarrow> mid i ci s0 s'"
  using sem_frame_facts[of n k s s' i] by (auto simp: mid_def)

lemma semop_visit_ok:
  assumes m: "mid i ci s0 s" and p: "sem_present n k s" and j: "in_namespace s n j"
  shows "\<exists>s'. semop_visit env i n k j s = Some s' \<and> mid i ci s0 s' \<and> sem_present n k s' \<and>
    length (sm_sems (sem_at s' n k)) = length (sm_sems (sem_at s n k)) \<and>
    (\<forall>c. waits_ok (st_ns s ! n) c \<longrightarrow> waits_ok (st_ns s' ! n) c)"
proof (cases "j \<noteq> i \<and> cf_reason (config_at s j) = WR_WAIT_SEMOP \<and> cf_index (config_at s j) = k")
  case True
  obtain c where c: "config_of s j = Some c" "cf_ns c = n" using in_namespaceD[OF j] by auto
  have cr: "cf_reason c = WR_WAIT_SEMOP" using True c by (simp add: config_at_def)
  obtain r s1 where r: "sysvipc_sem_check n k j s = Some (r, s1)" using sem_check_Some[OF c(1) cr] by blast
  have o: "others_ok i s" using m by (simp add: mid_def)
  have fr: "sem_frame n k s s1"
    using sem_check_frame[OF r] sem_present_bounds(2)[OF o p] by (simp add: sem_at_def)
  note f = sem_frame_facts[OF fr o p]
  note m1 = mid_sem_frame[OF m fr p]
  show ?thesis
  proof (cases "r = Inr 1")
    case True': True
    then show ?thesis using True r f m1 by (auto simp: semop_visit_def)
  next
    case False
    have "j < length (st_tracees s1)" using config_of_less[OF c(1)] f by simp
    then obtain s2 where s2: "sysvipc_wake_tracee env j r (upd_config j (\<lambda>c. c\<lparr>cf_sops := []\<rparr>) s1) = Some s2"
      "mid i ci s0 s2" "st_ns s2 = st_ns s1"
      using wake_other[OF m1, of j c "\<lambda>c. c\<lparr>cf_sops := []\<rparr>" env r] True c cr f(3) by auto
    then show ?thesis
      using True False r f by (auto simp: semop_visit_def free_sops_def sem_present_def sem_at_def)
  qed
qed (use assms in \<open>auto simp: semop_visit_def\<close>)

lemma semop_handled:
  assumes rd: "ready i s c"
  shows "\<exists>status s'. sysvipc_semop env i s = Some (status, s') \<and> handled i s s'"
proof -
  note r = ready_self[OF rd]
  let ?n = "cf_ns c"
  let ?sems = "ns_semaphores (st_ns s ! ?n)"
  have n: "?n < length (st_ns s)" using rd by (simp add: ready_def)
  note same = ready_handled[OF rd]
  show ?thesis
  proof (cases "lookup_ipc_object sm_valid sm_generation ?sems (sysarg s i SYSARG_1)")
    case None
    then show ?thesis using same r by (auto simp: sysvipc_semop_def Let_def)
  next
    case (Some k)
    note k = lookup_Some[OF Some]
    show ?thesis
    proof (cases "\<exists>sops. \<not> SYSVIPC_MAX_NSOPS < sysarg s i SYSARG_3 \<and> sysarg s i SYSARG_3 \<noteq> 0 \<and>
        map_sum id sembufs_of (read_mem env s i (sysarg s i SYSARG_2) (6 * unat (sysarg s i SYSARG_3))) =
          Inr sops \<and> (\<forall>b\<in>set sops. \<not> sm_nsems (?sems ! k) \<le> uint (sem_num b))")
      case False
      then show ?thesis
        using Some same r
        by (auto simp: sysvipc_semop_def Let_def split: sum.splits)
    next
      case True
      then obtain bytes where a: "\<not> SYSVIPC_MAX_NSOPS < sysarg s i SYSARG_3" "sysarg s i SYSARG_3 \<noteq> 0"
        "read_mem env s i (sysarg s i SYSARG_2) (6 * unat (sysarg s i SYSARG_3)) = Inr bytes"
        "\<forall>b\<in>set (sembufs_of bytes). \<not> sm_nsems (?sems ! k) \<le> uint (sem_num b)"
        by (cases "read_mem env s i (sysarg s i SYSARG_2) (6 * unat (sysarg s i SYSARG_3))") auto
      let ?g = "\<lambda>c. c\<lparr>cf_reason := WR_WAIT_SEMOP, cf_index := k, cf_sops := sembufs_of bytes\<rparr>"
      let ?s = "upd_config i ?g s"
      have m: "mid i (?g c) s ?s" using rd by (simp add: mid_def ready_def)
      have p: "sem_present ?n k ?s" using k n by (simp add: sem_present_def sem_at_def)
      have o: "others_ok i ?s" using m by (simp add: mid_def)
      obtain this_status s1 where s1: "sysvipc_sem_check ?n k i ?s = Some (this_status, s1)"
        using sem_check_Some[of ?s i "?g c" ?n k] m by (auto simp: mid_def)
      have fr: "sem_frame ?n k ?s s1"
        using sem_check_frame[OF s1] sem_present_bounds(2)[OF o p] by (simp add: sem_at_def)
      note f = sem_frame_facts[OF fr o p]
      let ?L = "length (sm_sems (sem_at ?s ?n k))"
      let ?P = "\<lambda>u. mid i (?g c) s u \<and> sem_present ?n k u \<and> length (sm_sems (sem_at u ?n k)) = ?L"
      have "?P s1" using mid_sem_frame[OF m fr p] f by simp
      then obtain s2 where s2: "foreach_tracee ?n (semop_visit env i ?n k) (all_tracees s1) s1 = Some s2"
        "?P s2"
        using foreach_tracee_inv[of ?P s1 "all_tracees s1" ?n "semop_visit env i ?n k"]
          semop_visit_ok[of i "?g c" s _ ?n k] by metis
      have L: "?L = nat (sm_nsems (?sems ! k))"
        using sem_present_bounds(3)[OF o p] by (simp add: sem_at_def)
      have "\<forall>b\<in>set (sembufs_of bytes). unat (sem_num b) < ?L"
        using a(4) L
        by (auto simp: linorder_not_le simp flip: nat_uint_eq intro: le_less_trans[OF unsigned_greater_eq])
      then have w: "waits_ok (st_ns s2 ! ?n) (?g c)"
        using s2(2) rd by (auto simp: waits_ok_def sem_present_def sem_at_def ready_def)
      have cr: "cf_reason (config_at s2 i) = WR_WAIT_SEMOP"
        using s2(2) by (simp add: mid_def config_at_def)
      have i: "i < length (st_tracees s2)" using s2(2) r by (simp add: mid_def)
      have h1: "handled i s s2"
        using s2(2) w rd n by (auto simp: handled_def mid_def ready_def)
      have h2: "handled i s (upd_config i (\<lambda>c. c\<lparr>cf_reason := WR_NOT_WAITING, cf_sops := []\<rparr>) s2)"
        using s2(2) rd n by (auto simp: handled_def mid_def ready_def waits_ok_def)
      have nf: "\<not> (\<exists>b\<in>set (sembufs_of bytes). sm_nsems (?sems ! k) \<le> uint (sem_num b))"
        using a(4) by blast
      show ?thesis
        using Some a(1-3) nf s1 s2(1) cr h1 h2 r
        by (cases "this_status = Inr 1")
          (auto simp: sysvipc_semop_def Let_def)
    qed
  qed
qed

end
