(* ===== verification/Ipc_Control.thy ===== *)
theory Ipc_Control
  imports Ipc_Handlers
begin

section \<open>System V IPC: control operations and messages keep the invariant\<close>

text \<open>
  Removing an object wakes everyone who waits for it, so nobody waits for an object that is not
  valid; sending wakes at most one receiver.
\<close>

subsection \<open>Removal\<close>

definition waits_on :: "wait_reason \<Rightarrow> nat \<Rightarrow> nat \<Rightarrow> 'w ipc_state \<Rightarrow> nat \<Rightarrow> bool" where
  "waits_on wr n k s j =
     (in_namespace s n j \<and> cf_reason (config_at s j) = wr \<and> cf_index (config_at s j) = k)"

text \<open>The two loops of \<^verbatim>\<open>IPC_RMID\<close>, of semaphores and of queues, have the same body.\<close>

definition rmid_visit ::
  "'w ipc_env \<Rightarrow> wait_reason \<Rightarrow> nat \<Rightarrow> nat \<Rightarrow> 'w ipc_state \<Rightarrow> 'w ipc_state option" where
  "rmid_visit env wr k j u =
     (if cf_reason (config_at u j) = wr \<and> cf_index (config_at u j) = k
      then sysvipc_wake_tracee env j (Inl EIDRM) u else Some u)"

lemma rmid_visits:
  "semctl_rmid_visit env k = rmid_visit env WR_WAIT_SEMOP k"
  "msgctl_rmid_visit env k = rmid_visit env WR_WAIT_QUEUE_RECV k"
  by (simp_all add: fun_eq_iff semctl_rmid_visit_def msgctl_rmid_visit_def rmid_visit_def)

lemma rmid_loop:
  assumes m: "mid i ci s s" "cf_reason ci = WR_NOT_WAITING" "wr \<noteq> WR_NOT_WAITING"
  shows "\<exists>s'. foreach_tracee n (rmid_visit env wr k) (all_tracees s) s = Some s' \<and> mid i ci s s' \<and>
    st_ns s' = st_ns s \<and> (\<forall>j. \<not> waits_on wr n k s' j) \<and>
    (\<forall>j. waits_on wr n k s j \<longrightarrow> j < length (st_tracees s) \<longrightarrow>
       cf_reason (config_at s' j) = WR_NOT_WAITING \<and> cf_status (config_at s' j) = Inl EIDRM)"
proof -
  let ?visit = "rmid_visit env wr k"
  let ?P = "\<lambda>u. mid i ci s u \<and> st_ns u = st_ns s \<and>
    (\<forall>j. waits_on wr n k s j \<longrightarrow> waits_on wr n k u j \<or>
       cf_reason (config_at u j) = WR_NOT_WAITING \<and> cf_status (config_at u j) = Inl EIDRM)"
  let ?Q = "\<lambda>j u. \<not> waits_on wr n k u j"
  have step: "\<exists>u'. ?visit j u = Some u' \<and> ?P u' \<and> ?Q j u' \<and> (\<forall>l. ?Q l u \<longrightarrow> ?Q l u')"
    if P: "?P u" and j: "j \<in> set (all_tracees s)" "in_namespace u n j" for j u
  proof (cases "cf_reason (config_at u j) = wr \<and> cf_index (config_at u j) = k")
    case True
    obtain c where c: "config_of u j = Some c" "cf_ns c = n" using in_namespaceD[OF j(2)] by auto
    have cr: "cf_reason c = wr" "cf_index c = k" using True c by (auto simp: config_at_def)
    have ji: "j \<noteq> i" using P c cr m(2,3) by (auto simp: mid_def)
    have jl: "j < length (st_tracees u)" using c(1) by (rule config_of_less)
    have mu: "mid i ci s u" using P by simp
    have g: "upd_config j id u = u"
      by (simp add: upd_config_def config_of_def jl option.map_id list_update_same_conv
          list_update_id)
    obtain u' where u': "sysvipc_wake_tracee env j (Inl EIDRM) u = Some u'" "mid i ci s u'"
      "st_ns u' = st_ns u" "config_of u' j = Some (after_wake (Inl EIDRM) c)" "same_but j u u'"
      using wake_other[OF mu jl ji c(1), of id env "Inl EIDRM"] cr m(3) g by auto
    have aw: "config_at u' j = after_wake (Inl EIDRM) c" "\<not> waits_on wr n k u' j"
      using u'(4) m(3) by (simp_all add: config_at_def waits_on_def after_wake_def)
    have other: "waits_on wr n k u' l = waits_on wr n k u l \<and> config_at u' l = config_at u l"
      if "l \<noteq> j" for l
      using u'(5) that by (simp add: same_but_def waits_on_def in_namespace_def config_at_def)
    have v: "?visit j u = Some u'" using True u'(1) by (simp add: rmid_visit_def)
    have "waits_on wr n k u' l \<or>
        cf_reason (config_at u' l) = WR_NOT_WAITING \<and> cf_status (config_at u' l) = Inl EIDRM"
      if "waits_on wr n k s l" for l
    proof (cases "l = j")
      case True
      then show ?thesis using aw(1) by (simp add: after_wake_def)
    next
      case False
      then show ?thesis using other[OF False] P that by simp
    qed
    then have "?P u'" using P u'(2,3) by simp
    moreover have "\<forall>l. ?Q l u \<longrightarrow> ?Q l u'" using aw(2) other by metis
    ultimately show ?thesis using v aw(2) by blast
  next
    case False
    then show ?thesis using P by (auto simp: rmid_visit_def waits_on_def)
  qed
  have P0: "?P s" using m by (auto simp: mid_def)
  obtain s' where s': "foreach_tracee n ?visit (all_tracees s) s = Some s'" "?P s'"
    "\<forall>j\<in>set (all_tracees s). ?Q j s'"
    using foreach_tracee_each[of ?P s "all_tracees s" n ?visit ?Q, OF P0 step]
    by (auto simp: waits_on_def)
  have "\<not> waits_on wr n k s' j" for j
  proof (cases "j < length (st_tracees s)")
    case True
    then show ?thesis using s'(3) by (simp add: all_tracees_def)
  next
    case False
    then have "config_of s' j = None" using s'(2) by (simp add: mid_def config_of_def)
    then show ?thesis by (simp add: waits_on_def in_namespace_def)
  qed
  then show ?thesis using s' by blast
qed

text \<open>An object nobody waits for may become invalid.\<close>

lemma others_ok_remove:
  assumes "others_ok i s" "n < length (st_ns s)" "ns_ok (f (st_ns s ! n))"
    "\<And>j c. config_of s j = Some c \<Longrightarrow> cf_ns c = n \<Longrightarrow> waits_ok (st_ns s ! n) c \<Longrightarrow>
      waits_ok (f (st_ns s ! n)) c"
  shows "others_ok i (upd_ns n f s)"
  using assms tracee_ok_upd_ns[of s _ n f]
  by (auto simp: others_ok_def upd_ns_def[of n f s, THEN arg_cong[of _ _ st_ns]] list_all_length
      nth_list_update)

lemma ready_mid: "ready i s c \<Longrightarrow> mid i c s s"
  by (simp add: ready_def mid_def)

lemma handled_removed:
  assumes "ready i s c" "mid i c s s'" "st_ns s' = st_ns s" "others_ok i (upd_ns n f s')"
  shows "handled i s (upd_ns n f s')"
  using assms by (auto simp: handled_def ready_def mid_def waits_ok_def)

lemma handled_write_ex:
  assumes "ready i s c"
  shows "\<exists>status s'. write_status (write_mem env s i addr bs) = Some (status, s') \<and> handled i s s'"
  using handled_write(1)[OF assms, of env addr bs] handled_write(2)[of env s i addr bs] by blast

lemma semctl_handled:
  assumes rd: "ready i s c"
  shows "\<exists>status s'. sysvipc_semctl env i s = Some (status, s') \<and> handled i s s'"
proof -
  note r = ready_self[OF rd]
  let ?n = "cf_ns c"
  let ?sems = "ns_semaphores (st_ns s ! ?n)"
  have n: "?n < length (st_ns s)" using rd by (simp add: ready_def)
  note same = ready_handled[OF rd]
  show ?thesis
  proof (cases "lookup_ipc_object sm_valid sm_generation ?sems (sysarg s i SYSARG_1)")
    case None
    then show ?thesis using same r by (auto simp: sysvipc_semctl_def Let_def)
  next
    case (Some k)
    note k = lookup_Some[OF Some]
    have o: "others_ok i s" using rd by (simp add: ready_def)
    have p: "sem_present ?n k s" using k n by (simp add: sem_present_def sem_at_def)
    note b = sem_present_bounds[OF o p]
    have setval: "handled i s (upd_sem ?n k (\<lambda>x. x\<lparr>sm_sems := (sm_sems x)[m := v]\<rparr>) s)"
      if "uint v \<le> SYSVIPC_MAX_SEMVAL" for m v
    proof -
      have "\<forall>x\<in>set ((sm_sems (sem_at s ?n k))[m := v]). uint x \<le> SYSVIPC_MAX_SEMVAL"
        using b(2) that by (auto dest!: set_update_subset_insert[THEN subsetD])
      then have "sem_ok ((sem_at s ?n k)\<lparr>sm_sems := (sm_sems (sem_at s ?n k))[m := v]\<rparr>)"
        using b(1) by (auto simp: sem_ok_def)
      then show ?thesis
        unfolding upd_sem_def using k n r
        by (intro ready_upd_ns(2)[OF rd] ns_ok_sem_update waits_ok_sem_update) (auto simp: sem_at_def)
    qed
    have trunc: "uint (ucast v :: 16 word) \<le> SYSVIPC_MAX_SEMVAL"
      if "uint v \<le> SYSVIPC_MAX_SEMVAL" for v :: word_t
    proof -
      have "uint (ucast v :: 16 word) \<le> uint v"
        by (simp add: unsigned_ucast_eq take_bit_int_less_eq_self_iff)
      then show ?thesis using that by simp
    qed
    obtain s1 where s1: "foreach_tracee ?n (semctl_rmid_visit env k) (all_tracees s) s = Some s1"
      "mid i c s s1" "st_ns s1 = st_ns s" "\<forall>j. \<not> waits_on WR_WAIT_SEMOP ?n k s1 j"
      using rmid_loop[OF ready_mid[OF rd], of WR_WAIT_SEMOP ?n env k] rd
      by (auto simp: rmid_visits ready_def)
    have "others_ok i (upd_sem ?n k invalidate_semaphore s1)"
      unfolding upd_sem_def
    proof (rule others_ok_remove)
      show "others_ok i s1" using s1(2) by (simp add: mid_def)
      show "?n < length (st_ns s1)" using n s1(3) by simp
      show "ns_ok ((st_ns s1 ! ?n)\<lparr>ns_semaphores := (ns_semaphores (st_ns s1 ! ?n))
          [k := invalidate_semaphore (ns_semaphores (st_ns s1 ! ?n) ! k)]\<rparr>)"
        using r s1(3) by (intro ns_ok_sem_update) (auto simp: sem_ok_def invalidate_semaphore_def)
      fix j cj
      assume j: "config_of s1 j = Some cj" "cf_ns cj = ?n" "waits_ok (st_ns s1 ! ?n) cj"
      then have "cf_reason cj \<noteq> WR_WAIT_SEMOP \<or> cf_index cj \<noteq> k"
        using s1(4)[rule_format, of j] by (auto simp: waits_on_def in_namespace_def config_at_def)
      then show "waits_ok ((st_ns s1 ! ?n)\<lparr>ns_semaphores := (ns_semaphores (st_ns s1 ! ?n))
          [k := invalidate_semaphore (ns_semaphores (st_ns s1 ! ?n) ! k)]\<rparr>) cj"
        using j(3) by (auto simp: waits_ok_def nth_list_update)
    qed
    then have rm: "handled i s (upd_sem ?n k invalidate_semaphore s1)"
      using handled_removed[OF rd s1(2,3)] unfolding upd_sem_def by blast
    show ?thesis
      using Some same r setval trunc s1(1) rm handled_write_ex[OF rd, of env]
      by (auto simp: sysvipc_semctl_def Let_def linorder_not_less linorder_not_le)
  qed
qed

lemma msgctl_handled:
  assumes rd: "ready i s c"
  shows "\<exists>status s'. sysvipc_msgctl env i s = Some (status, s') \<and> handled i s s'"
proof -
  note r = ready_self[OF rd]
  let ?n = "cf_ns c"
  let ?queues = "ns_queues (st_ns s ! ?n)"
  have n: "?n < length (st_ns s)" using rd by (simp add: ready_def)
  note same = ready_handled[OF rd]
  show ?thesis
  proof (cases "lookup_ipc_object mq_valid mq_generation ?queues (sysarg s i SYSARG_1)")
    case None
    then show ?thesis using same r by (auto simp: sysvipc_msgctl_def Let_def)
  next
    case (Some k)
    note k = lookup_Some[OF Some]
    obtain s1 where s1: "foreach_tracee ?n (msgctl_rmid_visit env k) (all_tracees s) s = Some s1"
      "mid i c s s1" "st_ns s1 = st_ns s" "\<forall>j. \<not> waits_on WR_WAIT_QUEUE_RECV ?n k s1 j"
      using rmid_loop[OF ready_mid[OF rd], of WR_WAIT_QUEUE_RECV ?n env k] rd
      by (auto simp: rmid_visits ready_def)
    have "others_ok i (upd_queue ?n k invalidate_queue s1)"
      unfolding upd_queue_def
    proof (rule others_ok_remove)
      show "others_ok i s1" using s1(2) by (simp add: mid_def)
      show "?n < length (st_ns s1)" using n s1(3) by simp
      show "ns_ok ((st_ns s1 ! ?n)\<lparr>ns_queues := (ns_queues (st_ns s1 ! ?n))
          [k := invalidate_queue (ns_queues (st_ns s1 ! ?n) ! k)]\<rparr>)"
        using r s1(3) by (intro ns_ok_queue_update) (auto simp: queue_ok_def invalidate_queue_def)
      fix j cj
      assume j: "config_of s1 j = Some cj" "cf_ns cj = ?n" "waits_ok (st_ns s1 ! ?n) cj"
      then have "cf_reason cj \<noteq> WR_WAIT_QUEUE_RECV \<or> cf_index cj \<noteq> k"
        using s1(4)[rule_format, of j] by (auto simp: waits_on_def in_namespace_def config_at_def)
      then show "waits_ok ((st_ns s1 ! ?n)\<lparr>ns_queues := (ns_queues (st_ns s1 ! ?n))
          [k := invalidate_queue (ns_queues (st_ns s1 ! ?n) ! k)]\<rparr>) cj"
        using j(3) by (auto simp: waits_ok_def nth_list_update)
    qed
    then have rm: "handled i s (upd_queue ?n k invalidate_queue s1)"
      using handled_removed[OF rd s1(2,3)] unfolding upd_queue_def by blast
    show ?thesis
      using Some same r s1(1) rm handled_write_ex[OF rd, of env]
      by (auto simp: sysvipc_msgctl_def Let_def)
  qed
qed

subsection \<open>Messages\<close>

lemma ready_upd_queue:
  assumes "ready i s c" "n < length (st_ns s)"
    "mq_valid (ns_queues (st_ns s ! n) ! k) \<Longrightarrow> mq_valid (f (ns_queues (st_ns s ! n) ! k))"
    "queue_ok (f (ns_queues (st_ns s ! n) ! k))"
  shows "ready i (upd_queue n k f s) c"
proof -
  have "ns_ok (st_ns s ! n)" using assms(1,2) by (auto simp: ready_def others_ok_def list_all_length)
  then show ?thesis
    unfolding upd_queue_def using assms
    by (intro ready_upd_ns(1)[OF assms(1,2)] ns_ok_queue_update waits_ok_queue_update) auto
qed

lemma others_ok_upd_queue:
  assumes "others_ok i s" "n < length (st_ns s)"
    "mq_valid (ns_queues (st_ns s ! n) ! k) \<Longrightarrow> mq_valid (f (ns_queues (st_ns s ! n) ! k))"
    "queue_ok (f (ns_queues (st_ns s ! n) ! k))"
  shows "others_ok i (upd_queue n k f s)"
proof -
  have "ns_ok (st_ns s ! n)" using assms(1,2) by (auto simp: others_ok_def list_all_length)
  then show ?thesis
    unfolding upd_queue_def using assms
    by (intro others_ok_upd_ns[OF assms(1,2)] ns_ok_queue_update waits_ok_queue_update) auto
qed

lemma queue_at_ok:
  "others_ok i s \<Longrightarrow> n < length (st_ns s) \<Longrightarrow> k < length (ns_queues (st_ns s ! n)) \<Longrightarrow>
     queue_ok (ns_queues (st_ns s ! n) ! k)"
  by (auto simp: others_ok_def list_all_length ns_ok_def)

lemma wake_receiver_ok:
  assumes m: "mid i ci s0 s" and ci: "cf_reason ci = WR_NOT_WAITING"
    and k: "n < length (st_ns s)" "k < length (ns_queues (st_ns s ! n))"
  shows "\<exists>s'. wake_receiver env n k item s = Some s' \<and> mid i ci s0 s' \<and> st_ns s' = st_ns s"
proof (cases "find (waits_for_item s n k item) (all_tracees s)")
  case None
  then show ?thesis using m by (simp add: wake_receiver_def)
next
  case (Some j)
  then have j: "waits_for_item s n k item j" by (auto simp: find_Some_iff)
  then obtain c where c: "config_of s j = Some c" "cf_ns c = n"
    using in_namespaceD[of s n j] by (auto simp: waits_for_item_def)
  have cr: "cf_reason c = WR_WAIT_QUEUE_RECV" "cf_index c = k"
    using j c by (auto simp: waits_for_item_def config_at_def)
  have ji: "j \<noteq> i" using m c cr ci by (auto simp: mid_def)
  have jl: "j < length (st_tracees s)" using c(1) by (rule config_of_less)
  show ?thesis
    using wake_other[OF m jl ji c(1), of "\<lambda>c. c\<lparr>cf_chain := CSTATE_MSGRCV_RETRY\<rparr>" env "Inl EAGAIN"]
      cr c(2) k Some
    by (auto simp: wake_receiver_def)
qed

lemma msgsnd_handled:
  assumes rd: "ready i s c"
  shows "\<exists>status s'. sysvipc_msgsnd env i s = Some (status, s') \<and> handled i s s'"
proof -
  note r = ready_self[OF rd]
  let ?n = "cf_ns c"
  let ?queues = "ns_queues (st_ns s ! ?n)"
  have n: "?n < length (st_ns s)" using rd by (simp add: ready_def)
  note same = ready_handled[OF rd]
  show ?thesis
  proof (cases "lookup_ipc_object mq_valid mq_generation ?queues (sysarg s i SYSARG_1)")
    case None
    then show ?thesis using same r by (auto simp: sysvipc_msgsnd_def Let_def)
  next
    case (Some k)
    note k = lookup_Some[OF Some]
    have o: "others_ok i s" using rd by (simp add: ready_def)
    note q = queue_at_ok[OF o n k(1)]
    have ok: "\<exists>s'. map_option (\<lambda>s. upd_queue ?n k
          (\<lambda>q. q\<lparr>mq_items := mq_items q @ [item], mq_qnum := mq_qnum q + 1,
                 mq_cbytes := mq_cbytes q + of_nat (length (mi_text item))\<rparr>) s)
          (wake_receiver env ?n k item (upd_queue ?n k (\<lambda>q. q\<lparr>mq_lspid := p, mq_stime := t\<rparr>) s)) =
        Some s' \<and> handled i s s'"
      if it: "1 \<le> sint (mi_type item)" for item p t
    proof -
      let ?s1 = "upd_queue ?n k (\<lambda>q. q\<lparr>mq_lspid := p, mq_stime := t\<rparr>) s"
      have rd1: "ready i ?s1 c"
        using q by (intro ready_upd_queue rd n) (auto simp: queue_ok_def)
      have n1: "?n < length (st_ns ?s1)" "k < length (ns_queues (st_ns ?s1 ! ?n))"
        using n k by (simp_all add: upd_queue_def upd_ns_def)
      have m1: "mid i c s ?s1"
        using rd1 by (simp add: ready_def mid_def upd_queue_def)
      obtain s2 where s2: "wake_receiver env ?n k item ?s1 = Some s2" "mid i c s s2"
        "st_ns s2 = st_ns ?s1"
        using wake_receiver_ok[OF m1 _ n1, of env item] rd by (auto simp: ready_def)
      let ?f = "\<lambda>q. q\<lparr>mq_items := mq_items q @ [item], mq_qnum := mq_qnum q + 1,
        mq_cbytes := mq_cbytes q + of_nat (length (mi_text item))\<rparr>"
      have q2: "queue_ok (ns_queues (st_ns s2 ! ?n) ! k)"
        using queue_at_ok[of i s2 ?n k] s2(2,3) n1 by (simp add: mid_def)
      have "others_ok i (upd_queue ?n k ?f s2)"
        using s2 n1 q2 it by (intro others_ok_upd_queue) (auto simp: mid_def queue_ok_def)
      then have "handled i s (upd_queue ?n k ?f s2)"
        using s2(2) rd by (auto simp: handled_def mid_def ready_def upd_queue_def waits_ok_def)
      then show ?thesis using s2(1) by simp
    qed
    show ?thesis
    proof (cases "\<exists>type_bytes mt. \<not> SYSVIPC_MAX_MSG_SIZE < sysarg s i SYSARG_3 \<and>
        read_mem env s i (sysarg s i SYSARG_2) 8 = Inr type_bytes \<and> \<not> sint (word_le type_bytes) < 1 \<and>
        read_mem env s i (sysarg s i SYSARG_2 + 8) (unat (sysarg s i SYSARG_3)) = Inr mt")
      case False
      then show ?thesis
        using Some same r by (auto simp: sysvipc_msgsnd_def Let_def split: sum.splits)
    next
      case True
      then obtain tb mt where a: "\<not> SYSVIPC_MAX_MSG_SIZE < sysarg s i SYSARG_3"
        "read_mem env s i (sysarg s i SYSARG_2) 8 = Inr tb" "\<not> sint (word_le tb) < 1"
        "read_mem env s i (sysarg s i SYSARG_2 + 8) (unat (sysarg s i SYSARG_3)) = Inr mt"
        by blast
      let ?item = "\<lparr>mi_type = word_le tb, mi_text = mt\<rparr>"
      obtain s' where "map_option (\<lambda>s. upd_queue ?n k
          (\<lambda>q. q\<lparr>mq_items := mq_items q @ [?item], mq_qnum := mq_qnum q + 1,
                 mq_cbytes := mq_cbytes q + of_nat (length mt)\<rparr>) s)
          (wake_receiver env ?n k ?item (upd_queue ?n k
             (\<lambda>q. q\<lparr>mq_lspid := pid (tracee_at s i), mq_stime := ie_time env (st_world s)\<rparr>) s)) =
        Some s'" "handled i s s'"
        using ok[of ?item "ie_time env (st_world s)" "pid (tracee_at s i)"] a(3) by auto
      then show ?thesis
        using Some a r by (auto simp: sysvipc_msgsnd_def Let_def split: option.splits)
    qed
  qed
qed

end
