(* ===== verification/Ipc_Receive.thy ===== *)
theory Ipc_Receive
  imports Ipc_Control
begin

section \<open>System V IPC: receiving keeps the invariant\<close>

text \<open>
  A receiver takes a message, or waits for one; a receiver that was woken tries again when its
  system call ends.
\<close>

subsection \<open>The position of a message\<close>

lemma find_item_Some:
  "find_item p xs k = Some r \<Longrightarrow>
     k \<le> r \<and> r < k + length xs \<and> p (xs ! (r - k)) \<and> (\<forall>l<r - k. \<not> p (xs ! l))"
proof (induction p xs k rule: find_item.induct)
  case (2 p x xs k)
  show ?case
  proof (cases "p x")
    case False
    then have IH: "Suc k \<le> r \<and> r < Suc k + length xs \<and> p (xs ! (r - Suc k)) \<and>
      (\<forall>l<r - Suc k. \<not> p (xs ! l))"
      using 2 by simp
    then have "r - k = Suc (r - Suc k)" using Suc_diff_Suc[of k r] by simp
    then show ?thesis using IH False by (auto simp: nth_Cons split: nat.splits)
  qed (use 2(2) in simp)
qed simp

lemma find_item_None: "find_item p xs k = None \<longleftrightarrow> (\<forall>x\<in>set xs. \<not> p x)"
  by (induction p xs k rule: find_item.induct) auto

lemma found_item_less: "found_item c items = Some p \<Longrightarrow> p < length items"
  by (auto simp: found_item_def split: if_splits dest!: find_item_Some)

lemma length_remove_at: "p < length xs \<Longrightarrow> length (remove_at p xs) = length xs - 1"
  by (simp add: remove_at_def)

lemma set_remove_at: "set (remove_at p xs) \<subseteq> set xs"
  by (auto simp: remove_at_def dest: in_set_takeD in_set_dropD)

lemma sum_list_remove_at:
  fixes f :: "'a \<Rightarrow> nat"
  assumes "p < length xs"
  shows "sum_list (map f (remove_at p xs)) = sum_list (map f xs) - f (xs ! p)"
proof -
  have "sum_list (map f xs) = sum_list (map f (take p xs @ xs ! p # drop (Suc p) xs))"
    using assms by (simp flip: id_take_nth_drop)
  then show ?thesis by (simp add: remove_at_def)
qed

lemma member_le_sum: "p < length xs \<Longrightarrow> (f (xs ! p) :: nat) \<le> sum_list (map f xs)"
  by (simp add: member_le_sum_list)

lemma queue_ok_take_item:
  assumes "queue_ok q" "p < length (mq_items q)"
  shows "queue_ok (take_item p q)"
proof -
  have le: "length (mi_text (mq_items q ! p)) \<le>
      sum_list (map (\<lambda>m. length (mi_text m)) (mq_items q))"
    using member_le_sum[OF assms(2), of "\<lambda>m. length (mi_text m)"] .
  show ?thesis
    using assms le set_remove_at[of p "mq_items q"]
    by (auto simp: queue_ok_def take_item_def length_remove_at sum_list_remove_at of_nat_diff)
qed

subsection \<open>In the middle of a handler\<close>

lemma mid_world: "mid i c s0 s \<Longrightarrow> mid i c s0 (s\<lparr>st_world := w\<rparr>)"
  by (simp add: mid_def)

lemma mid_upd_queue:
  assumes "mid i c s0 s" "n < length (st_ns s)"
    "mq_valid (ns_queues (st_ns s ! n) ! k) \<Longrightarrow> mq_valid (f (ns_queues (st_ns s ! n) ! k))"
    "queue_ok (f (ns_queues (st_ns s ! n) ! k))"
  shows "mid i c s0 (upd_queue n k f s)"
  using assms others_ok_upd_queue[of i s n k f] by (simp add: mid_def upd_queue_def)

lemma mid_write: "write_mem env s j a bs = (e, s') \<Longrightarrow> mid i c s0 s \<Longrightarrow> mid i c s0 s' \<and> st_ns s' = st_ns s"
  by (auto simp: write_mem_def mid_world split: prod.splits)

lemma mid_queue_ok:
  "mid i c s0 s \<Longrightarrow> n < length (st_ns s) \<Longrightarrow> k < length (ns_queues (st_ns s ! n)) \<Longrightarrow>
     queue_ok (ns_queues (st_ns s ! n) ! k)"
  by (auto simp: mid_def intro: queue_at_ok)

lemma deliver_mid:
  assumes m: "mid i c s0 s" and n: "n < length (st_ns s)" "k < length (ns_queues (st_ns s ! n))"
    and d: "sysvipc_msg_deliver env i n k msg s = (r, s')"
  shows "mid i c s0 s' \<and> length (st_ns s') = length (st_ns s) \<and>
    length (ns_queues (st_ns s' ! n)) = length (ns_queues (st_ns s ! n)) \<and>
    mq_items (ns_queues (st_ns s' ! n) ! k) = mq_items (ns_queues (st_ns s ! n) ! k)"
proof -
  have stamp: "mid i c s0 (upd_queue n k (\<lambda>q. q\<lparr>mq_lrpid := p, mq_rtime := t\<rparr>) u)"
    if "mid i c s0 u" "st_ns u = st_ns s" for u p t
    using that n mid_queue_ok[OF that(1), of n k]
    by (intro mid_upd_queue) (auto simp: queue_ok_def)
  show ?thesis
    using d m n
    by (auto simp: sysvipc_msg_deliver_def Let_def upd_queue_def upd_ns_def
        split: if_splits prod.splits option.splits
        dest!: mid_write intro: stamp[unfolded upd_queue_def upd_ns_def])
qed

lemma do_msgrcv_mid:
  assumes m: "mid i c s0 s" and n: "cf_ns c < length (st_ns s)" "k < length (ns_queues (st_ns s ! cf_ns c))"
    and d: "sysvipc_do_msgrcv env i k s = (r, s')"
  shows "mid i c s0 s' \<or>
    r = Inr 0 \<and> s' = upd_config i (\<lambda>c. c\<lparr>cf_reason := WR_WAIT_QUEUE_RECV, cf_index := k\<rparr>) s"
proof -
  have c: "config_at s i = c" using m by (simp add: mid_def config_at_def)
  have taken: "mid i c s0 (upd_queue (cf_ns c) k (take_item p) u)"
    if u: "sysvipc_msg_deliver env i (cf_ns c) k msg s = (r', u)"
      and p: "found_item c (mq_items (ns_queues (st_ns s ! cf_ns c) ! k)) = Some p" for r' u msg p
  proof -
    note f = deliver_mid[OF m n u]
    have "p < length (mq_items (ns_queues (st_ns u ! cf_ns c) ! k))"
      using found_item_less[OF p] f by simp
    moreover have "queue_ok (ns_queues (st_ns u ! cf_ns c) ! k)"
      using f n mid_queue_ok[of i c s0 u "cf_ns c" k] by simp
    ultimately show ?thesis
      using f n by (intro mid_upd_queue) (auto simp: queue_ok_take_item, simp add: take_item_def)
  qed
  show ?thesis
    using d m c deliver_mid[OF m n] taken
    by (auto simp: sysvipc_do_msgrcv_def Let_def split: if_splits option.splits prod.splits sum.splits)
qed

lemma msgrcv_handled:
  assumes rd: "ready i s c"
  shows "\<exists>status s'. sysvipc_msgrcv env i s = Some (status, s') \<and> handled i s s'"
proof (cases "lookup_ipc_object mq_valid mq_generation (ns_queues (st_ns s ! cf_ns c)) (sysarg s i SYSARG_1)")
  case None
  then show ?thesis
    using ready_handled[OF rd] ready_self[OF rd] by (simp add: sysvipc_msgrcv_def)
next
  case (Some k)
  note k = lookup_Some[OF Some]
  let ?f = "\<lambda>c. c\<lparr>cf_msgp := sysarg s i SYSARG_2, cf_msgsz := sysarg s i SYSARG_3,
      cf_msgtyp := c_int (sysarg s i SYSARG_4), cf_msgflg := c_int (sysarg s i SYSARG_5)\<rparr>"
  let ?s = "upd_config i ?f s"
  have m: "mid i (?f c) s ?s" using rd by (simp add: mid_def ready_def)
  have n: "cf_ns (?f c) < length (st_ns ?s)" "k < length (ns_queues (st_ns ?s ! cf_ns (?f c)))"
    using rd k by (simp_all add: ready_def)
  obtain r s' where d: "sysvipc_do_msgrcv env i k ?s = (r, s')" by fastforce
  have "handled i s s'"
    using do_msgrcv_mid[OF m n d]
  proof
    assume "mid i (?f c) s s'"
    then show ?thesis using rd by (auto simp: handled_def mid_def ready_def waits_ok_def)
  next
    assume w: "r = Inr 0 \<and>
      s' = upd_config i (\<lambda>c. c\<lparr>cf_reason := WR_WAIT_QUEUE_RECV, cf_index := k\<rparr>) ?s"
    show ?thesis
      using w rd k m by (auto simp: handled_def ready_def waits_ok_def mid_def)
  qed
  then show ?thesis
    using Some d ready_self[OF rd] by (simp add: sysvipc_msgrcv_def Let_def)
qed

text \<open>
  The second attempt fails only when the queue was removed in between: the assertion
  \<^verbatim>\<open>queue->valid\<close> of \<open>sysvipc_msgrcv_retry\<close>.
\<close>

lemma msgrcv_retry_mid:
  assumes m: "mid i c s0 s" and c: "cf_chain c = CSTATE_MSGRCV_RETRY" "cf_reason c = WR_NOT_WAITING"
    and n: "cf_ns c < length (st_ns s)" "waits_ok (st_ns s ! cf_ns c) c"
  shows "sysvipc_msgrcv_retry env i s = None \<Longrightarrow>
      \<not> mq_valid (ns_queues (st_ns s ! cf_ns c) ! cf_index c)"
    and "sysvipc_msgrcv_retry env i s = Some (r, s') \<Longrightarrow>
      \<exists>k. mid i (c\<lparr>cf_chain := CSTATE_NOT_CHAINED, cf_index := k\<rparr>) s0 s'"
proof -
  have at: "config_at s i = c" "ns_at s i = st_ns s ! cf_ns c" using m by (simp_all add: mid_def config_at_def ns_at_def)
  have k: "cf_index c < length (ns_queues (st_ns s ! cf_ns c))" using n(2) c(1) by (simp add: waits_ok_def)
  show "\<not> mq_valid (ns_queues (st_ns s ! cf_ns c) ! cf_index c)"
    if "sysvipc_msgrcv_retry env i s = None"
    using that at c k by (auto simp: sysvipc_msgrcv_retry_def Let_def split: if_splits prod.splits)
  have same: "c\<lparr>cf_index := cf_index c\<rparr> = c" by simp
  show "\<exists>k. mid i (c\<lparr>cf_chain := CSTATE_NOT_CHAINED, cf_index := k\<rparr>) s0 s'"
    if r: "sysvipc_msgrcv_retry env i s = Some (r, s')"
  proof (cases "cf_status c = Inl EAGAIN")
    case False
    then have "s' = upd_config i (\<lambda>c. c\<lparr>cf_chain := CSTATE_NOT_CHAINED\<rparr>) s"
      using r at c by (simp add: sysvipc_msgrcv_retry_def Let_def)
    then show ?thesis using m by (intro exI[of _ "cf_index c"]) (simp add: mid_def)
  next
    case True
    obtain st u where d: "sysvipc_do_msgrcv env i (cf_index c) s = (st, u)" by fastforce
    have v: "mq_valid (ns_queues (st_ns s ! cf_ns c) ! cf_index c)"
      using r at c k True by (auto simp: sysvipc_msgrcv_retry_def Let_def split: if_splits)
    have s': "s' = (if cf_reason (config_at u i) \<noteq> WR_NOT_WAITING
        then upd_config i (\<lambda>c. c\<lparr>cf_reason := WR_NOT_WAITING, cf_chain := CSTATE_NOT_CHAINED\<rparr>) u
        else upd_config i (\<lambda>c. c\<lparr>cf_chain := CSTATE_NOT_CHAINED\<rparr>) u)"
      using r at c k True v d by (auto simp: sysvipc_msgrcv_retry_def Let_def split: if_splits)
    show ?thesis
      using do_msgrcv_mid[OF m n(1) k d]
    proof
      assume u: "mid i c s0 u"
      then have "cf_reason (config_at u i) = WR_NOT_WAITING" using c by (simp add: mid_def config_at_def)
      then show ?thesis using s' u by (intro exI[of _ "cf_index c"]) (simp add: mid_def)
    next
      assume u: "st = Inr 0 \<and>
        u = upd_config i (\<lambda>c'. c'\<lparr>cf_reason := WR_WAIT_QUEUE_RECV, cf_index := cf_index c\<rparr>) s"
      then have "config_of u i = Some (c\<lparr>cf_reason := WR_WAIT_QUEUE_RECV\<rparr>)"
        using m by (simp add: mid_def)
      then show ?thesis
        using s' u m c by (intro exI[of _ "cf_index c"]) (auto simp: mid_def config_at_def)
    qed
  qed
qed

end
