(* ===== verification/Ipc_Segments.thy ===== *)
theory Ipc_Segments
  imports Ipc_Control
begin

section \<open>System V IPC: shared memory keeps the invariant\<close>

text \<open>
  Segments, mappings and processes are separate from what the tracees wait for; only the wake-up of
  the next \<open>shmat\<close> touches another tracee.
\<close>

subsection \<open>Changes that nobody waits for\<close>

definition quiet :: "'w ipc_state \<Rightarrow> 'w ipc_state \<Rightarrow> bool" where
  "quiet s s' =
     (st_tracees s' = st_tracees s \<and> length (st_ns s') = length (st_ns s) \<and>
      (\<forall>n<length (st_ns s). ns_semaphores (st_ns s' ! n) = ns_semaphores (st_ns s ! n) \<and>
        ns_queues (st_ns s' ! n) = ns_queues (st_ns s ! n)))"

lemma ns_shms_nth [simp]:
  "ns_semaphores (l[n := (l ! n)\<lparr>ns_shms := x\<rparr>] ! m) = ns_semaphores (l ! m)"
  "ns_queues (l[n := (l ! n)\<lparr>ns_shms := x\<rparr>] ! m) = ns_queues (l ! m)"
proof -
  have "l[n := (l ! n)\<lparr>ns_shms := x\<rparr>] ! m = l ! m \<or>
    l[n := (l ! n)\<lparr>ns_shms := x\<rparr>] ! m = (l ! m)\<lparr>ns_shms := x\<rparr>"
    by (cases "n < length l"; cases "n = m") (simp_all add: list_update_beyond)
  then show "ns_semaphores (l[n := (l ! n)\<lparr>ns_shms := x\<rparr>] ! m) = ns_semaphores (l ! m)"
    "ns_queues (l[n := (l ! n)\<lparr>ns_shms := x\<rparr>] ! m) = ns_queues (l ! m)"
    by auto
qed

lemma quiet_refl [simp]: "quiet s s"
  by (simp add: quiet_def)

lemma quiet_trans: "quiet s t \<Longrightarrow> quiet t u \<Longrightarrow> quiet s u"
  by (auto simp: quiet_def)

lemma quiet_upd [simp]:
  "quiet s (upd_shm n k f t) = quiet s t" "quiet s (upd_proc p g t) = quiet s t"
  "quiet s (t\<lparr>st_world := w\<rparr>) = quiet s t" "quiet s (t\<lparr>st_next_map := m\<rparr>) = quiet s t"
  "quiet s (t\<lparr>st_procs := ps\<rparr>) = quiet s t"
  "quiet s (upd_ns n (\<lambda>ns. ns\<lparr>ns_shms := x\<rparr>) t) = quiet s t"
  by (auto simp: quiet_def upd_shm_def upd_ns_def upd_proc_def)

lemma quiet_facts:
  assumes "quiet s s'"
  shows "config_of s' = config_of s" "tracee_at s' = tracee_at s" "config_at s' = config_at s"
    "length (st_tracees s') = length (st_tracees s)" "length (st_ns s') = length (st_ns s)"
    "all_tracees s' = all_tracees s"
    "n < length (st_ns s) \<Longrightarrow> waits_ok (st_ns s' ! n) c = waits_ok (st_ns s ! n) c"
    "n < length (st_ns s) \<Longrightarrow> ns_ok (st_ns s' ! n) = ns_ok (st_ns s ! n)"
  using assms
  by (auto simp: quiet_def config_of_def tracee_at_def fun_eq_iff waits_ok_def ns_ok_def
      config_at_def all_tracees_def)

lemma quiet_tracee_ok: "quiet s s' \<Longrightarrow> tracee_ok s' j = tracee_ok s j"
  by (auto simp: tracee_ok_def quiet_facts split: option.splits)

lemma quiet_others_ok: "quiet s s' \<Longrightarrow> others_ok i s' = others_ok i s"
  by (auto simp: others_ok_def quiet_facts quiet_tracee_ok list_all_length)

lemma quiet_mid: "quiet s s' \<Longrightarrow> mid i c s0 s' = mid i c s0 s"
  by (simp add: mid_def quiet_others_ok quiet_facts)

lemma quiet_handled:
  assumes "quiet s s'" "ready i s c" shows "handled i s s'"
proof -
  have "ready i s' c" using assms by (simp add: ready_def quiet_others_ok quiet_facts)
  then have "handled i s' s'" by (rule ready_handled)
  then show ?thesis using assms(1) by (simp add: handled_def quiet_facts)
qed

lemma do_rmid_quiet: "sysvipc_do_rmid env n k s = Some s' \<Longrightarrow> quiet s s'"
  by (auto simp: sysvipc_do_rmid_def Let_def split: if_splits)

lemma free_mapping_quiet: "free_mapping env p m s = Some s' \<Longrightarrow> quiet s s'"
  by (auto simp: free_mapping_def Let_def split: if_splits dest!: do_rmid_quiet
      intro: quiet_trans[rotated])

lemma free_mappings_quiet: "free_mappings env p ms s = Some s' \<Longrightarrow> quiet s s'"
  by (induction ms arbitrary: s)
    (auto split: option.splits dest!: free_mapping_quiet intro: quiet_trans)

lemma remove_mappings_quiet:
  "sysvipc_shm_remove_mappings_from_process env p s = Some s' \<Longrightarrow> quiet s s'"
  unfolding sysvipc_shm_remove_mappings_from_process_def by (rule free_mappings_quiet)

lemma new_mapping_quiet: "quiet s (new_mapping p n k s)"
  by (simp add: new_mapping_def Let_def)

lemma inherit_mappings_quiet: "quiet s (inherit_mappings ms child s)"
proof (induction ms arbitrary: s)
  case (Cons m ms)
  show ?case unfolding inherit_mappings.simps Let_def by (rule quiet_trans[OF _ Cons]) simp
qed simp

lemma write_quiet: "write_mem env s j a bs = (e, s') \<Longrightarrow> quiet s s'"
  by (auto simp: write_mem_def split: prod.splits)

lemma upd_sel_shm [simp]:
  "tracee_at (upd_shm n k f s) = tracee_at s" "config_of (upd_shm n k f s) = config_of s"
  "tracee_at (upd_proc p g s) = tracee_at s" "config_of (upd_proc p g s) = config_of s"
  using quiet_facts[of s "upd_shm n k f s"] quiet_facts[of s "upd_proc p g s"] by auto

subsection \<open>shmget, shmdt and shmctl\<close>

lemma shmget_handled:
  assumes rd: "ready i s c" and "sysvipc_shmget env i s = Some (status, s')"
  shows "handled i s s'"
proof -
  have "quiet s s'"
    using assms(2)
    by (auto simp: sysvipc_shmget_def Let_def split: if_splits prod.splits option.splits)
  then show ?thesis using rd by (rule quiet_handled)
qed

lemma shmctl_handled:
  assumes rd: "ready i s c" and "sysvipc_shmctl env i s = Some (status, s')"
  shows "handled i s s'"
proof -
  have "quiet s s'"
    using assms(2)
    by (auto simp: sysvipc_shmctl_def Let_def write_status_def split: if_splits prod.splits option.splits
        dest!: do_rmid_quiet write_quiet intro: quiet_trans[rotated])
  then show ?thesis using rd by (rule quiet_handled)
qed

lemma shmdt_handled:
  assumes rd: "ready i s c" and d: "sysvipc_shmdt env i s = Some (status, s')"
  shows "handled i s s'"
proof -
  note r = ready_self[OF rd]
  let ?maps = "pr_mapped (st_procs s ! cf_process (config_at s i))"
  show ?thesis
  proof (cases "find (\<lambda>m. mp_addr m = sysarg s i SYSARG_1) ?maps")
    case None
    then show ?thesis using d ready_handled[OF rd] by (simp add: sysvipc_shmdt_def Let_def)
  next
    case (Some m)
    let ?u = "upd_config i (\<lambda>c. c\<lparr>cf_chain := CSTATE_SINGLE\<rparr>)
      (upd_tracee i (\<lambda>t. poke_reg t SYSARG_2 (mp_size m)) (upd_tracee i (\<lambda>t. set_sysnum t ''munmap'') s))"
    have "free_mapping env (cf_process (config_at s i)) m ?u = Some s'"
      using d Some by (simp add: sysvipc_shmdt_def Let_def)
    from free_mapping_quiet[OF this] have q: "quiet ?u s'" .
    then show ?thesis
      using rd r
      by (auto simp: handled_def quiet_facts quiet_others_ok ready_def set_sysnum_def waits_ok_def reg_simps)
  qed
qed

lemma shmat_handled:
  assumes rd: "ready i s c" and d: "sysvipc_shmat i s = Some (status, s')"
  shows "handled i s s'"
proof -
  note r = ready_self[OF rd]
  show ?thesis
  proof (cases "lookup_ipc_object sh_valid sh_generation (ns_shms (st_ns s ! cf_ns c)) (sysarg s i SYSARG_1)")
    case None
    then show ?thesis using d ready_handled[OF rd] r by (simp add: sysvipc_shmat_def)
  next
    case (Some k)
    let ?s1 = "upd_config i (\<lambda>c. c\<lparr>cf_index := k\<rparr>) s"
    let ?u = "new_mapping (cf_process (config_at ?s1 i)) (cf_ns c) k ?s1"
    have q: "quiet ?s1 ?u" by (rule new_mapping_quiet)
    have "others_ok i ?u" "config_of ?u i = Some (c\<lparr>cf_index := k\<rparr>)"
      "length (st_tracees ?u) = length (st_tracees s)" "length (st_ns ?u) = length (st_ns s)"
      "tracee_at ?u i = tracee_at s i"
      using rd q by (auto simp: quiet_others_ok quiet_facts ready_def)
    then show ?thesis
      using d Some rd r
      by (auto simp: sysvipc_shmat_def Let_def handled_def ready_def set_sysnum_def waits_ok_def reg_simps
          split: if_splits)
  qed
qed

subsection \<open>The chain of shmat\<close>

lemma tracee_ok_after_helper:
  assumes "tracee_ok s j" "config_of s j = Some c" "cf_reason c \<noteq> WR_NOT_WAITING"
    "config_of s' j = Some ((after_wake status c)\<lparr>cf_chain := CSTATE_SHMAT_SOCKET\<rparr>)"
    "st_ns s' = st_ns s" "tr_status (tracee_at s' j) = tr_status (tracee_at s j)"
    "\<exists>a l. chain_syscalls (tracee_at s' j) = Some (a # l)"
  shows "tracee_ok s' j"
  using assms tracee_ok_blocked[OF assms(1-3)]
  by (auto simp: tracee_ok_def control_ok_def after_wake_def woken_ok_def waits_ok_def)

lemma wake_pending_mid:
  assumes m: "mid i c s0 s" and c: "cf_reason c \<noteq> WR_WAIT_SHMAT_HELPER_BUSY"
    and w: "sysvipc_shm_wake_pending_shmat env s = Some s'"
  shows "mid i c s0 s'"
proof (cases "find (waits_for_helper s) (all_tracees s)")
  case None
  then show ?thesis using w m by (simp add: sysvipc_shm_wake_pending_shmat_def)
next
  case (Some j)
  then have "waits_for_helper s j" by (auto simp: find_Some_iff)
  then obtain cj where j: "config_of s j = Some cj" "cf_reason cj = WR_WAIT_SHMAT_HELPER_BUSY"
    by (auto simp: waits_for_helper_def split: option.splits)
  have ji: "j \<noteq> i" using j m c by (auto simp: mid_def)
  have jl: "j < length (st_tracees s)" using j(1) by (rule config_of_less)
  have jr: "cf_reason cj \<noteq> WR_NOT_WAITING" using j(2) by simp
  have cu: "upd_config j id s = s"
  proof -
    have "(st_tracees s ! j)\<lparr>it_config := Some cj\<rparr> = st_tracees s ! j"
      using j(1) jl by (cases "st_tracees s ! j") (simp add: config_of_def)
    then show ?thesis using j(1) by (simp add: upd_config_def)
  qed
  obtain u where u: "sysvipc_wake_tracee env j (Inr 0) s = Some u" "mid i c s0 u" "st_ns u = st_ns s"
    "config_of u j = Some (after_wake (Inr 0) cj)" "same_but j s u"
    using wake_other[OF m jl ji j(1) jr, of id env "Inr 0"] by (auto simp: cu)
  have ul: "j < length (st_tracees u)" using u(4) by (rule config_of_less)
  let ?reg = "\<lambda>t. register_chained_syscall t ''socket'' [1, 5, 0, 0, 0, 0]"
  let ?v = "upd_config j (\<lambda>c. c\<lparr>cf_chain := CSTATE_SHMAT_SOCKET\<rparr>) (upd_tracee j ?reg u)"
  have s': "s' = ?v"
    using w Some u(1) by (simp add: sysvipc_shm_wake_pending_shmat_def shm_wake_visit_def Let_def)
  have st: "tr_status (tracee_at u j) = tr_status (tracee_at s j)" using u(5) by (simp add: same_but_def)
  have okj: "tracee_ok ?v j"
  proof (rule tracee_ok_after_helper[OF _ j(1) jr])
    show "tracee_ok s j" using m ji jl by (simp add: mid_def others_ok_def)
    show "config_of ?v j = Some ((after_wake (Inr 0) cj)\<lparr>cf_chain := CSTATE_SHMAT_SOCKET\<rparr>)"
      using u(4) by simp
    show "st_ns ?v = st_ns s" using u(3) by simp
    show "tr_status (tracee_at ?v j) = tr_status (tracee_at s j)"
      using ul st by (simp add: register_chained_syscall_def register_chained_syscall_internal_def)
    show "\<exists>a l. chain_syscalls (tracee_at ?v j) = Some (a # l)"
      using ul by (cases "case chain_syscalls (tracee_at u j) of None \<Rightarrow> [] | Some q \<Rightarrow> q")
        (simp_all add: register_chained_syscall_def register_chained_syscall_internal_def)
  qed
  have "tracee_ok ?v l" if "l < length (st_tracees u)" "l \<noteq> i" for l
  proof (cases "l = j")
    case False
    then have "tracee_ok ?v l = tracee_ok u l" using ul by (intro tracee_ok_cong) auto
    then show ?thesis using u(2) that by (simp add: mid_def others_ok_def)
  qed (use okj in simp)
  then have "others_ok i ?v" using u(2) by (simp add: mid_def others_ok_def)
  then show ?thesis using u(2) s' ji ul by (simp add: mid_def)
qed

end
