(* ===== verification/Ipc_Stages.thy ===== *)
theory Ipc_Stages
  imports Ipc_Receive Ipc_Segments
begin

section \<open>System V IPC: the stages keep the invariant\<close>

text \<open>
  The chain of \<open>shmat\<close>, the events of the extension and the stages that call them; at the end, every
  reachable state satisfies \<open>ipc_ok\<close>.
\<close>

subsection \<open>The chain of shmat\<close>

text \<open>Tracee \<open>i\<close> is not waiting and has the configuration \<open>c\<close>; the others are in order.\<close>

definition running_at :: "nat \<Rightarrow> ipc_config \<Rightarrow> 'w ipc_state \<Rightarrow> bool" where
  "running_at i c s = (others_ok i s \<and> config_of s i = Some c \<and> cf_reason c = WR_NOT_WAITING)"

definition chained :: "nat \<Rightarrow> ipc_config \<Rightarrow> 'w ipc_state \<Rightarrow> 'w ipc_state \<Rightarrow> bool" where
  "chained i c s s' =
     (length (st_tracees s') = length (st_tracees s) \<and> length (st_ns s') = length (st_ns s) \<and>
      tr_status (tracee_at s' i) = tr_status (tracee_at s i) \<and>
      (\<exists>c'. running_at i c' s' \<and> cf_ns c' = cf_ns c \<and> cf_wait c' = cf_wait c \<and>
        (cf_chain c' = CSTATE_NOT_CHAINED \<or>
         cf_chain c' \<in> {CSTATE_SHMAT_CONNECT, CSTATE_SHMAT_RECVMSG, CSTATE_SHMAT_MMAP} \<and>
         (\<exists>a l. chain_syscalls (tracee_at s' i) = Some (a # l)))))"

lemma running_at_less: "running_at i c s \<Longrightarrow> i < length (st_tracees s)"
  by (auto simp: running_at_def config_of_less)

lemma running_at_upd:
  assumes "running_at i c s"
  shows "running_at i c (upd_tracee i f s)"
    "cf_reason (g c) = WR_NOT_WAITING \<Longrightarrow> running_at i (g c) (upd_config i g s)"
    "running_at i c (s\<lparr>st_world := w\<rparr>)"
    "quiet s s' \<Longrightarrow> running_at i c s'"
  using assms running_at_less[OF assms] by (auto simp: running_at_def quiet_others_ok quiet_facts)

lemma running_mid: "running_at i c s \<Longrightarrow> mid i c s s"
  by (simp add: running_at_def mid_def)

lemma give_up_mid:
  assumes r: "running_at i c s" and g: "shmat_give_up env i s = Some s'"
  shows "mid i (c\<lparr>cf_chain := CSTATE_NOT_CHAINED\<rparr>) s s'"
proof -
  let ?c = "c\<lparr>cf_chain := CSTATE_NOT_CHAINED\<rparr>"
  let ?u = "upd_config i (\<lambda>c. c\<lparr>cf_chain := CSTATE_NOT_CHAINED\<rparr>) s"
  have m: "mid i ?c s ?u" using r by (simp add: running_at_def mid_def)
  obtain m' v where v: "free_mapping env (cf_process (config_at ?u i)) m' ?u = Some v"
    "sysvipc_shm_wake_pending_shmat env v = Some s'"
    using g by (auto simp: shmat_give_up_def Let_def split: option.splits)
  have "mid i ?c s v" using m free_mapping_quiet[OF v(1)] by (simp add: quiet_mid)
  then show ?thesis by (rule wake_pending_mid[OF _ _ v(2)]) (use r in \<open>simp add: running_at_def\<close>)
qed

text \<open>A chain that ends: \<open>u\<close> differs from \<open>s\<close> in what tracee \<open>i\<close> is going to run.\<close>

lemma chained_end:
  assumes "mid i c' u s'" "cf_chain c' = CSTATE_NOT_CHAINED" "cf_reason c' = WR_NOT_WAITING"
    "cf_ns c' = cf_ns c" "cf_wait c' = cf_wait c" "length (st_tracees u) = length (st_tracees s)"
    "length (st_ns u) = length (st_ns s)" "tr_status (tracee_at u i) = tr_status (tracee_at s i)"
  shows "chained i c s s'"
  using assms by (auto simp: chained_def running_at_def mid_def)

lemma register_sel [simp]:
  "tr_status (register_chained_syscall t n a) = tr_status t"
  "tr_status (force_chain_final_result t v) = tr_status t"
  "tr_status (close_syscall fd t) = tr_status t"
  by (simp_all add: register_chained_syscall_def register_chained_syscall_internal_def Let_def
      force_chain_final_result_def close_syscall_def)

lemma register_nonempty [simp]:
  "\<exists>x l. chain_syscalls (register_chained_syscall t n a) = Some (x # l)"
proof -
  have "\<exists>x l. q @ [y] = x # l" for q and y :: chained_syscall
    by (cases q) auto
  then show ?thesis
    by (simp add: register_chained_syscall_def register_chained_syscall_internal_def Let_def)
qed

text \<open>A chain that goes on with another system call.\<close>

lemma chained_next:
  assumes "running_at i c0 u" "cf_ns (g c0) = cf_ns c" "cf_wait (g c0) = cf_wait c"
    "cf_reason (g c0) = WR_NOT_WAITING"
    "cf_chain (g c0) \<in> {CSTATE_SHMAT_CONNECT, CSTATE_SHMAT_RECVMSG, CSTATE_SHMAT_MMAP}"
    "length (st_tracees u) = length (st_tracees s)" "length (st_ns u) = length (st_ns s)"
    "tr_status (tracee_at u i) = tr_status (tracee_at s i)"
  shows "chained i c s (upd_config i g (upd_tracee i (\<lambda>t. register_chained_syscall t n a) u))"
proof -
  note less = running_at_less[OF assms(1)]
  note r = running_at_upd(2)[OF running_at_upd(1)[OF assms(1)], of g, OF assms(4)]
  show ?thesis
    unfolding chained_def using assms(2-) less
    by (intro conjI exI[of _ "g c0"] r) (auto simp: less)
qed

lemma fail_dont_close_chained:
  assumes r: "running_at i c u" and f: "shmat_fail_dont_close env i u = Some (r, s')"
    and s: "length (st_tracees u) = length (st_tracees s)" "length (st_ns u) = length (st_ns s)"
      "tr_status (tracee_at u i) = tr_status (tracee_at s i)" "cf_ns c = cf_ns c0" "cf_wait c = cf_wait c0"
  shows "chained i c0 s s'"
proof -
  have "shmat_give_up env i u = Some s'" using f by (auto simp: shmat_fail_dont_close_def)
  from give_up_mid[OF r this] show ?thesis
    using r s by (elim chained_end) (auto simp: running_at_def)
qed

lemma fail_close_socket_chained:
  assumes r: "running_at i c u" and f: "shmat_fail_close_socket env i u = Some (r, s')"
    and s: "length (st_tracees u) = length (st_tracees s)" "length (st_ns u) = length (st_ns s)"
      "tr_status (tracee_at u i) = tr_status (tracee_at s i)" "cf_ns c = cf_ns c0" "cf_wait c = cf_wait c0"
  shows "chained i c0 s s'"
proof -
  let ?v = "upd_tracee i (\<lambda>t. force_chain_final_result t (- 12))
    (upd_tracee i (close_syscall (word_of_int (cf_shm_socket (config_at u i)))) u)"
  have v: "running_at i c ?v" using r by (intro running_at_upd(1))
  have "shmat_give_up env i ?v = Some s'" using f by (auto simp: shmat_fail_close_socket_def Let_def)
  from give_up_mid[OF v this] show ?thesis
    using r s running_at_less[OF r] by (elim chained_end) (auto simp: running_at_def)
qed

lemma write_running:
  "write_mem env s j a bs = (e, s') \<Longrightarrow> running_at i c s \<Longrightarrow> running_at i c s'"
  "write_mem env s j a bs = (e, s') \<Longrightarrow> st_tracees s' = st_tracees s \<and> st_ns s' = st_ns s"
  by (auto simp: write_mem_def running_at_upd split: prod.splits)

lemma tracee_at_cong: "st_tracees s' = st_tracees s \<Longrightarrow> tracee_at s' i = tracee_at s i"
  by (simp add: tracee_at_def)

lemma socket_chained:
  assumes r: "running_at i c s" and f: "shmat_socket env i s = Some (st, s')"
  shows "chained i c s s'"
proof -
  let ?fd = "c_int (sysarg s i SYSARG_RESULT)"
  let ?c = "c\<lparr>cf_shm_socket := ?fd\<rparr>"
  let ?u = "upd_config i (\<lambda>c. c\<lparr>cf_shm_socket := ?fd\<rparr>) s"
  have u: "running_at i ?c ?u"
    using running_at_upd(2)[OF r, of "\<lambda>c. c\<lparr>cf_shm_socket := ?fd\<rparr>"] r by (simp add: running_at_def)
  have fail: "chained i c s s'" if "shmat_fail_dont_close env i v = Some (st, s')" "running_at i ?c v"
    "st_tracees v = st_tracees ?u" "st_ns v = st_ns s" for v
    by (rule fail_dont_close_chained[OF that(2,1)])
      (use that(3,4) tracee_at_cong[OF that(3), of i] in auto)
  show ?thesis
  proof (cases "?fd < 0 \<or> sysarg s i STACK_POINTER - 110 = 0")
    case True
    then have "shmat_fail_dont_close env i ?u = Some (st, s')"
      using f by (simp add: shmat_socket_def Let_def sysarg_def)
    then show ?thesis using u fail[of ?u] by simp
  next
    case False
    obtain e v where v: "write_mem env ?u i (sysarg s i STACK_POINTER - 110)
        (ie_shm_addr env (st_world s)) = (e, v)" by fastforce
    note rv = write_running[OF v]
    show ?thesis
    proof (cases e)
      case (Some x)
      then have "shmat_fail_dont_close env i v = Some (st, s')"
        using f False v by (simp add: shmat_socket_def Let_def sysarg_def)
      then show ?thesis using rv u fail[of v] by simp
    next
      case None
      have "s' = upd_config i (\<lambda>c. c\<lparr>cf_shm_buf := sysarg s i STACK_POINTER - 110,
              cf_chain := CSTATE_SHMAT_CONNECT\<rparr>)
            (upd_tracee i (\<lambda>t. register_chained_syscall t ''connect''
              [word_of_int ?fd, sysarg s i STACK_POINTER - 110, 110, 0, 0, 0]) v)"
        using f False v None by (simp add: shmat_socket_def Let_def sysarg_def)
      then show ?thesis
        using r rv(2) tracee_at_cong[of v ?u i]
        by (auto intro!: chained_next[OF rv(1)[OF u]] simp: running_at_def)
    qed
  qed
qed

lemma recvmsg_pointers_quiet:
  "sysvipc_shm_recvmsg_pointers env i b w s = (r, s') \<Longrightarrow> quiet s s'"
  by (auto simp: sysvipc_shm_recvmsg_pointers_def Let_def split: if_splits prod.splits option.splits
      dest!: write_quiet)

lemma connect_chained:
  assumes r: "running_at i c s" and f: "shmat_connect env i s = Some (st, s')"
  shows "chained i c s s'"
proof -
  have c: "config_at s i = c" using r by (simp add: running_at_def config_at_def)
  have fail: "chained i c s s'" if "shmat_fail_close_socket env i v = Some (st, s')" "quiet s v" for v
    by (rule fail_close_socket_chained[OF running_at_upd(4)[OF r that(2)] that(1)])
      (use that(2) in \<open>auto simp: quiet_facts\<close>)
  show ?thesis
  proof (cases "c_int (sysarg s i SYSARG_RESULT) \<noteq> 0")
    case True
    then show ?thesis using f fail[of s] by (simp add: shmat_connect_def Let_def)
  next
    case False
    obtain p v where v: "sysvipc_shm_recvmsg_pointers env i (cf_shm_buf c) True s = (p, v)" by fastforce
    note q = recvmsg_pointers_quiet[OF v]
    show ?thesis
    proof (cases p)
      case (Inl e)
      then show ?thesis using f False v c fail[OF _ q] by (simp add: shmat_connect_def Let_def)
    next
      case (Inr ptrs)
      have w: "running_at i c (v\<lparr>st_world := x\<rparr>)" for x
        using running_at_upd(3)[OF running_at_upd(4)[OF r q]] .
      have "s' = upd_config i (\<lambda>c. c\<lparr>cf_chain := CSTATE_SHMAT_RECVMSG\<rparr>)
          (upd_tracee i (\<lambda>t. register_chained_syscall t ''recvmsg''
            [word_of_int (cf_shm_socket c), msghdr_ptr ptrs, 0, 0, 0, 0])
           (v\<lparr>st_world := ie_shm_distribute env (st_world v) (sh_fd (shm_at v (cf_ns c) (cf_index c)))\<rparr>))"
        using f False v c Inr by (simp add: shmat_connect_def Let_def)
      then show ?thesis
        using r q by (auto intro!: chained_next[OF w] simp: running_at_def quiet_facts)
    qed
  qed
qed

lemma recvmsg_chained:
  assumes r: "running_at i c s" and f: "shmat_recvmsg env i s = Some (st, s')"
  shows "chained i c s s'"
proof -
  have fail: "chained i c s s'" if "shmat_fail_close_socket env i s = Some (st, s')"
    by (rule fail_close_socket_chained[OF r that]) simp_all
  have go: "chained i c s (upd_config i (\<lambda>c. c\<lparr>cf_shm_mem := fd, cf_chain := CSTATE_SHMAT_MMAP\<rparr>)
      (upd_tracee i (\<lambda>t. register_chained_syscall t (mmap_sysnum t) a) s))" for fd a
    using r chained_next[OF r, of "\<lambda>c. c\<lparr>cf_shm_mem := fd, cf_chain := CSTATE_SHMAT_MMAP\<rparr>" c s
        "mmap_sysnum (tracee_at s i)" a]
    by (simp add: running_at_def upd_tracee_def)
  show ?thesis
    using f fail go by (auto simp: shmat_recvmsg_def Let_def split: sum.splits if_splits)
qed

lemma mmap_chained:
  assumes r: "running_at i c s" and f: "shmat_mmap env i s = Some (st, s')"
  shows "chained i c s s'"
proof -
  have c: "config_at s i = c" using r by (simp add: running_at_def config_at_def)
  obtain m where m: "find_pending_mapping s (cf_process c) (cf_ns c) (cf_index c) = Some m"
    using f c by (auto simp: shmat_mmap_def Let_def split: option.splits)
  let ?s1 = "upd_proc (cf_process c) (\<lambda>pr. pr\<lparr>pr_mapped :=
    map (\<lambda>x. if mp_id x = mp_id m then x\<lparr>mp_addr := sysarg s i SYSARG_RESULT,
      mp_size := sysarg s i SYSARG_2\<rparr> else x) (pr_mapped pr)\<rparr>) s"
  let ?s2 = "upd_tracee i (\<lambda>t. force_chain_final_result t (sysarg s i SYSARG_RESULT))
    (upd_tracee i (close_syscall (word_of_int (cf_shm_socket c)))
      (upd_tracee i (close_syscall (cf_shm_mem c)) ?s1))"
  let ?u = "upd_config i (\<lambda>c. c\<lparr>cf_chain := CSTATE_NOT_CHAINED\<rparr>) ?s2"
  let ?c = "c\<lparr>cf_chain := CSTATE_NOT_CHAINED\<rparr>"
  have w: "sysvipc_shm_wake_pending_shmat env ?u = Some s'"
    using f c m by (auto simp: shmat_mmap_def Let_def)
  have r1: "running_at i c ?s1" by (rule running_at_upd(4)[OF r]) simp
  have "running_at i c ?s2" using r1 by (intro running_at_upd(1))
  from running_at_upd(2)[OF this, of "\<lambda>c. c\<lparr>cf_chain := CSTATE_NOT_CHAINED\<rparr>"]
  have "running_at i ?c ?u" using r by (simp add: running_at_def)
  note mu = running_mid[OF this]
  have "mid i ?c ?u s'"
    by (rule wake_pending_mid[OF mu _ w]) (use r in \<open>simp add: running_at_def\<close>)
  then show ?thesis
    using r running_at_less[OF r] by (elim chained_end) (auto simp: running_at_def upd_proc_def)
qed

lemma shmat_chain_chained:
  assumes "running_at i c s" "sysvipc_shmat_chain env i s = Some (st, s')"
  shows "chained i c s s'"
  using assms socket_chained connect_chained recvmsg_chained mmap_chained
  by (auto simp: sysvipc_shmat_chain_def Let_def split: if_splits chain_state.splits)

end
