(* ===== verification/Ipc_Reachable.thy ===== *)
theory Ipc_Reachable
  imports Ipc_Stages
begin

section \<open>System V IPC: every reachable state is in order\<close>

text \<open>
  What a tracee looks like after each stage of a system call, and the invariant of the step
  relation.
\<close>

subsection \<open>Frames of the register operations\<close>

lemma poke_sysargs_status [simp]: "tr_status (poke_sysargs t args) = tr_status t"
proof -
  have "tr_status (fold (\<lambda>(r, v) t. poke_reg t r v) l u) = tr_status u" for l u
    by (induction l arbitrary: u) (auto split: prod.splits)
  then show ?thesis by (simp add: poke_sysargs_def)
qed

lemma control_frame [simp]:
  "tr_status (save_current_regs t v) = tr_status t"
  "chain_syscalls (save_current_regs t v) = chain_syscalls t"
  "restart_how (save_current_regs t v) = restart_how t"
  "tr_status (set_sysnum t n) = tr_status t" "chain_syscalls (set_sysnum t n) = chain_syscalls t"
  "restart_how (set_sysnum t n) = restart_how t"
  "tr_status (prepare_restart t) = tr_status t"
  "chain_syscalls (prepare_restart t) = chain_syscalls t"
  "chain_syscalls (enter_ppoll w t) = chain_syscalls t"
  "tr_status (enter_ppoll w t) = tr_status t"
  "restart_how (enter_ppoll w t) = PTRACE_SYSCALL"
  by (simp_all add: save_current_regs_def set_sysnum_def prepare_restart_def enter_ppoll_def Let_def)

lemma stage_status_sel [simp]:
  "chain_syscalls (stage_status st t) = chain_syscalls t"
  "restart_how t = PTRACE_SYSCALL \<Longrightarrow> tr_status (stage_status (Inr v) t) = 1"
  by (auto simp: stage_status_def Let_def split: sum.splits)

lemma restore_regs_frame:
  "chain_syscalls (fold (restore_reg ver) rs t) = chain_syscalls t \<and>
   tr_status (fold (restore_reg ver) rs t) = tr_status t"
  by (induction rs arbitrary: t) (auto simp: restore_reg_def Let_def)

lemma push_frame:
  assumes "push_specific_regs f w t = (e, t', w')"
  shows "chain_syscalls t' = chain_syscalls t" "tr_status t' = tr_status t"
  using assms restore_regs_frame
  by (auto simp: push_specific_regs_def pushed_regs_def Let_def split: if_splits prod.splits)

lemma push_at_frame:
  assumes "i < length (st_tracees s)"
  shows "config_of (push_at env i s) j = config_of s j"
    "chain_syscalls (tracee_at (push_at env i s) i) = chain_syscalls (tracee_at s i)"
    "tr_status (tracee_at (push_at env i s) i) = tr_status (tracee_at s i)"
    "others_ok i (push_at env i s) = others_ok i s" "st_ns (push_at env i s) = st_ns s"
    "length (st_tracees (push_at env i s)) = length (st_tracees s)"
  using assms push_frame
  by (auto simp: push_at_def split: prod.splits)

lemma chain_next_frame:
  assumes "chain_next_syscall t = Some t'"
  shows "tr_status t' = tr_status t" "chain_syscalls t = Some (a # l) \<Longrightarrow> chain_syscalls t' = Some l"
  using assms by (auto simp: chain_next_syscall_def Let_def split: option.splits list.splits)

subsection \<open>The entry of a system call\<close>

text \<open>Tracee \<open>i\<close> has the configuration \<open>c\<close>, and everything but its control state is in order.\<close>

definition settled :: "nat \<Rightarrow> ipc_config \<Rightarrow> 'w ipc_state \<Rightarrow> bool" where
  "settled i c s =
     (others_ok i s \<and> config_of s i = Some c \<and> cf_ns c < length (st_ns s) \<and>
      waits_ok (st_ns s ! cf_ns c) c)"

lemma settled_less: "settled i c s \<Longrightarrow> i < length (st_tracees s)"
  by (auto simp: settled_def config_of_less)

lemma ipc_ok_settled:
  "settled i c s \<Longrightarrow> control_ok (tracee_at s i) c \<Longrightarrow> ipc_ok s"
  by (auto simp: settled_def ipc_ok_def others_ok_def tracee_ok_def)

lemma settled_ipc_ok:
  assumes "ipc_ok s" "config_of s i = Some c"
  shows "settled i c s" "control_ok (tracee_at s i) c"
proof -
  have "tracee_ok s i" using assms config_of_less[OF assms(2)] by (simp add: ipc_ok_def)
  then show "settled i c s" "control_ok (tracee_at s i) c"
    using assms by (auto simp: settled_def tracee_ok_def others_ok_def ipc_ok_def)
qed

lemma settled_upd:
  assumes "settled i c s"
  shows "settled i c (upd_tracee i f s)" "quiet s s' \<Longrightarrow> settled i c s'"
    "cf_ns (g c) = cf_ns c \<Longrightarrow> waits_ok (st_ns s ! cf_ns c) (g c) \<Longrightarrow> settled i (g c) (upd_config i g s)"
  using assms settled_less[OF assms] by (auto simp: settled_def quiet_others_ok quiet_facts)

lemma settled_push: "settled i c s \<Longrightarrow> settled i c (push_at env i s)"
proof -
  assume a: "settled i c s"
  show "settled i c (push_at env i s)"
    using a push_at_frame[OF settled_less[OF a]] by (simp add: settled_def)
qed

text \<open>After the notification of a system call's entry: idle whatever happens next, or about to
  leave the system call that the extension has put in.\<close>

definition entered :: "nat \<Rightarrow> int result \<Rightarrow> 'w ipc_state \<Rightarrow> bool" where
  "entered i st s =
     (\<exists>c. settled i c s \<and> chain_syscalls (tracee_at s i) = None \<and>
       ((\<forall>t. chain_syscalls t = None \<longrightarrow> control_ok t c) \<or>
        st = Inr 1 \<and> restart_how (tracee_at s i) = PTRACE_SYSCALL \<and>
        (\<forall>t. chain_syscalls t = None \<longrightarrow> tr_status t \<noteq> 0 \<longrightarrow> control_ok t c)))"

lemma handler_handled:
  assumes "ready i s c" "ipc_handler env sysnum = Some h" "h i s = Some (st, s')"
  shows "handled i s s'"
  using assms(2,3) semget_handled[OF assms(1)] msgget_handled[OF assms(1)] shmget_handled[OF assms(1)]
    shmctl_handled[OF assms(1)] shmdt_handled[OF assms(1)] shmat_handled[OF assms(1)]
    semop_handled[OF assms(1), of env] semctl_handled[OF assms(1), of env]
    msgsnd_handled[OF assms(1), of env] msgctl_handled[OF assms(1), of env]
    msgrcv_handled[OF assms(1), of env]
  unfolding ipc_handler_def by (auto split: if_splits)

text \<open>The configuration that a handler leaves, before the three ways to finish.\<close>

lemma handledE:
  assumes "handled i s s'" "config_of s i = Some c"
  obtains c' where "settled i c' s'" "cf_wait c' = cf_wait c" "cf_ns c' = cf_ns c"
    "chain_syscalls (tracee_at s' i) = chain_syscalls (tracee_at s i)"
    "tr_status (tracee_at s' i) = tr_status (tracee_at s i)"
    "cf_reason c' = WR_NOT_WAITING \<and>
       cf_chain c' \<in> {CSTATE_NOT_CHAINED, CSTATE_SINGLE, CSTATE_SHMAT_SOCKET} \<or>
     cf_reason c' \<noteq> WR_NOT_WAITING \<and> cf_chain c' = CSTATE_NOT_CHAINED"
proof -
  obtain c' where c': "config_of s' i = Some c'" "cf_ns c' = cf_ns c" "cf_wait c' = cf_wait c"
    "cf_ns c' < length (st_ns s')" "waits_ok (st_ns s' ! cf_ns c') c'"
    "cf_reason c' = WR_NOT_WAITING \<and>
       cf_chain c' \<in> {CSTATE_NOT_CHAINED, CSTATE_SINGLE, CSTATE_SHMAT_SOCKET} \<or>
     cf_reason c' \<noteq> WR_NOT_WAITING \<and> cf_chain c' = CSTATE_NOT_CHAINED"
    using assms unfolding handled_def by auto
  have "settled i c' s'" using assms(1) c' by (simp add: settled_def handled_def)
  then show thesis using that c' assms(1) by (simp add: handled_def)
qed

lemma waits_ok_fields:
  "waits_ok ns (c\<lparr>cf_wait := w\<rparr>) = waits_ok ns c" "waits_ok ns (c\<lparr>cf_status := st\<rparr>) = waits_ok ns c"
  "waits_ok ns c \<Longrightarrow> waits_ok ns (c\<lparr>cf_chain := CSTATE_NOT_CHAINED\<rparr>)"
  by (auto simp: waits_ok_def)

text \<open>What a handler leaves for the end of \<open>sysvipc_syscall_common\<close>.\<close>

definition after_handler :: "nat \<Rightarrow> 'w ipc_state \<Rightarrow> ipc_config \<Rightarrow> 'w ipc_state \<Rightarrow> bool" where
  "after_handler i s c u =
     (settled i c u \<and> cf_wait c = WSTATE_NOT_WAITING \<and>
      chain_syscalls (tracee_at u i) = chain_syscalls (tracee_at s i) \<and>
      tr_status (tracee_at u i) = tr_status (tracee_at s i))"

lemma common_cases:
  assumes rd: "ready i s c" and w: "cf_wait c = WSTATE_NOT_WAITING"
    and h: "sysvipc_syscall_common env i sig s = Some (st, s')"
  obtains (none) "s' = s" "st = Inr 0"
  | (chained) u c' where "after_handler i s c' u" "cf_reason c' = WR_NOT_WAITING"
      "cf_chain c' \<in> {CSTATE_SINGLE, CSTATE_SHMAT_SOCKET}" "finish_chained env i sig u = Some (st, s')"
  | (waiting) u c' t where "after_handler i s c' u" "cf_reason c' \<noteq> WR_NOT_WAITING"
      "cf_chain c' = CSTATE_NOT_CHAINED" "finish_waiting env i t sig u = Some (st, s')"
  | (finished) u c' r where "after_handler i s c' u" "cf_reason c' = WR_NOT_WAITING"
      "cf_chain c' = CSTATE_NOT_CHAINED" "finish_done env i r sig u = Some (st, s')"
proof -
  have at: "config_at s i = c" "config_of s i = Some c"
    using rd ready_self[OF rd] by (simp_all add: ready_def)
  obtain sysnum where n: "get_sysnum (tracee_at s i) CURRENT = Some sysnum"
    using h at w by (auto simp: sysvipc_syscall_common_def split: option.splits)
  show thesis
  proof (cases "ipc_handler env sysnum")
    case None
    then show thesis using none h at w n by (simp add: sysvipc_syscall_common_def Let_def)
  next
    case (Some handler)
    obtain r u where u: "handler i s = Some (r, u)"
      using h at w n Some by (auto simp: sysvipc_syscall_common_def Let_def split: option.splits)
    obtain c' where c': "settled i c' u" "cf_wait c' = cf_wait c"
      "chain_syscalls (tracee_at u i) = chain_syscalls (tracee_at s i)"
      "tr_status (tracee_at u i) = tr_status (tracee_at s i)"
      "cf_reason c' = WR_NOT_WAITING \<and>
         cf_chain c' \<in> {CSTATE_NOT_CHAINED, CSTATE_SINGLE, CSTATE_SHMAT_SOCKET} \<or>
       cf_reason c' \<noteq> WR_NOT_WAITING \<and> cf_chain c' = CSTATE_NOT_CHAINED"
      by (rule handledE[OF handler_handled[OF rd Some u] at(2)])
    have cu: "config_at u i = c'" using c'(1) by (simp add: settled_def config_at_def)
    have a: "after_handler i s c' u" using c' w by (simp add: after_handler_def)
    have fin: "(if cf_chain c' \<noteq> CSTATE_NOT_CHAINED then finish_chained env i sig u
        else if cf_reason c' \<noteq> WR_NOT_WAITING
        then finish_waiting env i (if sysnum = ''semtimedop'' then sysarg s i SYSARG_4 else 0) sig u
        else finish_done env i r sig u) = Some (st, s')"
      using h at w n Some u cu by (simp add: sysvipc_syscall_common_def Let_def cong: if_cong)
    show thesis
      using c'(5) fin chained[OF a] waiting[OF a] finished[OF a] by (auto split: if_splits)
  qed
qed

lemma after_handlerD:
  assumes "after_handler i s c u"
  shows "settled i c u" "i < length (st_tracees u)" "cf_wait c = WSTATE_NOT_WAITING"
    "config_at u i = c" "chain_syscalls (tracee_at u i) = chain_syscalls (tracee_at s i)"
    "tr_status (tracee_at u i) = tr_status (tracee_at s i)"
  using assms settled_less[of i c u]
  by (auto simp: after_handler_def settled_def config_at_def)

text \<open>The configuration after a chained system call was put in.\<close>

definition unchain :: "ipc_config \<Rightarrow> ipc_config" where
  "unchain c = (if cf_chain c = CSTATE_SINGLE then c\<lparr>cf_chain := CSTATE_NOT_CHAINED\<rparr> else c)"

lemma finish_chained_settled:
  assumes a: "after_handler i s c u"
    and f: "cf_chain c \<in> {CSTATE_SINGLE, CSTATE_SHMAT_SOCKET}" "cf_reason c = WR_NOT_WAITING"
    and s: "finish_chained env i sig u = Some (st, s')"
  shows "settled i (unchain c) s'" "control_ok t (unchain c)"
    "chain_syscalls (tracee_at s' i) = chain_syscalls (tracee_at s i)"
    "tr_status (tracee_at s' i) = tr_status (tracee_at s i)"
    "\<not> sig \<Longrightarrow> st = Inr 1 \<and> restart_how (tracee_at s' i) = PTRACE_SYSCALL"
proof -
  note d = after_handlerD[OF a]
  define v where "v = set_restart_syscall i (if cf_chain c = CSTATE_SINGLE
    then upd_config i (\<lambda>c. c\<lparr>cf_chain := CSTATE_NOT_CHAINED\<rparr>) u else u)"
  have v: "settled i (unchain c) v" "chain_syscalls (tracee_at v i) = chain_syscalls (tracee_at s i)"
    "tr_status (tracee_at v i) = tr_status (tracee_at s i)" "restart_how (tracee_at v i) = PTRACE_SYSCALL"
    using d settled_upd(3)[OF d(1), of "\<lambda>c. c\<lparr>cf_chain := CSTATE_NOT_CHAINED\<rparr>"]
    by (auto simp: v_def set_restart_syscall_def unchain_def settled_upd(1) waits_ok_fields settled_def)
  have s': "s' = (if sig then restart_syscall_after_seccomp env i v else v)"
    "st = (if sig then Inr 2 else Inr 1)"
    using s f d by (auto simp: finish_chained_def Let_def v_def)
  have w: "settled i (unchain c) (upd_tracee i prepare_restart v)" by (rule settled_upd(1)[OF v(1)])
  show "settled i (unchain c) s'" "chain_syscalls (tracee_at s' i) = chain_syscalls (tracee_at s i)"
    "tr_status (tracee_at s' i) = tr_status (tracee_at s i)"
    using s' v settled_push[OF w] push_at_frame[OF settled_less[OF w]] settled_less[OF v(1)]
    by (auto simp: restart_syscall_after_seccomp_def)
  show "control_ok t (unchain c)" using f d(3) by (auto simp: control_ok_def idle_ok_def unchain_def)
  show "\<not> sig \<Longrightarrow> st = Inr 1 \<and> restart_how (tracee_at s' i) = PTRACE_SYSCALL" using s' v by simp
qed

lemma finish_waiting_settled:
  assumes a: "after_handler i s c u" and f: "finish_waiting env i w sig u = Some (st, s')"
  shows "settled i (c\<lparr>cf_wait := if sig then WSTATE_RESTARTED_INTO_PPOLL else WSTATE_ENTERED_PPOLL\<rparr>) s'"
    "chain_syscalls (tracee_at s' i) = chain_syscalls (tracee_at s i)"
    "tr_status (tracee_at s' i) = tr_status (tracee_at s i)"
    "\<not> sig \<Longrightarrow> st = Inr 1 \<and> restart_how (tracee_at s' i) = PTRACE_SYSCALL"
proof -
  note d = after_handlerD[OF a]
  let ?w = "if sig then WSTATE_RESTARTED_INTO_PPOLL else WSTATE_ENTERED_PPOLL"
  define v where "v = upd_config i (\<lambda>c. c\<lparr>cf_wait := ?w\<rparr>) (upd_tracee i (enter_ppoll w) u)"
  have v: "settled i (c\<lparr>cf_wait := ?w\<rparr>) v"
    unfolding v_def using d(1)
    by (intro settled_upd(3) settled_upd(1)) (auto simp: waits_ok_fields settled_def)
  have t: "chain_syscalls (tracee_at v i) = chain_syscalls (tracee_at s i)"
    "tr_status (tracee_at v i) = tr_status (tracee_at s i)" "restart_how (tracee_at v i) = PTRACE_SYSCALL"
    using d by (simp_all add: v_def)
  have s': "s' = (if sig then restart_syscall_after_seccomp env i v else v)"
    "st = (if sig then Inr 2 else Inr 1)"
    using f by (auto simp: finish_waiting_def Let_def v_def)
  have w: "settled i (c\<lparr>cf_wait := ?w\<rparr>) (upd_tracee i prepare_restart v)" by (rule settled_upd(1)[OF v])
  show "settled i (c\<lparr>cf_wait := ?w\<rparr>) s'"
    "chain_syscalls (tracee_at s' i) = chain_syscalls (tracee_at s i)"
    "tr_status (tracee_at s' i) = tr_status (tracee_at s i)"
    using s' v t settled_push[OF w] push_at_frame[OF settled_less[OF w]] settled_less[OF v]
    by (auto simp: restart_syscall_after_seccomp_def)
  show "\<not> sig \<Longrightarrow> st = Inr 1 \<and> restart_how (tracee_at s' i) = PTRACE_SYSCALL" using s' t by simp
qed

lemma common_entered:
  assumes rd: "ready i s c" and c: "cf_wait c = WSTATE_NOT_WAITING" "chain_syscalls (tracee_at s i) = None"
    and h: "sysvipc_syscall_common env i False s = Some (st, s')"
  shows "entered i st s'"
proof (cases rule: common_cases[OF rd c(1) h])
  case 1
  have "settled i c s" using rd by (simp add: settled_def ready_def waits_ok_def)
  then show ?thesis
    using 1 rd c by (auto simp: entered_def control_ok_def idle_ok_def ready_def intro!: exI[of _ c])
next
  case (2 u c')
  then show ?thesis
    using finish_chained_settled[OF 2(1,3,2,4)] c(2) by (auto simp: entered_def)
next
  case (3 u c' t)
  note f = finish_waiting_settled[OF 3(1,4)] and d = after_handlerD[OF 3(1)]
  show ?thesis
    using 3 c(2) f d unfolding entered_def
    by (intro exI[of _ "c'\<lparr>cf_wait := WSTATE_ENTERED_PPOLL\<rparr>"]) (auto simp: control_ok_def blocked_ok_def)
next
  case (4 u c' r)
  note d = after_handlerD[OF 4(1)]
  let ?g = "\<lambda>c. c\<lparr>cf_status := r, cf_wait := WSTATE_ENTERED_GETPID\<rparr>"
  have s: "s' = set_restart_syscall i (upd_tracee i (\<lambda>t. set_sysnum t ''getpid'') (upd_config i ?g u))"
    "st = Inr 1"
    using 4 by (simp_all add: finish_done_def Let_def)
  have "settled i (?g c') s'"
    unfolding s(1) set_restart_syscall_def using d(1)
    by (intro settled_upd(1) settled_upd(3)) (auto simp: waits_ok_fields settled_def)
  then show ?thesis
    using 4 d c(2) s unfolding entered_def
    by (intro exI[of _ "?g c'"]) (auto simp: control_ok_def set_restart_syscall_def)
qed

lemma sigsys_settled:
  assumes rd: "ready i s c" and c: "cf_wait c = WSTATE_NOT_WAITING" "chain_syscalls (tracee_at s i) = None"
    "tr_status (tracee_at s i) = 0"
    and h: "sysvipc_syscall_common env i True s = Some (st, s')"
  shows "\<exists>c'. settled i c' s' \<and> control_ok (tracee_at s' i) c'"
proof (cases rule: common_cases[OF rd c(1) h])
  case 1
  have "settled i c s" using rd by (simp add: settled_def ready_def waits_ok_def)
  then show ?thesis using 1 rd c by (auto simp: control_ok_def idle_ok_def ready_def intro!: exI[of _ c])
next
  case (2 u c')
  then show ?thesis using finish_chained_settled[OF 2(1,3,2,4)] by blast
next
  case (3 u c' t)
  note f = finish_waiting_settled[OF 3(1,4)]
  show ?thesis
    using 3 c(2,3) f
    by (intro exI[of _ "c'\<lparr>cf_wait := WSTATE_RESTARTED_INTO_PPOLL\<rparr>"])
      (auto simp: control_ok_def blocked_ok_def)
next
  case (4 u c' r)
  note d = after_handlerD[OF 4(1)]
  have s': "s' = set_result_after_seccomp env i (status_int r) u"
    using 4 by (simp add: finish_done_def)
  have "settled i c' s'"
    unfolding s' set_result_after_seccomp_def Let_def
    by (intro settled_upd(1) settled_push d(1))
  then show ?thesis using 4 d by (auto simp: control_ok_def idle_ok_def intro!: exI[of _ c'])
qed

end
