(* ===== verification/Ipc_Safety.thy ===== *)
theory Ipc_Safety
  imports Ipc_Reachable
begin

section \<open>System V IPC: the invariant of the step relation\<close>

text \<open>
  Each event of a tracee, and the coming and going of tracees, keep \<open>ipc_ok\<close>; hence every reachable
  state satisfies it.
\<close>

subsection \<open>Entering\<close>

lemma ready_settled:
  "settled i c s \<Longrightarrow> cf_reason c = WR_NOT_WAITING \<Longrightarrow> cf_chain c = CSTATE_NOT_CHAINED \<Longrightarrow> ready i s c"
  by (simp add: settled_def ready_def)

lemma settled_mid: "settled i c s \<Longrightarrow> mid i c s s"
  by (simp add: settled_def mid_def)

lemma status_after_wait_settled:
  assumes s: "settled i c s" and c: "cf_reason c = WR_NOT_WAITING"
    "cf_chain c \<in> {CSTATE_NOT_CHAINED, CSTATE_MSGRCV_RETRY}"
    and w: "status_after_wait env i s = Some (r, s')"
  shows "\<exists>c'. settled i c' s' \<and> cf_reason c' = WR_NOT_WAITING \<and> cf_chain c' = CSTATE_NOT_CHAINED \<and>
    cf_wait c' = cf_wait c \<and> chain_syscalls (tracee_at s' i) = chain_syscalls (tracee_at s i)"
proof -
  have at: "config_at s i = c" using s by (simp add: settled_def config_at_def)
  show ?thesis
  proof (cases "cf_chain c = CSTATE_MSGRCV_RETRY")
    case True
    have n: "cf_ns c < length (st_ns s)" "waits_ok (st_ns s ! cf_ns c) c" using s by (simp_all add: settled_def)
    have "sysvipc_msgrcv_retry env i s = Some (r, s')"
      using w True at by (simp add: status_after_wait_def)
    from msgrcv_retry_mid(2)[OF settled_mid[OF s] True c(1) n this] obtain k where
      m: "mid i (c\<lparr>cf_chain := CSTATE_NOT_CHAINED, cf_index := k\<rparr>) s s'" by blast
    then show ?thesis
      using c n by (intro exI[of _ "c\<lparr>cf_chain := CSTATE_NOT_CHAINED, cf_index := k\<rparr>"])
        (auto simp: mid_def settled_def waits_ok_def)
  next
    case False
    then have "s' = s" using w at by (simp add: status_after_wait_def)
    then show ?thesis using s c False by blast
  qed
qed

lemma set_wait_settled: "settled i c s \<Longrightarrow> settled i (c\<lparr>cf_wait := w\<rparr>) (set_wait i w s)"
  unfolding set_wait_def by (rule settled_upd(3)) (auto simp: settled_def waits_ok_fields)

lemma settled_at: "settled i c s \<Longrightarrow> config_at s i = c"
  by (simp add: settled_def config_at_def)

lemma enter_start_entered:
  assumes s: "settled i c s" and k: "control_ok t c" "chain_syscalls t = None" "tr_status t = 0"
    and t: "chain_syscalls (tracee_at s i) = None"
    and sock: "cf_chain c = CSTATE_SHMAT_SOCKET \<Longrightarrow> cf_wait c = WSTATE_NOT_WAITING \<Longrightarrow>
      get_sysnum (tracee_at s i) CURRENT = Some ''socket''"
    and e: "syscall_enter_start env i s = Some (st, s')"
  shows "entered i st s'"
proof (cases "cf_wait c")
  case WSTATE_NOT_WAITING
  have c: "cf_reason c = WR_NOT_WAITING" "cf_chain c = CSTATE_NOT_CHAINED \<or> cf_chain c = CSTATE_SHMAT_SOCKET"
    using k WSTATE_NOT_WAITING by (auto simp: control_ok_def idle_ok_def)
  have e': "sysvipc_syscall_common env i False s = Some (st, s')"
    using e WSTATE_NOT_WAITING settled_at[OF s] by (simp add: syscall_enter_start_def)
  show ?thesis
  proof (cases "cf_chain c = CSTATE_SHMAT_SOCKET")
    case True
    then have "st = Inr 0" "s' = s"
      using e' sock WSTATE_NOT_WAITING settled_at[OF s]
      by (auto simp: sysvipc_syscall_common_def Let_def ipc_handler_def)
    then show ?thesis
      using s t True c WSTATE_NOT_WAITING
      by (auto simp: entered_def control_ok_def idle_ok_def intro!: exI[of _ c])
  next
    case False
    then show ?thesis
      using c common_entered[OF ready_settled[OF s c(1)] WSTATE_NOT_WAITING t e'] by auto
  qed
next
  case WSTATE_RESTARTED_INTO_PPOLL
  have b: "blocked_ok t c" using k WSTATE_RESTARTED_INTO_PPOLL by (simp add: control_ok_def)
  have "st = Inr 1" "s' = set_restart_syscall i (set_wait i WSTATE_ENTERED_PPOLL s)"
    using e WSTATE_RESTARTED_INTO_PPOLL settled_at[OF s]
    by (auto simp: syscall_enter_start_def split: if_splits)
  then show ?thesis
    using b t set_wait_settled[OF s, of WSTATE_ENTERED_PPOLL] settled_less[OF s] unfolding entered_def
    by (intro exI[of _ "c\<lparr>cf_wait := WSTATE_ENTERED_PPOLL\<rparr>"])
      (auto simp: set_restart_syscall_def settled_upd(1) control_ok_def blocked_ok_def set_wait_def)
next
  case WSTATE_RESTARTED_INTO_PPOLL_CANCELED
  have b: "cf_reason c = WR_NOT_WAITING" "cf_chain c \<in> {CSTATE_NOT_CHAINED, CSTATE_MSGRCV_RETRY}"
    using k WSTATE_RESTARTED_INTO_PPOLL_CANCELED by (auto simp: control_ok_def woken_ok_def)
  obtain r u where u: "status_after_wait env i s = Some (r, u)"
    "s' = set_wait i WSTATE_NOT_WAITING (upd_tracee i (\<lambda>t. set_sysnum t PR_void) (poke_status i r u))"
    using e WSTATE_RESTARTED_INTO_PPOLL_CANCELED settled_at[OF s]
    by (auto simp: syscall_enter_start_def split: option.splits)
  obtain c' where c': "settled i c' u" "cf_reason c' = WR_NOT_WAITING" "cf_chain c' = CSTATE_NOT_CHAINED"
    "chain_syscalls (tracee_at u i) = None"
    using status_after_wait_settled[OF s b u(1)] t by auto
  have "settled i (c'\<lparr>cf_wait := WSTATE_NOT_WAITING\<rparr>) s'"
    unfolding u(2) poke_status_def by (intro set_wait_settled settled_upd(1) c'(1))
  then show ?thesis
    using c' u(2) settled_less[OF c'(1)] unfolding entered_def
    by (intro exI[of _ "c'\<lparr>cf_wait := WSTATE_NOT_WAITING\<rparr>"])
      (auto simp: control_ok_def idle_ok_def poke_status_def set_wait_def)
qed (use e settled_at[OF s] in \<open>simp_all add: syscall_enter_start_def\<close>)

lemma fetch_regs_settled:
  assumes "settled i c s" shows "settled i c (fetch_regs_at i bank how s)"
    "chain_syscalls (tracee_at (fetch_regs_at i bank how s) i) = chain_syscalls (tracee_at s i)"
    "tr_status (tracee_at (fetch_regs_at i bank how s) i) = tr_status (tracee_at s i)"
  unfolding fetch_regs_at_def using settled_upd(1)[OF assms] settled_less[OF assms] by auto

lemma get_sysnum_cong:
  "regs t ver = regs u ver \<Longrightarrow> regs t CURRENT = regs u CURRENT \<Longrightarrow> get_abi t = get_abi u \<Longrightarrow>
     get_sysnum t ver = get_sysnum u ver"
  by (simp add: get_sysnum_def peek_reg_def is_32on64_mode_def Let_def)

lemma enter_stage_ok:
  assumes ok: "ipc_ok s" and c: "config_of s i = Some c" and st: "tr_status (tracee_at s i) = 0"
    and sock: "resumes_socket i (upd_tracee i (\<lambda>t. save_current_regs t ORIGINAL) (fetch_regs_at i bank how s))"
    and e: "enter_stage env i bank how tst s = Some s'"
  shows "ipc_ok s'"
proof -
  note s = settled_ipc_ok[OF ok c]
  define u where "u = upd_tracee i (\<lambda>t. t\<lparr>restore_original_regs := False\<rparr>) (fetch_regs_at i bank how s)"
  note f = fetch_regs_settled[OF s(1), of bank how]
  have u: "settled i c u" "chain_syscalls (tracee_at u i) = chain_syscalls (tracee_at s i)"
    "tr_status (tracee_at u i) = 0"
    using settled_upd(1)[OF f(1)] f settled_less[OF f(1)] st by (auto simp: u_def)
  show ?thesis
  proof (cases "chain_syscalls (tracee_at s i)")
    case None
    let ?v = "upd_tracee i (\<lambda>t. save_current_regs t ORIGINAL) u"
    let ?w = "upd_tracee i (\<lambda>t. save_current_regs t ORIGINAL) (fetch_regs_at i bank how s)"
    have v: "settled i c ?v" by (rule settled_upd(1)[OF u(1)])
    obtain r x where r: "syscall_enter_start env i ?v = Some (r, x)"
      using e None u(2) by (auto simp: enter_stage_def Let_def u_def split: option.splits)
    have "get_sysnum (tracee_at ?v i) CURRENT = get_sysnum (tracee_at ?w i) CURRENT"
      using settled_less[OF u(1)] settled_less[OF f(1)]
      by (intro get_sysnum_cong) (auto simp: u_def get_abi_def)
    moreover have "chain_syscalls (tracee_at ?w i) = None" "config_at ?w i = c"
      using f(2) None settled_less[OF f(1)] settled_at[OF settled_upd(1)[OF f(1)]] by auto
    ultimately have sk: "cf_chain c = CSTATE_SHMAT_SOCKET \<Longrightarrow>
        get_sysnum (tracee_at ?v i) CURRENT = Some ''socket''"
      using sock by (simp add: resumes_socket_def)
    have tv: "chain_syscalls (tracee_at ?v i) = None"
      using u(2) None settled_less[OF u(1)] by simp
    have en: "entered i r x"
      using enter_start_entered[OF v s(2) None st tv _ r] sk by blast
    obtain r' y where y: "(if r = Inr 0
        then map_option (\<lambda>(_, s). (tst, s)) (syscall_enter_end env i (status_int tst) x)
        else Some (r, x)) = Some (r', y)"
      "s' = upd_tracee i (stage_status r') (upd_tracee i (\<lambda>t. save_current_regs t MODIFIED) y)"
      using e None u(2) r
      by (auto simp: enter_stage_def Let_def u_def split: option.splits prod.splits if_splits)
    have q: "quiet x y" "r \<noteq> Inr 0 \<Longrightarrow> r' = r"
      using y(1) remove_mappings_quiet
      by (auto simp: syscall_enter_end_def split: if_splits)
    obtain c' where c': "settled i c' x" "chain_syscalls (tracee_at x i) = None"
      "(\<forall>t. chain_syscalls t = None \<longrightarrow> control_ok t c') \<or>
       r = Inr 1 \<and> restart_how (tracee_at x i) = PTRACE_SYSCALL \<and>
       (\<forall>t. chain_syscalls t = None \<longrightarrow> tr_status t \<noteq> 0 \<longrightarrow> control_ok t c')"
      using en unfolding entered_def by blast
    have "settled i c' s'" unfolding y(2) by (intro settled_upd(1) settled_upd(2)[OF c'(1) q(1)])
    moreover have "control_ok (tracee_at s' i) c'"
      using c'(2,3) q settled_less[OF c'(1)] unfolding y(2) by (auto simp: quiet_facts)
    ultimately show ?thesis by (rule ipc_ok_settled)
  next
    case (Some queue)
    obtain r x where x: "syscall_chained_enter i u = Some (r, x)"
      "s' = upd_tracee i (stage_status r) (set_restart_syscall i x)"
      using e Some u(2) by (auto simp: enter_stage_def Let_def u_def split: option.splits)
    have "\<exists>c'. settled i c' s' \<and> control_ok (tracee_at s' i) c'"
    proof (cases "cf_wait c")
      case WSTATE_NOT_WAITING
      then have "x = u" using x(1) settled_at[OF u(1)] by (simp add: syscall_chained_enter_def)
      then have "settled i c s'" unfolding x(2) set_restart_syscall_def by (simp add: settled_upd(1) u(1))
      moreover have "control_ok (tracee_at s' i) c"
        using s(2) Some WSTATE_NOT_WAITING u settled_less[OF u(1)] \<open>x = u\<close> unfolding x(2)
        by (auto simp: control_ok_def idle_ok_def set_restart_syscall_def)
      ultimately show ?thesis by blast
    next
      case WSTATE_RESTARTED_INTO_PPOLL_CANCELED
      then have xs: "x = set_wait i WSTATE_SIGNALED_PPOLL (upd_tracee i (\<lambda>t. poke_reg t SYSARG_3 1) u)"
        "r = Inr 0"
        using x(1) settled_at[OF u(1)] by (auto simp: syscall_chained_enter_def)
      let ?c = "c\<lparr>cf_wait := WSTATE_SIGNALED_PPOLL\<rparr>"
      have "settled i ?c s'"
        unfolding x(2) set_restart_syscall_def xs
        by (intro settled_upd(1) set_wait_settled u(1))
      moreover have "control_ok (tracee_at s' i) ?c"
        using s(2) Some WSTATE_RESTARTED_INTO_PPOLL_CANCELED u settled_less[OF u(1)] unfolding x(2) xs
        by (auto simp: control_ok_def woken_ok_def set_restart_syscall_def set_wait_def)
      ultimately show ?thesis by blast
    qed (use x(1) settled_at[OF u(1)] in \<open>simp_all add: syscall_chained_enter_def\<close>)
    then show ?thesis using ipc_ok_settled by blast
  qed
qed

subsection \<open>Leaving\<close>

text \<open>Tracee \<open>i\<close> is not waiting any more, or goes on with the chain of \<open>shmat\<close>.\<close>

definition left_ok :: "nat \<Rightarrow> 'w ipc_state \<Rightarrow> bool" where
  "left_ok i s =
     (\<exists>c. settled i c s \<and> cf_wait c = WSTATE_NOT_WAITING \<and> cf_reason c = WR_NOT_WAITING \<and>
       (cf_chain c \<in> {CSTATE_NOT_CHAINED, CSTATE_SHMAT_SOCKET} \<or>
        cf_chain c \<in> {CSTATE_SHMAT_CONNECT, CSTATE_SHMAT_RECVMSG, CSTATE_SHMAT_MMAP} \<and>
        (\<exists>a l. chain_syscalls (tracee_at s i) = Some (a # l))))"

lemma left_chain:
  assumes s: "settled i c s" "cf_wait c = WSTATE_NOT_WAITING" "cf_reason c = WR_NOT_WAITING"
    and h: "sysvipc_shmat_chain env i s = Some (r, s')"
  shows "left_ok i s'"
proof -
  have "running_at i c s" using s by (simp add: running_at_def settled_def)
  from shmat_chain_chained[OF this h] obtain c' where
    c': "length (st_ns s') = length (st_ns s)" "running_at i c' s'" "cf_ns c' = cf_ns c"
    "cf_wait c' = cf_wait c"
    "cf_chain c' = CSTATE_NOT_CHAINED \<or>
     cf_chain c' \<in> {CSTATE_SHMAT_CONNECT, CSTATE_SHMAT_RECVMSG, CSTATE_SHMAT_MMAP} \<and>
     (\<exists>a l. chain_syscalls (tracee_at s' i) = Some (a # l))"
    unfolding chained_def by auto
  have "settled i c' s'" using c' s(1) by (auto simp: settled_def running_at_def waits_ok_def)
  then show ?thesis using c' s unfolding left_ok_def by (auto simp: running_at_def intro!: exI[of _ c'])
qed

lemma exit_start_left:
  assumes s: "settled i c s" and k: "control_ok t c" "tr_status t \<noteq> 0" "chain_syscalls t = None"
    and e: "syscall_exit_start env i s = Some (st, s')"
  shows "left_ok i s'"
proof (cases "in_shmat_chain (cf_chain c)")
  case True
  then have sc: "cf_chain c = CSTATE_SHMAT_SOCKET" "sysvipc_shmat_chain env i s = Some (st, s')"
    using e settled_at[OF s] by (auto simp: syscall_exit_start_def split: if_splits)
  have "cf_wait c = WSTATE_NOT_WAITING" "cf_reason c = WR_NOT_WAITING"
    using k sc(1)
    by (auto simp: control_ok_def idle_ok_def blocked_ok_def woken_ok_def split: wait_state.splits)
  then show ?thesis by (rule left_chain[OF s _ _ sc(2)])
next
  case False
  have n: "config_at s i = c" by (rule settled_at[OF s])
  show ?thesis
  proof (cases "cf_wait c")
    case WSTATE_NOT_WAITING
    then have "s' = s" using e n False by (simp add: syscall_exit_start_def)
    then show ?thesis
      using s k False WSTATE_NOT_WAITING
      by (auto simp: left_ok_def control_ok_def idle_ok_def in_shmat_chain_def intro!: exI[of _ c])
  next
    case WSTATE_ENTERED_PPOLL
    have b: "cf_reason c \<noteq> WR_NOT_WAITING" "cf_chain c = CSTATE_NOT_CHAINED"
      using k WSTATE_ENTERED_PPOLL by (auto simp: control_ok_def blocked_ok_def)
    let ?g = "\<lambda>c. if cf_reason c = WR_WAIT_SEMOP then c\<lparr>cf_reason := WR_NOT_WAITING, cf_sops := []\<rparr>
      else c\<lparr>cf_reason := WR_NOT_WAITING\<rparr>"
    let ?u = "set_wait i WSTATE_NOT_WAITING s"
    let ?c = "c\<lparr>cf_wait := WSTATE_NOT_WAITING\<rparr>"
    have u: "settled i ?c ?u" by (rule set_wait_settled[OF s])
    have s': "s' = (if cf_reason ?c = WR_WAIT_SEMOP then sysvipc_semop_timedout i ?u
        else upd_config i (\<lambda>c. c\<lparr>cf_reason := WR_NOT_WAITING\<rparr>) ?u)"
      using e n False WSTATE_ENTERED_PPOLL b(1) settled_at[OF u]
      by (auto simp: syscall_exit_start_def ppoll_exit_def Let_def split: if_splits)
    have "\<exists>c'. settled i c' s' \<and> cf_wait c' = WSTATE_NOT_WAITING \<and> cf_reason c' = WR_NOT_WAITING \<and>
        cf_chain c' = CSTATE_NOT_CHAINED"
      unfolding s' using u b
      by (auto simp: sysvipc_semop_timedout_def free_sops_def settled_def waits_ok_def)
    then show ?thesis unfolding left_ok_def by blast
  next
    case WSTATE_SIGNALED_PPOLL
    have b: "cf_reason c = WR_NOT_WAITING" "cf_chain c \<in> {CSTATE_NOT_CHAINED, CSTATE_MSGRCV_RETRY}"
      using k WSTATE_SIGNALED_PPOLL by (auto simp: control_ok_def woken_ok_def)
    obtain r u where u: "status_after_wait env i (set_wait i WSTATE_NOT_WAITING s) = Some (r, u)"
      "s' = poke_status i r u"
      using e n False WSTATE_SIGNALED_PPOLL b(1)
      by (auto simp: syscall_exit_start_def split: option.splits)
    obtain c' where "settled i c' u" "cf_reason c' = WR_NOT_WAITING" "cf_chain c' = CSTATE_NOT_CHAINED"
      "cf_wait c' = WSTATE_NOT_WAITING"
      using status_after_wait_settled[OF set_wait_settled[OF s] _ _ u(1)] b by auto
    then show ?thesis
      unfolding left_ok_def u(2) poke_status_def using settled_upd(1) by blast
  next
    case WSTATE_ENTERED_GETPID
    have b: "cf_reason c = WR_NOT_WAITING" "cf_chain c \<in> {CSTATE_NOT_CHAINED, CSTATE_MSGRCV_RETRY}"
      using k WSTATE_ENTERED_GETPID by (auto simp: control_ok_def)
    obtain r u where u: "status_after_wait env i (set_wait i WSTATE_NOT_WAITING s) = Some (r, u)"
      "s' = poke_status i r u"
      using e n False WSTATE_ENTERED_GETPID b(1)
      by (auto simp: syscall_exit_start_def split: option.splits)
    obtain c' where "settled i c' u" "cf_reason c' = WR_NOT_WAITING" "cf_chain c' = CSTATE_NOT_CHAINED"
      "cf_wait c' = WSTATE_NOT_WAITING"
      using status_after_wait_settled[OF set_wait_settled[OF s] _ _ u(1)] b by auto
    then show ?thesis
      unfolding left_ok_def u(2) poke_status_def using settled_upd(1) by blast
  qed (use e n False in \<open>simp_all add: syscall_exit_start_def\<close>)
qed

lemma chained_exit_left:
  assumes s: "settled i c s" and k: "control_ok t c" "chain_syscalls t = Some queue"
    and t: "chain_syscalls (tracee_at s i) = Some queue"
    and e: "syscall_chained_exit env i s = Some (st, s')"
  shows "left_ok i s'"
proof (cases "cf_wait c")
  case WSTATE_NOT_WAITING
  have r: "cf_reason c = WR_NOT_WAITING" using k WSTATE_NOT_WAITING by (simp add: control_ok_def idle_ok_def)
  show ?thesis
  proof (cases "in_shmat_chain (cf_chain c)")
    case True
    then obtain x where "sysvipc_shmat_chain env i s = Some (x, s')"
      using e WSTATE_NOT_WAITING settled_at[OF s]
      by (auto simp: syscall_chained_exit_def split: option.splits)
    then show ?thesis by (rule left_chain[OF s WSTATE_NOT_WAITING r])
  next
    case False
    then have "s' = s" using e WSTATE_NOT_WAITING settled_at[OF s] by (simp add: syscall_chained_exit_def)
    then show ?thesis
      using s k False WSTATE_NOT_WAITING r
      by (auto simp: left_ok_def control_ok_def idle_ok_def in_shmat_chain_def intro!: exI[of _ c])
  qed
next
  case WSTATE_SIGNALED_PPOLL
  then have "s' = set_wait i WSTATE_NOT_WAITING s"
    using e settled_at[OF s] by (simp add: syscall_chained_exit_def)
  moreover have "cf_reason c = WR_NOT_WAITING" "cf_chain c = CSTATE_SHMAT_SOCKET"
    using k WSTATE_SIGNALED_PPOLL by (auto simp: control_ok_def woken_ok_def)
  ultimately show ?thesis
    using set_wait_settled[OF s, of WSTATE_NOT_WAITING] unfolding left_ok_def
    by (intro exI[of _ "c\<lparr>cf_wait := WSTATE_NOT_WAITING\<rparr>"]) simp
qed (use e settled_at[OF s] in \<open>simp_all add: syscall_chained_exit_def\<close>)

lemma exit_stage_ok:
  assumes ok: "ipc_ok s" and c: "config_of s i = Some c" and st: "tr_status (tracee_at s i) \<noteq> 0"
    and e: "exit_stage env i bank how s = Some s'"
  shows "ipc_ok s'"
proof -
  note s = settled_ipc_ok[OF ok c]
  define u where "u = upd_tracee i (\<lambda>t. t\<lparr>restore_original_regs := True\<rparr>) (fetch_regs_at i bank how s)"
  note f = fetch_regs_settled[OF s(1), of bank how]
  have u: "settled i c u" "chain_syscalls (tracee_at u i) = chain_syscalls (tracee_at s i)"
    using settled_upd(1)[OF f(1)] f settled_less[OF f(1)] by (auto simp: u_def)
  obtain v where v: "left_ok i v"
    "(if chain_syscalls (tracee_at (upd_tracee i (\<lambda>t. t\<lparr>tr_status := 0\<rparr>) v) i) = None
      then Some (upd_tracee i (\<lambda>t. t\<lparr>tr_status := 0\<rparr>) v)
      else map_option (\<lambda>t. upd_tracee i (\<lambda>_. t) (upd_tracee i (\<lambda>t. t\<lparr>tr_status := 0\<rparr>) v))
        (chain_next_syscall (tracee_at (upd_tracee i (\<lambda>t. t\<lparr>tr_status := 0\<rparr>) v) i))) = Some s'"
  proof (cases "chain_syscalls (tracee_at s i)")
    case None
    obtain r x where x: "syscall_exit_start env i u = Some (r, x)"
      using e None u(2) by (auto simp: exit_stage_def Let_def u_def split: option.splits)
    have l: "left_ok i x" by (rule exit_start_left[OF u(1) s(2) st None x])
    have "left_ok i (poke_status i r x)"
      using l settled_upd(1) settled_less unfolding left_ok_def poke_status_def by fastforce
    then show thesis
      using that[of x] that[of "poke_status i r x"] l e None u(2) x
      by (cases r) (auto simp: exit_stage_def Let_def u_def)
  next
    case (Some queue)
    obtain r x where x: "syscall_chained_exit env i u = Some (r, x)"
      using e Some u(2) by (auto simp: exit_stage_def Let_def u_def split: option.splits)
    have "left_ok i x" by (rule chained_exit_left[OF u(1) s(2) Some _ x]) (use u(2) Some in simp)
    then show thesis
      using that[of x] e Some u(2) x by (auto simp: exit_stage_def Let_def u_def)
  qed
  obtain c' where c': "settled i c' v" "cf_wait c' = WSTATE_NOT_WAITING" "cf_reason c' = WR_NOT_WAITING"
    "cf_chain c' \<in> {CSTATE_NOT_CHAINED, CSTATE_SHMAT_SOCKET} \<or>
     cf_chain c' \<in> {CSTATE_SHMAT_CONNECT, CSTATE_SHMAT_RECVMSG, CSTATE_SHMAT_MMAP} \<and>
     (\<exists>a l. chain_syscalls (tracee_at v i) = Some (a # l))"
    using v(1) unfolding left_ok_def by blast
  let ?v = "upd_tracee i (\<lambda>t. t\<lparr>tr_status := 0\<rparr>) v"
  note less = settled_less[OF c'(1)]
  have sv: "settled i c' ?v" by (rule settled_upd(1)[OF c'(1)])
  show ?thesis
  proof (cases "chain_syscalls (tracee_at ?v i)")
    case None
    then have "s' = ?v" using v(2) by simp
    moreover have "control_ok (tracee_at ?v i) c'"
      using c' None less by (auto simp: control_ok_def idle_ok_def)
    ultimately show ?thesis using ipc_ok_settled[OF sv] by simp
  next
    case (Some q)
    then obtain t' where t': "chain_next_syscall (tracee_at ?v i) = Some t'" "s' = upd_tracee i (\<lambda>_. t') ?v"
      using v(2) by auto
    have "settled i c' s'" unfolding t'(2) by (rule settled_upd(1)[OF sv])
    moreover have "control_ok (tracee_at s' i) c'"
      using c' chain_next_frame[OF t'(1)] less unfolding t'(2)
      by (auto simp: control_ok_def idle_ok_def)
    ultimately show ?thesis by (rule ipc_ok_settled)
  qed
qed

lemma sigsys_stage_ok:
  assumes ok: "ipc_ok s" and c: "config_of s i = Some c" and st: "tr_status (tracee_at s i) = 0"
    "chain_syscalls (tracee_at s i) = None" "cf_wait c = WSTATE_NOT_WAITING"
    and sock: "resumes_socket i (fetch_regs_at i bank how s)"
    and e: "sigsys_stage env i bank how s = Some s'"
  shows "ipc_ok s'"
proof -
  note s = settled_ipc_ok[OF ok c]
  define u where "u = upd_tracee i (\<lambda>t. t\<lparr>restore_original_regs := False\<rparr>) (fetch_regs_at i bank how s)"
  note f = fetch_regs_settled[OF s(1), of bank how]
  have u: "settled i c u" "chain_syscalls (tracee_at u i) = None" "tr_status (tracee_at u i) = 0"
    using settled_upd(1)[OF f(1)] f settled_less[OF f(1)] st by (auto simp: u_def)
  have id: "cf_reason c = WR_NOT_WAITING" "cf_chain c = CSTATE_NOT_CHAINED \<or> cf_chain c = CSTATE_SHMAT_SOCKET"
    using s(2) st by (auto simp: control_ok_def idle_ok_def)
  obtain r where r: "sysvipc_syscall_common env i True u = Some (r, s')"
    using e by (auto simp: sigsys_stage_def sigsys_occ_def u_def)
  have "\<exists>c'. settled i c' s' \<and> control_ok (tracee_at s' i) c'"
  proof (cases "cf_chain c = CSTATE_SHMAT_SOCKET")
    case True
    have "get_sysnum (tracee_at u i) CURRENT = get_sysnum (tracee_at (fetch_regs_at i bank how s) i) CURRENT"
      using settled_less[OF f(1)] by (intro get_sysnum_cong) (auto simp: u_def get_abi_def)
    then have "get_sysnum (tracee_at u i) CURRENT = Some ''socket''"
      using sock True settled_at[OF f(1)] f(2) st(2) by (simp add: resumes_socket_def)
    then have "s' = u"
      using r st(3) settled_at[OF u(1)] by (simp add: sysvipc_syscall_common_def Let_def ipc_handler_def)
    then show ?thesis
      using u st(3) id(1) True by (auto simp: control_ok_def idle_ok_def intro!: exI[of _ c])
  next
    case False
    then have "ready i u c" using id by (intro ready_settled u(1)) auto
    from sigsys_settled[OF this st(3) u(2,3) r] show ?thesis .
  qed
  then show ?thesis using ipc_ok_settled by blast
qed

subsection \<open>Tracees come and go\<close>

text \<open>The invariant, as a property of the list of tracees.\<close>

definition fine :: "ipc_ns list \<Rightarrow> ipc_tracee \<Rightarrow> bool" where
  "fine nss t =
     (case it_config t of
        None \<Rightarrow> True
      | Some c \<Rightarrow> cf_ns c < length nss \<and> waits_ok (nss ! cf_ns c) c \<and> control_ok (it_tracee t) c)"

lemma ipc_ok_list: "ipc_ok s = (list_all ns_ok (st_ns s) \<and> list_all (fine (st_ns s)) (st_tracees s))"
  by (auto simp: ipc_ok_def list_all_length tracee_ok_def fine_def config_of_def tracee_at_def
      split: option.splits)

lemma quiet_ipc_ok: "quiet s s' \<Longrightarrow> ipc_ok s' = ipc_ok s"
  by (auto simp: ipc_ok_def list_all_length quiet_facts quiet_tracee_ok)

lemma fine_append: "fine nss t \<Longrightarrow> fine (nss @ x) t"
  by (auto simp: fine_def nth_append split: option.splits)

lemma fine_new_config:
  "n < length nss \<Longrightarrow> fine nss \<lparr>it_tracee = t, it_config = Some (new_config n p)\<rparr>"
  by (simp add: fine_def new_config_def waits_ok_def control_ok_def idle_ok_def)

lemma list_all_update: "list_all p xs \<Longrightarrow> p x \<Longrightarrow> list_all p (xs[i := x])"
  by (auto simp: list_all_iff dest: set_update_subset_insert[THEN subsetD])

lemma initialization_ok:
  assumes "ipc_ok s" "i < length (st_tracees s)"
  shows "ipc_ok (initialization i s)"
proof -
  let ?ns = "\<lparr>ns_queues = [], ns_semaphores = [], ns_shms = []\<rparr>"
  have ns: "ns_ok ?ns" by (simp add: ns_ok_def)
  have all: "list_all (fine (st_ns s @ [?ns])) (st_tracees s)"
    using assms(1) by (auto simp: ipc_ok_list fine_append list_all_iff)
  have new: "fine (st_ns s @ [?ns])
      ((st_tracees s ! i)\<lparr>it_config := Some (new_config (length (st_ns s)) (length (st_procs s)))\<rparr>)"
    using fine_new_config[of "length (st_ns s)" "st_ns s @ [?ns]"] by (cases "st_tracees s ! i") simp
  show ?thesis
    using assms(1) ns list_all_update[OF all new]
    by (simp add: initialization_def Let_def ipc_ok_list)
qed

lemma fork_ok:
  assumes ok: "ipc_ok s" and c: "config_of s parent = Some c"
  shows "ipc_ok (fork_tracee parent clone_thread t s)"
proof -
  let ?s = "s\<lparr>st_tracees := \<lparr>it_tracee = t, it_config = None\<rparr> # st_tracees s\<rparr>"
  have at: "config_at ?s (Suc parent) = c"
    using c by (auto simp: config_at_def config_of_def split: if_splits)
  define ps where "ps = (if clone_thread then (cf_process c, ?s)
    else (length (st_procs ?s), sysvipc_shm_inherit_process (cf_process c) (length (st_procs ?s))
      (?s\<lparr>st_procs := st_procs ?s @ [\<lparr>pr_pgid = pid (tracee_at ?s 0), pr_mapped = []\<rparr>]\<rparr>)))"
  obtain p u where pu: "ps = (p, u)" by fastforce
  have q: "quiet ?s u"
    using pu quiet_trans[OF _ inherit_mappings_quiet, of ?s]
    by (auto simp: ps_def sysvipc_shm_inherit_process_def split: if_splits)
  have "ipc_ok ?s" using ok by (simp add: ipc_ok_list fine_def)
  then have u: "ipc_ok u" using quiet_ipc_ok[OF q] by simp
  have n: "cf_ns c < length (st_ns u)" using settled_ipc_ok(1)[OF ok c] q by (simp add: settled_def quiet_facts)
  have new: "fine (st_ns u) ((st_tracees u ! 0)\<lparr>it_config := Some (new_config (cf_ns c) p)\<rparr>)"
    using fine_new_config[OF n] by (cases "st_tracees u ! 0") simp
  have "fork_tracee parent clone_thread t s =
      u\<lparr>st_tracees := (st_tracees u)[0 := (st_tracees u ! 0)\<lparr>it_config := Some (new_config (cf_ns c) p)\<rparr>]\<rparr>"
    using pu at by (auto simp: fork_tracee_def inherit_child_def ps_def Let_def split: if_splits)
  then show ?thesis
    using u new list_all_update[of "fine (st_ns u)" "st_tracees u" _ 0] by (simp add: ipc_ok_list)
qed

lemma remove_tracee_ok:
  assumes ok: "ipc_ok s" and r: "remove_tracee env i s = Some s'"
  shows "ipc_ok s'"
proof -
  let ?u = "s\<lparr>st_tracees := remove_at i (st_tracees s)\<rparr>"
  have "ipc_ok ?u"
    using ok set_remove_at[of i "st_tracees s"] by (auto simp: ipc_ok_list list_all_iff)
  moreover have "quiet ?u s'"
    using r remove_mappings_quiet
    by (auto simp: remove_tracee_def Let_def split: option.splits if_splits)
  ultimately show ?thesis by (simp add: quiet_ipc_ok)
qed

subsection \<open>The invariant\<close>

lemma ipc_step_ok: "ipc_step env s s' \<Longrightarrow> ipc_ok s \<Longrightarrow> ipc_ok s'"
  by (elim ipc_stepE)
    (auto intro: enter_stage_ok exit_stage_ok sigsys_stage_ok initialization_ok fork_ok remove_tracee_ok)

lemma ipc_reachable_ok: "ipc_reachable env s \<Longrightarrow> ipc_ok s"
  by (induction rule: ipc_reachable.induct) (simp add: ipc_ok_list fine_def, rule ipc_step_ok)

end
