(* ===== verification/Ipc_Objects.thy ===== *)
theory Ipc_Objects
  imports Ipc_Safety
begin

section \<open>System V IPC: identifiers of objects\<close>

text \<open>
  Queues, semaphore sets and segments share one life cycle: a slot of an array becomes valid, is
  named by an identifier that holds its index and its generation, and is given up under the next
  generation.  The interface is a locale over the four operations of an object; it is interpreted
  for the three kinds.
\<close>

subsection \<open>The identifier as a number\<close>

lemma or_disjoint_int:
  fixes x g :: int
  assumes "0 \<le> x" "x < 4096"
  shows "or x (push_bit 12 g) = x + 4096 * g"
proof -
  have "and x (push_bit 12 g) = 0"
  proof (rule bit_eqI)
    fix n
    have "bit x n \<longrightarrow> n < 12"
    proof
      assume "bit x n"
      then have "bit (take_bit 12 x) n" using assms by (simp add: take_bit_int_eq_self)
      then show "n < 12" by (simp add: bit_take_bit_iff)
    qed
    then show "bit (and x (push_bit 12 g)) n = bit (0 :: int) n"
      by (auto simp: bit_and_iff bit_push_bit_iff)
  qed
  then have "x + push_bit 12 g = or x (push_bit 12 g)" by (rule disjunctive_add_eq_or)
  then show ?thesis by (simp add: push_bit_eq_mult)
qed

lemma ipc_object_id_eq:
  assumes "k < 0xFFF" "0 \<le> sint gen"
  shows "ipc_object_id k gen = int k + 1 + 4096 * sint gen"
proof -
  let ?g = "sint gen"
  have g: "?g < 32768" using sint_lt[of gen] by simp
  have k: "uint (of_nat (k + 1) :: word_t) = int k + 1"
  proof -
    have "take_bit 64 (k + 1) = k + 1" using assms(1) by (intro take_bit_nat_eq_self) simp
    then show ?thesis by (simp only: unsigned_of_nat) simp
  qed
  have p: "uint (push_bit 12 (word_of_int ?g) :: word_t) = push_bit 12 ?g"
  proof -
    have "take_bit 64 ?g = ?g" using assms(2) g by (intro take_bit_int_eq_self) auto
    moreover have "take_bit 64 (push_bit 12 ?g) = push_bit 12 ?g"
      using assms(2) g by (intro take_bit_int_eq_self) (auto simp: push_bit_eq_mult)
    ultimately show ?thesis by (simp only: unsigned_push_bit_eq uint_word_of_int_eq) simp
  qed
  have u: "uint (or (of_nat (k + 1)) (push_bit 12 (word_of_int ?g)) :: word_t) = int k + 1 + 4096 * ?g"
    unfolding uint_or k p using assms(1) by (intro or_disjoint_int) auto
  have c: "c_int w = uint w" if "uint w < 2147483648" for w
  proof -
    have "take_bit 32 (uint w) = uint w" using that by (intro take_bit_int_eq_self) auto
    moreover have "signed_take_bit 31 (uint w) = uint w"
      using that by (intro signed_take_bit_int_eq_self) (auto intro: order_trans[of _ 0])
    ultimately show ?thesis by (simp add: c_int_def sint_uint unsigned_ucast_eq)
  qed
  show ?thesis
    unfolding ipc_object_id_def using u assms(1) g by (subst c) auto
qed

lemma c_int_small: "0 \<le> z \<Longrightarrow> z < 2147483648 \<Longrightarrow> c_int (word_of_int z) = z"
proof -
  assume z: "0 \<le> z" "z < 2147483648"
  have "take_bit 64 z = z" "take_bit 32 z = z" "signed_take_bit 31 z = z"
    using z by (auto intro!: take_bit_int_eq_self signed_take_bit_int_eq_self intro: order_trans[of _ 0])
  then show ?thesis by (simp add: c_int_def sint_uint unsigned_ucast_eq uint_word_of_int_eq)
qed

text \<open>What a look-up by the identifier of slot \<open>k\<close> and generation \<open>gen\<close> checks.\<close>

lemma lookup_id:
  assumes "k < 0xFFF" "0 \<le> sint gen"
  shows "lookup_ipc_object valid generation objs (word_of_int (ipc_object_id k gen)) =
    (if k < length objs \<and> valid (objs ! k) \<and> generation (objs ! k) = gen then Some k else None)"
proof -
  let ?g = "sint gen"
  let ?z = "int k + 1 + 4096 * ?g"
  have g: "?g < 32768" using sint_lt[of gen] by simp
  have z: "c_int (word_of_int (ipc_object_id k gen)) = ?z"
    using assms g unfolding ipc_object_id_eq[OF assms] by (intro c_int_small) auto
  have i: "and ?z 0xFFF = int k + 1"
  proof -
    have "and ?z (mask 12) = ?z mod 4096" by (simp add: take_bit_eq_mod flip: take_bit_eq_mask)
    also have "\<dots> = int k + 1" using assms(1) by simp
    finally show ?thesis by (simp add: mask_numeral)
  qed
  have d: "and (drop_bit 12 ?z) 0xFFFF = ?g"
  proof -
    have "drop_bit 12 ?z = ?g" using assms(1) by (simp add: drop_bit_eq_div)
    moreover have "and ?g (mask 16) = ?g"
      using assms(2) g by (simp add: take_bit_int_eq_self flip: take_bit_eq_mask)
    ultimately show ?thesis by (simp add: mask_numeral)
  qed
  have "nat (int k + 1) - 1 = k" by simp
  moreover have "sint x = ?g \<longleftrightarrow> x = gen" for x by (auto simp: signed_word_eqI)
  ultimately show ?thesis unfolding lookup_ipc_object_def z Let_def i d by auto
qed

subsection \<open>The life cycle of a slot\<close>

locale ipc_objects =
  fixes valid :: "'o \<Rightarrow> bool"
    and generation :: "'o \<Rightarrow> 16 word"
    and create :: "'a \<Rightarrow> 'o \<Rightarrow> 'o"
    and remove :: "'o \<Rightarrow> 'o"
  assumes create_valid: "valid (create a x)"
    and create_generation: "generation (create a x) = generation x"
    and remove_invalid: "\<not> valid (remove x)"
    and remove_generation: "generation (remove x) = generation x + 1"
begin

lemma created_found:
  assumes "k < length objs" "k < 0xFFF" "0 \<le> sint (generation (objs ! k))"
  shows "lookup_ipc_object valid generation (objs[k := create a (objs ! k)])
    (word_of_int (ipc_object_id k (generation (objs ! k)))) = Some k"
  using assms by (simp add: lookup_id create_valid create_generation)

lemma removed_lost:
  assumes "k < 0xFFF" "0 \<le> sint (generation (objs ! k))"
  shows "lookup_ipc_object valid generation (objs[k := remove (objs ! k)])
    (word_of_int (ipc_object_id k (generation (objs ! k)))) = None"
  using assms by (auto simp: lookup_id remove_invalid nth_list_update)

lemma stale_lost:
  assumes "k < length objs" "k < 0xFFF" "0 \<le> sint (generation (objs ! k))"
  shows "lookup_ipc_object valid generation (objs[k := create a (remove (objs ! k))])
    (word_of_int (ipc_object_id k (generation (objs ! k)))) = None"
  using assms by (auto simp: lookup_id create_generation remove_generation)

lemma renewed_found:
  assumes "k < length objs" "k < 0xFFF" "0 \<le> sint (generation (objs ! k) + 1)"
  shows "lookup_ipc_object valid generation (objs[k := create a (remove (objs ! k))])
    (word_of_int (ipc_object_id k (generation (objs ! k) + 1))) = Some k"
  using assms by (simp add: lookup_id create_valid create_generation remove_generation)

lemma others_kept:
  assumes "lookup_ipc_object valid generation objs arg = Some l" "l \<noteq> k"
  shows "lookup_ipc_object valid generation (objs[k := x]) arg = Some l"
  using assms by (auto simp: lookup_ipc_object_def Let_def split: if_splits)

end

text \<open>The three kinds of objects; the arguments of \<open>create\<close> are those of the \<open>get\<close> operation.\<close>

interpretation sem: ipc_objects sm_valid sm_generation "\<lambda>(key, nsems). create_semaphore key nsems"
  invalidate_semaphore
  by unfold_locales (auto simp: create_semaphore_def invalidate_semaphore_def)

interpretation msg: ipc_objects mq_valid mq_generation create_queue invalidate_queue
  by unfold_locales (auto simp: create_queue_def invalidate_queue_def)

interpretation shm: ipc_objects sh_valid sh_generation
  "\<lambda>(key, segsz, shmflg, cpid, fd). create_shm key segsz shmflg cpid fd" invalidate_shm
  by unfold_locales (auto simp: create_shm_def invalidate_shm_def)

end
