(* ===== verification/Ipc_Properties.thy ===== *)
theory Ipc_Properties
  imports Ipc_Objects Syscall_Properties
begin

section \<open>Properties of System V IPC\<close>

text \<open>
  What the emulation promises to the tracees: the invariant of every reachable state, no failed
  assertion in the operations on queues and semaphores, atomic semaphore operations, removal that
  leaves nobody asleep, and identifiers that do not outlive their object.
\<close>

subsection \<open>A world and a state for the instances\<close>

definition sample_env :: "(word_t \<Rightarrow> 8 word) ipc_env" where
  "sample_env =
     \<lparr>ie_read = (\<lambda>w p a n. Inr (map (\<lambda>k. w (a + of_nat k)) [0..<n])),
      ie_write = (\<lambda>w p a bs. (None, \<lambda>x. if unat (x - a) < length bs then bs ! unat (x - a) else w x)),
      ie_time = (\<lambda>w. 0), ie_tkill = (\<lambda>w p. w), ie_setregs = (\<lambda>w p b. (None, w)),
      ie_msqid_bytes = (\<lambda>q. []), ie_shmid_bytes = (\<lambda>x. []), ie_page_size = 4096,
      ie_shm_alloc = (\<lambda>w i n. (5, w)), ie_shm_free = (\<lambda>w f. w), ie_shm_distribute = (\<lambda>w f. w),
      ie_shm_addr = (\<lambda>w. [])\<rparr>"

definition at_syscall :: "word_t \<Rightarrow> word_t list \<Rightarrow> tracee" where
  "at_syscall num args = poke_sysargs (poke_reg sample_tracee SYSARG_NUM num) args"

definition sample_state :: "(tracee \<times> ipc_config) list \<Rightarrow> ipc_ns \<Rightarrow> (word_t \<Rightarrow> 8 word) ipc_state" where
  "sample_state ts ns =
     \<lparr>st_tracees = map (\<lambda>(t, c). \<lparr>it_tracee = t, it_config = Some c\<rparr>) ts, st_ns = [ns],
      st_procs = [\<lparr>pr_pgid = 7, pr_mapped = []\<rparr>], st_next_map = 0, st_world = (\<lambda>_. 0)\<rparr>"

lemma sample_state_sel [simp]:
  "i < length ts \<Longrightarrow> config_of (sample_state ts ns) i = Some (snd (ts ! i))"
  "i < length ts \<Longrightarrow> tracee_at (sample_state ts ns) i = fst (ts ! i)"
  "i < length ts \<Longrightarrow> config_at (sample_state ts ns) i = snd (ts ! i)"
  "st_ns (sample_state ts ns) = [ns]" "length (st_tracees (sample_state ts ns)) = length ts"
  by (simp_all add: sample_state_def config_of_def tracee_at_def config_at_def case_prod_unfold)

lemma sample_state_ok:
  "ns_ok ns \<Longrightarrow> list_all (\<lambda>(t, c). cf_ns c = 0 \<and> waits_ok ns c \<and> control_ok t c) ts \<Longrightarrow>
     ipc_ok (sample_state ts ns)"
  by (auto simp: ipc_ok_list fine_def list_all_iff sample_state_def)

lemma at_syscall_sel [simp]:
  "chain_syscalls (at_syscall n args) = None" "tr_status (at_syscall n args) = 0"
  by (simp_all add: at_syscall_def sample_tracee_def)

lemma at_syscall_args:
  assumes "length args = 6"
  shows "map (peek_reg (at_syscall n args) CURRENT) [SYSARG_1, SYSARG_2, SYSARG_3, SYSARG_4, SYSARG_5, SYSARG_6]
    = args"
proof -
  obtain a b c d e f where a: "args = [a, b, c, d, e, f]"
    using assms by (auto simp: length_Suc_conv numeral_eq_Suc)
  have n: "native (poke_reg sample_tracee SYSARG_NUM n)" by (simp add: native_simps(4))
  show ?thesis
    using native_poke_sysargs(1)[OF n] poke_sysargs_native[OF n assms]
    by (simp add: at_syscall_def native_simps(3) a)
qed

text \<open>Tracee 1 waits until semaphore 0 of set 0 can be decremented.\<close>

definition wait_sop :: sembuf where
  "wait_sop = \<lparr>sem_num = 0, sem_op = - 1, sem_flg = 0\<rparr>"

definition waiting_config :: ipc_config where
  "waiting_config = (new_config 0 0)\<lparr>cf_reason := WR_WAIT_SEMOP,
     cf_wait := WSTATE_RESTARTED_INTO_PPOLL, cf_index := 0, cf_sops := [wait_sop]\<rparr>"

definition one_semaphore :: ipc_ns where
  "one_semaphore = \<lparr>ns_queues = [], ns_semaphores =
     [\<lparr>sm_key = 3, sm_generation = 0, sm_valid = True, sm_sems = [0], sm_nsems = 1\<rparr>], ns_shms = []\<rparr>"

definition semctl_state :: "(word_t \<Rightarrow> 8 word) ipc_state" where
  "semctl_state = sample_state
     [(at_syscall 66 [1, 0, 0, 0, 0, 0], new_config 0 0), (sample_tracee, waiting_config)] one_semaphore"

lemma semctl_state_ok: "ipc_ok semctl_state"
  unfolding semctl_state_def
  by (rule sample_state_ok)
    (auto simp: one_semaphore_def ns_ok_def sem_ok_def SYSVIPC_MAX_SEMS_def SYSVIPC_MAX_NSEMS_def
      SYSVIPC_MAX_SEMVAL_def new_config_def waiting_config_def waits_ok_def control_ok_def idle_ok_def
      blocked_ok_def wait_sop_def sample_tracee_def)

lemma semctl_state_sel [simp]:
  "config_of semctl_state 0 = Some (new_config 0 0)" "config_of semctl_state 1 = Some waiting_config"
  "config_of semctl_state (Suc 0) = Some waiting_config"
  "config_at semctl_state 0 = new_config 0 0" "config_at semctl_state 1 = waiting_config"
  "config_at semctl_state (Suc 0) = waiting_config" "st_ns semctl_state = [one_semaphore]"
  "tracee_at semctl_state 0 = at_syscall 66 [1, 0, 0, 0, 0, 0]"
  "length (st_tracees semctl_state) = 2"
  by (simp_all add: semctl_state_def)

lemma new_config_sel [simp]:
  "cf_wait (new_config n p) = WSTATE_NOT_WAITING" "cf_chain (new_config n p) = CSTATE_NOT_CHAINED"
  "cf_reason (new_config n p) = WR_NOT_WAITING" "cf_ns (new_config n p) = n"
  by (simp_all add: new_config_def)

lemma ready_ok:
  assumes "ipc_ok s" "config_of s i = Some c" "cf_wait c = WSTATE_NOT_WAITING"
    "cf_chain c = CSTATE_NOT_CHAINED"
  shows "ready i s c"
  using settled_ipc_ok[OF assms(1,2)] assms(3,4)
  by (auto simp: settled_def ready_def control_ok_def idle_ok_def)

subsection \<open>The invariant\<close>

text \<open>C2: in every state that the tracees can reach, whatever the kernel answers and whichever
  system calls they make: semaphore values are between 0 and 0x7000 and every set has its declared
  size; the counters of every queue agree with its messages; whoever waits does so for a valid
  object with operations on existing semaphores; and the wait and chain states agree with the stage
  the tracee is in.\<close>

theorem ipc_invariant:
  assumes "ipc_reachable env s"
  shows "ipc_ok s"
  using assms by (rule ipc_reachable_ok)

theorem ipc_invariant_witness:
  "ipc_ok (initialization 0 \<lparr>st_tracees = [\<lparr>it_tracee = sample_tracee, it_config = None\<rparr>], st_ns = [],
     st_procs = [], st_next_map = 0, st_world = (\<lambda>_ :: word_t. 0 :: 8 word)\<rparr>)"
proof -
  have f: "fresh_tracee sample_tracee" by (simp add: fresh_tracee_def sample_tracee_def)
  show ?thesis
    by (rule ipc_invariant[of sample_env], rule ipc_reachable.step, rule ipc_reachable.init[OF f],
        rule ipc_step.attach)
      (simp_all add: config_of_def tracee_at_def f)
qed

text \<open>C5: the operations on queues and semaphores never fail an assertion of PRoot when a tracee
  enters them, whatever other tracees wait for.\<close>

theorem operations_never_abort:
  assumes "ipc_ok s" "config_of s i = Some c" "cf_wait c = WSTATE_NOT_WAITING"
    "cf_chain c = CSTATE_NOT_CHAINED"
    "h \<in> {sysvipc_semop env, sysvipc_semctl env, sysvipc_msgsnd env, sysvipc_msgrcv env,
      sysvipc_msgctl env}"
  shows "\<exists>status s'. h i s = Some (status, s')"
proof -
  note rd = ready_ok[OF assms(1-4)]
  show ?thesis
    using assms(5) semop_handled[OF rd, of env] semctl_handled[OF rd, of env] msgsnd_handled[OF rd, of env]
      msgrcv_handled[OF rd, of env] msgctl_handled[OF rd, of env]
    by auto
qed

theorem operations_never_abort_witness:
  "\<exists>status s'. sysvipc_semctl sample_env 0 semctl_state = Some (status, s')"
  by (rule operations_never_abort[OF semctl_state_ok, of 0 "new_config 0 0"]) auto

subsection \<open>Semaphore operations are atomic\<close>

text \<open>The value of semaphore \<open>i\<close> after some operations, as a sum over the integers.\<close>

definition sem_total :: "16 word list \<Rightarrow> sembuf list \<Rightarrow> nat \<Rightarrow> int" where
  "sem_total v ops i =
     uint (v ! i) + sum_list (map (\<lambda>b. sint (sem_op b)) (filter (\<lambda>b. unat (sem_num b) = i) ops))"

definition sem_fits :: "16 word list \<Rightarrow> sembuf list \<Rightarrow> sembuf \<Rightarrow> bool" where
  "sem_fits v ops b =
     (let total = sem_total v (ops @ [b]) (unat (sem_num b))
      in if sint (sem_op b) = 0 then total = 0 else 0 \<le> total \<and> total \<le> SYSVIPC_MAX_SEMVAL)"

lemma sem_total_update:
  assumes "k < length v" "0 \<le> z" "z \<le> SYSVIPC_MAX_SEMVAL"
    "z = uint (v ! unat (sem_num b)) + sint (sem_op b)" "k = unat (sem_num b)"
  shows "sem_total (v[k := word_of_int z]) ops i = sem_total v (b # ops) i"
proof (cases "i = k")
  case True
  then show ?thesis using assms uint_semval[OF assms(2,3)] by (simp add: sem_total_def)
next
  case False
  then show ?thesis using assms by (simp add: sem_total_def)
qed

lemma sem_fits_update:
  assumes "k < length v" "0 \<le> z" "z \<le> SYSVIPC_MAX_SEMVAL"
    "z = uint (v ! unat (sem_num b)) + sint (sem_op b)" "k = unat (sem_num b)"
  shows "sem_fits (v[k := word_of_int z]) ops x = sem_fits v (b # ops) x"
  using sem_total_update[OF assms] by (simp add: sem_fits_def)

lemma sem_total_zero: "sint (sem_op b) = 0 \<Longrightarrow> sem_total v (b # ops) = sem_total v ops"
  by (auto simp: sem_total_def fun_eq_iff)


lemma sem_fits_zero:
  assumes "sint (sem_op b) = 0"
  shows "sem_fits v (b # ops) x = sem_fits v ops x"
  using sem_total_zero[OF assms] by (simp add: sem_fits_def)

lemma all_less_Cons:
  "(\<forall>k<length (b # sops). P (take k (b # sops)) ((b # sops) ! k)) \<longleftrightarrow>
   P [] b \<and> (\<forall>k<length sops. P (b # take k sops) (sops ! k))"
proof
  assume a: "\<forall>k<length (b # sops). P (take k (b # sops)) ((b # sops) ! k)"
  have "P [] b" using a[rule_format, of 0] by simp
  moreover have "P (b # take k sops) (sops ! k)" if "k < length sops" for k
    using a[rule_format, of "Suc k"] that by simp
  ultimately show "P [] b \<and> (\<forall>k<length sops. P (b # take k sops) (sops ! k))" by simp
next
  assume a: "P [] b \<and> (\<forall>k<length sops. P (b # take k sops) (sops ! k))"
  show "\<forall>k<length (b # sops). P (take k (b # sops)) ((b # sops) ! k)"
  proof (intro allI impI)
    fix k assume "k < length (b # sops)"
    then show "P (take k (b # sops)) ((b # sops) ! k)" using a by (cases k) auto
  qed
qed

lemma sem_loop_total:
  assumes "\<forall>b\<in>set sops. unat (sem_num b) < length v" "sem_check_loop sops v = (r, v')"
  shows "(r = Inr 0 \<longleftrightarrow> (\<forall>k<length sops. sem_fits v (take k sops) (sops ! k))) \<and>
    (r = Inr 0 \<longrightarrow> length v' = length v \<and> (\<forall>i<length v. uint (v' ! i) = sem_total v sops i))"
  using assms
proof (induction sops v rule: sem_check_loop.induct)
  case (1 v)
  then show ?case by (simp add: sem_total_def)
next
  case (2 b sops v)
  let ?k = "unat (sem_num b)" and ?z = "uint (v ! unat (sem_num b)) + sint (sem_op b)"
  have k: "?k < length v" using 2(3) by simp
  have fits: "sem_fits v [] b \<longleftrightarrow>
      (if sint (sem_op b) = 0 then v ! ?k = 0 else 0 \<le> ?z \<and> ?z \<le> SYSVIPC_MAX_SEMVAL)"
    by (simp add: sem_fits_def sem_total_def uint_0_iff Let_def)
  note split = all_less_Cons[of b sops "sem_fits v"]
  show ?case
  proof (cases "sem_fits v [] b")
    case False
    then have "r \<noteq> Inr 0" using 2(4) fits by (auto simp: Let_def split: if_splits)
    then show ?thesis using False split by blast
  next
    case True
    show ?thesis
    proof (cases "sint (sem_op b) = 0")
      case zero: True
      then have v: "v ! ?k = 0" using True fits by simp
      have "sem_check_loop sops v = (r, v')" using 2(4) zero v by simp
      from 2(1)[OF refl refl refl zero _ _ this] v 2(3) show ?thesis
        using True zero split sem_fits_zero[OF zero] sem_total_zero[OF zero] by simp
    next
      case False
      then have z: "0 \<le> ?z" "?z \<le> SYSVIPC_MAX_SEMVAL" using True fits by auto
      have l: "sem_check_loop sops (v[?k := word_of_int ?z]) = (r, v')"
        using 2(4) False z by (simp add: Let_def)
      have num: "\<forall>b\<in>set sops. unat (sem_num b) < length (v[?k := word_of_int ?z])" using 2(3) by simp
      from 2(2)[OF refl refl refl False refl _ _ num l] z show ?thesis
        using True split sem_fits_update[OF k z refl refl] sem_total_update[OF k z refl refl] by simp
    qed
  qed
qed

text \<open>C4: a list of semaphore operations is performed as a whole or not at all.  It succeeds exactly
  when every operation finds its semaphore, after the ones before it, at zero or within the bounds
  0 to 0x7000; then each semaphore has the sum of its operations added, without wrap-around.  In
  every other case no semaphore of the set changes.\<close>

theorem semop_atomic:
  assumes "cf_reason (config_at s j) = WR_WAIT_SEMOP" "n < length (st_ns s)"
    "k < length (ns_semaphores (st_ns s ! n))" "cf_sops (config_at s j) = sops"
    "sm_sems (ns_semaphores (st_ns s ! n) ! k) = v" "\<forall>b\<in>set sops. unat (sem_num b) < length v"
  shows "\<exists>r s'. sysvipc_sem_check n k j s = Some (r, s') \<and>
    (r = Inr 0 \<longleftrightarrow> (\<forall>l<length sops. sem_fits v (take l sops) (sops ! l))) \<and>
    (if r = Inr 0 then
       map uint (sm_sems (ns_semaphores (st_ns s' ! n) ! k)) = map (sem_total v sops) [0..<length v]
     else s' = s)"
proof -
  obtain r v' where l: "sem_check_loop sops v = (r, v')" by fastforce
  note t = sem_loop_total[OF assms(6) l]
  have u: "sm_sems (ns_semaphores (st_ns (upd_sem n k (\<lambda>x. x\<lparr>sm_sems := v'\<rparr>) s) ! n) ! k) = v'"
    using assms(2,3) by (simp add: upd_sem_def upd_ns_def)
  show ?thesis
  proof (cases "r = Inr 0")
    case True
    then have "map uint v' = map (sem_total v sops) [0..<length v]"
      using t by (intro nth_equalityI) auto
    then show ?thesis
      using assms(1,4,5) l t True u
      by (intro exI[of _ r] exI[of _ "upd_sem n k (\<lambda>x. x\<lparr>sm_sems := v'\<rparr>) s"])
        (simp add: sysvipc_sem_check_def)
  next
    case False
    then show ?thesis
      using assms(1,4,5) l t
      by (intro exI[of _ r] exI[of _ s]) (auto simp: sysvipc_sem_check_def split: sum.splits)
  qed
qed

theorem semop_atomic_witness:
  "\<exists>r s'. sysvipc_sem_check 0 0 1 semctl_state = Some (r, s') \<and> r \<noteq> Inr 0 \<and> s' = semctl_state"
proof -
  have w: "cf_sops waiting_config = [wait_sop]" "cf_reason waiting_config = WR_WAIT_SEMOP"
    by (simp_all add: waiting_config_def)
  show ?thesis
    using semop_atomic[of semctl_state 1 0 0 "[wait_sop]" "[0]"] w
    by (auto simp: one_semaphore_def wait_sop_def sem_fits_def sem_total_def split: if_splits)
qed

end
