(* ===== verification/Ipc_Removal.thy ===== *)
theory Ipc_Removal
  imports Ipc_Properties
begin

section \<open>Properties of System V IPC: removal and identifiers\<close>

text \<open>
  Removing an object wakes whoever waits for it, its identifier is not found any more, and a segment
  whose removal is pending goes with its last mapping.
\<close>

subsection \<open>Removal\<close>

lemma lookup_invalid_slot:
  assumes "lookup_ipc_object valid gen objs arg = Some k" "\<not> valid x"
  shows "lookup_ipc_object valid gen (objs[k := x]) arg = None"
  using assms by (auto simp: lookup_ipc_object_def Let_def nth_list_update split: if_splits)

lemma waits_on_less: "waits_on wr n k s j \<Longrightarrow> j < length (st_tracees s)"
  by (auto simp: waits_on_def in_namespace_def split: option.splits dest: config_of_less)

lemma config_at_upd_ns [simp]: "config_at (upd_ns n f s) j = config_at s j"
  by (simp add: config_at_def)

text \<open>C18: \<^verbatim>\<open>semctl(IPC_RMID)\<close> succeeds, wakes every tracee that waits for the set with the status
  \<^verbatim>\<open>-EIDRM\<close>, and the identifier is not found any more.\<close>

theorem semctl_rmid_wakes_all:
  assumes "ipc_ok s" "config_of s i = Some c" "cf_wait c = WSTATE_NOT_WAITING"
    "cf_chain c = CSTATE_NOT_CHAINED" "n = cf_ns c" "arg = sysarg s i SYSARG_1"
    "lookup_ipc_object sm_valid sm_generation (ns_semaphores (st_ns s ! n)) arg = Some k"
    "and (c_int (sysarg s i SYSARG_3)) (not SYSVIPC_IPC_64) = IPC_RMID"
  shows "\<exists>s'. sysvipc_semctl env i s = Some (Inr 0, s') \<and>
    lookup_ipc_object sm_valid sm_generation (ns_semaphores (st_ns s' ! n)) arg = None \<and>
    (\<forall>j. waits_on WR_WAIT_SEMOP n k s j \<longrightarrow>
       cf_reason (config_at s' j) = WR_NOT_WAITING \<and> cf_status (config_at s' j) = Inl EIDRM) \<and>
    (\<forall>j. \<not> waits_on WR_WAIT_SEMOP n k s' j)"
proof -
  have rd: "ready i s c" using assms(1-4) by (rule ready_ok)
  note r = ready_self[OF rd]
  have n: "n < length (st_ns s)" using rd assms(5) by (simp add: ready_def)
  obtain u where u: "foreach_tracee n (rmid_visit env WR_WAIT_SEMOP k) (all_tracees s) s = Some u"
    "st_ns u = st_ns s" "\<forall>j. \<not> waits_on WR_WAIT_SEMOP n k u j"
    "\<forall>j. waits_on WR_WAIT_SEMOP n k s j \<longrightarrow>
       cf_reason (config_at u j) = WR_NOT_WAITING \<and> cf_status (config_at u j) = Inl EIDRM"
    using rmid_loop[OF ready_mid[OF rd], of WR_WAIT_SEMOP n env k] rd waits_on_less
    by (fastforce simp: ready_def)
  let ?s = "upd_sem n k invalidate_semaphore u"
  have h: "sysvipc_semctl env i s = Some (Inr 0, ?s)"
    using assms(5-8) r u(1) by (simp add: sysvipc_semctl_def Let_def rmid_visits IPC_RMID_def)
  have l: "lookup_ipc_object sm_valid sm_generation (ns_semaphores (st_ns ?s ! n)) arg = None"
    using lookup_invalid_slot[OF assms(7)] u(2) n
    by (simp add: upd_sem_def upd_ns_def invalidate_semaphore_def)
  show ?thesis
    using h l u(3,4) by (intro exI[of _ ?s]) (simp add: upd_sem_def waits_on_def in_namespace_def)
qed

theorem semctl_rmid_wakes_all_witness:
  "\<exists>s'. sysvipc_semctl sample_env 0 semctl_state = Some (Inr 0, s') \<and>
    cf_status (config_at s' 1) = Inl EIDRM"
proof -
  let ?t = "at_syscall 66 [1, 0, 0, 0, 0, 0]"
  have a: "sysarg semctl_state 0 SYSARG_1 = 1" "sysarg semctl_state 0 SYSARG_3 = 0"
    using at_syscall_args[of "[1, 0, 0, 0, 0, 0]" 66] by (simp_all add: sysarg_def)
  have l: "lookup_ipc_object sm_valid sm_generation (ns_semaphores (st_ns semctl_state ! 0)) 1 = Some 0"
    by (simp add: one_semaphore_def lookup_ipc_object_def c_int_def)
  have w: "waits_on WR_WAIT_SEMOP 0 0 semctl_state 1"
    by (simp add: waits_on_def in_namespace_def waiting_config_def)
  show ?thesis
    using semctl_rmid_wakes_all[OF semctl_state_ok semctl_state_sel(1) _ _ _ a(1)[symmetric] _ _, of 0 0 sample_env]
      a(2) l w
    by (auto simp: c_int_def IPC_RMID_def SYSVIPC_IPC_64_def)
qed

text \<open>C32: the same for \<^verbatim>\<open>msgctl(IPC_RMID)\<close> and the receivers of a queue.\<close>

theorem msgctl_rmid_wakes_all:
  assumes "ipc_ok s" "config_of s i = Some c" "cf_wait c = WSTATE_NOT_WAITING"
    "cf_chain c = CSTATE_NOT_CHAINED" "n = cf_ns c" "arg = sysarg s i SYSARG_1"
    "lookup_ipc_object mq_valid mq_generation (ns_queues (st_ns s ! n)) arg = Some k"
    "c_int (sysarg s i SYSARG_2) \<in> {IPC_RMID, or IPC_RMID SYSVIPC_IPC_64}"
  shows "\<exists>s'. sysvipc_msgctl env i s = Some (Inr 0, s') \<and>
    lookup_ipc_object mq_valid mq_generation (ns_queues (st_ns s' ! n)) arg = None \<and>
    (\<forall>j. waits_on WR_WAIT_QUEUE_RECV n k s j \<longrightarrow>
       cf_reason (config_at s' j) = WR_NOT_WAITING \<and> cf_status (config_at s' j) = Inl EIDRM) \<and>
    (\<forall>j. \<not> waits_on WR_WAIT_QUEUE_RECV n k s' j)"
proof -
  have rd: "ready i s c" using assms(1-4) by (rule ready_ok)
  note r = ready_self[OF rd]
  have n: "n < length (st_ns s)" using rd assms(5) by (simp add: ready_def)
  obtain u where u: "foreach_tracee n (rmid_visit env WR_WAIT_QUEUE_RECV k) (all_tracees s) s = Some u"
    "st_ns u = st_ns s" "\<forall>j. \<not> waits_on WR_WAIT_QUEUE_RECV n k u j"
    "\<forall>j. waits_on WR_WAIT_QUEUE_RECV n k s j \<longrightarrow>
       cf_reason (config_at u j) = WR_NOT_WAITING \<and> cf_status (config_at u j) = Inl EIDRM"
    using rmid_loop[OF ready_mid[OF rd], of WR_WAIT_QUEUE_RECV n env k] rd waits_on_less
    by (fastforce simp: ready_def)
  let ?s = "upd_queue n k invalidate_queue u"
  have h: "sysvipc_msgctl env i s = Some (Inr 0, ?s)"
    using assms(5-8) r u(1) by (auto simp: sysvipc_msgctl_def Let_def rmid_visits)
  have l: "lookup_ipc_object mq_valid mq_generation (ns_queues (st_ns ?s ! n)) arg = None"
    using lookup_invalid_slot[OF assms(7)] u(2) n
    by (simp add: upd_queue_def upd_ns_def invalidate_queue_def)
  show ?thesis
    using h l u(3,4) by (intro exI[of _ ?s]) (simp add: upd_queue_def waits_on_def in_namespace_def)
qed

definition one_queue :: "msg_item list \<Rightarrow> ipc_ns" where
  "one_queue items = \<lparr>ns_queues = [\<lparr>mq_key = 9, mq_generation = 0, mq_valid = True, mq_items = items,
     mq_qnum = of_nat (length items),
     mq_cbytes = of_nat (sum_list (map (\<lambda>m. length (mi_text m)) items)),
     mq_qbytes = 65536, mq_lspid = 0, mq_lrpid = 0, mq_stime = 0, mq_rtime = 0\<rparr>],
     ns_semaphores = [], ns_shms = []\<rparr>"

definition receiving_config :: ipc_config where
  "receiving_config = (new_config 0 0)\<lparr>cf_reason := WR_WAIT_QUEUE_RECV,
     cf_wait := WSTATE_RESTARTED_INTO_PPOLL\<rparr>"

definition msgctl_state :: "(word_t \<Rightarrow> 8 word) ipc_state" where
  "msgctl_state = sample_state
     [(at_syscall 71 [1, 0, 0, 0, 0, 0], new_config 0 0), (sample_tracee, receiving_config)] (one_queue [])"

lemma msgctl_state_ok: "ipc_ok msgctl_state"
  unfolding msgctl_state_def
  by (rule sample_state_ok)
    (auto simp: one_queue_def ns_ok_def queue_ok_def new_config_def receiving_config_def waits_ok_def
      control_ok_def idle_ok_def blocked_ok_def sample_tracee_def)

theorem msgctl_rmid_wakes_all_witness:
  "\<exists>s'. sysvipc_msgctl sample_env 0 msgctl_state = Some (Inr 0, s') \<and>
    cf_status (config_at s' 1) = Inl EIDRM"
proof -
  have c: "config_of msgctl_state 0 = Some (new_config 0 0)" by (simp add: msgctl_state_def)
  have a: "sysarg msgctl_state 0 SYSARG_1 = 1" "sysarg msgctl_state 0 SYSARG_2 = 0"
    using at_syscall_args[of "[1, 0, 0, 0, 0, 0]" 71] by (simp_all add: sysarg_def msgctl_state_def)
  have l: "lookup_ipc_object mq_valid mq_generation (ns_queues (st_ns msgctl_state ! 0)) 1 = Some 0"
    by (simp add: msgctl_state_def one_queue_def lookup_ipc_object_def c_int_def)
  have w: "waits_on WR_WAIT_QUEUE_RECV 0 0 msgctl_state 1"
    by (simp add: waits_on_def in_namespace_def receiving_config_def msgctl_state_def new_config_def)
  show ?thesis
    using msgctl_rmid_wakes_all[OF msgctl_state_ok c _ _ _ a(1)[symmetric] _ _, of 0 0 sample_env] a(2) l w
    by (auto simp: c_int_def IPC_RMID_def)
qed

text \<open>C35: when the last mapping of a segment whose removal is pending goes, the segment goes too: it
  is not valid any more, its next life has another generation and its file is handed back.\<close>

theorem last_detach_removes:
  assumes "mp_ns m < length (st_ns s)" "mp_shm m < length (ns_shms (st_ns s ! mp_ns m))"
    "x = shm_at s (mp_ns m) (mp_shm m)" "sh_mappings x = [mp_id m]" "sh_rmid_pending x"
  shows "\<exists>s'. free_mapping env p m s = Some s' \<and>
    shm_at s' (mp_ns m) (mp_shm m) =
      x\<lparr>sh_mappings := [], sh_valid := False, sh_rmid_pending := False,
        sh_generation := sh_generation x + 1, sh_fd := - 1\<rparr> \<and>
    st_world s' = ie_shm_free env (st_world s) (sh_fd x)"
proof -
  have at: "shm_at (upd_shm n k f u) n k = f (shm_at u n k)" "shm_at (upd_proc q g u) n k = shm_at u n k"
    "shm_at (u\<lparr>st_world := w\<rparr>) n k = shm_at u n k"
    if "n < length (st_ns u)" "k < length (ns_shms (st_ns u ! n))" for n k f u q g and w :: 'a
    using that by (simp_all add: shm_at_def upd_shm_def upd_ns_def upd_proc_def)
  have len: "length (st_ns (upd_shm n k f u)) = length (st_ns u)"
    "st_ns (upd_proc q g u) = st_ns u" "st_world (upd_shm n k f u) = st_world u"
    "st_world (upd_proc q g u) = st_world u"
    "n < length (st_ns u) \<Longrightarrow>
       length (ns_shms (st_ns (upd_shm n k f u) ! n)) = length (ns_shms (st_ns u ! n))"
    for n k f u q g
    by (simp_all add: upd_shm_def upd_ns_def upd_proc_def)
  show ?thesis
    using assms by (simp add: free_mapping_def sysvipc_do_rmid_def Let_def at len invalidate_shm_def)
qed

theorem last_detach_removes_witness:
  "\<exists>s'. free_mapping sample_env 0 \<lparr>mp_id = 4, mp_addr = 0x1000, mp_size = 4096, mp_ns = 0, mp_shm = 0\<rparr>
      (sample_state [] \<lparr>ns_queues = [], ns_semaphores = [],
        ns_shms = [empty_shm\<lparr>sh_valid := True, sh_rmid_pending := True, sh_mappings := [4]\<rparr>]\<rparr>) = Some s' \<and>
    \<not> sh_valid (shm_at s' 0 0) \<and> sh_generation (shm_at s' 0 0) = 1"
  using last_detach_removes[of "\<lparr>mp_id = 4, mp_addr = 0x1000, mp_size = 4096, mp_ns = 0, mp_shm = 0\<rparr>"
      "sample_state [] \<lparr>ns_queues = [], ns_semaphores = [],
        ns_shms = [empty_shm\<lparr>sh_valid := True, sh_rmid_pending := True, sh_mappings := [4]\<rparr>]\<rparr>" _ sample_env 0]
  by (auto simp: shm_at_def empty_shm_def)

subsection \<open>Identifiers\<close>



text \<open>C28: the identifier of an object that was removed does not name the object that is created in its
  slot afterwards, which is found by the identifier of the next generation.\<close>

theorem removed_object_not_reused:
  assumes "k < 0xFFF" "k < length sems" "0 \<le> sint (sm_generation (sems ! k))"
    "0 \<le> sint (sm_generation (sems ! k) + 1)"
    "k < length queues" "0 \<le> sint (mq_generation (queues ! k))"
    "0 \<le> sint (mq_generation (queues ! k) + 1)"
    "sems' = sems[k := create_semaphore key nsems (invalidate_semaphore (sems ! k))]"
    "queues' = queues[k := create_queue key (invalidate_queue (queues ! k))]"
  shows "lookup_ipc_object sm_valid sm_generation sems'
      (word_of_int (ipc_object_id k (sm_generation (sems ! k)))) = None \<and>
    lookup_ipc_object sm_valid sm_generation sems'
      (word_of_int (ipc_object_id k (sm_generation (sems ! k) + 1))) = Some k \<and>
    lookup_ipc_object mq_valid mq_generation queues'
      (word_of_int (ipc_object_id k (mq_generation (queues ! k)))) = None \<and>
    lookup_ipc_object mq_valid mq_generation queues'
      (word_of_int (ipc_object_id k (mq_generation (queues ! k) + 1))) = Some k"
  using assms sem.stale_lost[of k sems "(key, nsems)"] msg.stale_lost[of k queues key]
    sem.renewed_found[of k sems "(key, nsems)"] msg.renewed_found[of k queues key]
  by simp

theorem removed_object_not_reused_witness:
  "lookup_ipc_object mq_valid mq_generation [create_queue 7 (invalidate_queue empty_queue)]
     (word_of_int (ipc_object_id 0 0)) = None"
  using removed_object_not_reused[of 0 "[empty_semaphore]" "[empty_queue]" _ 7 1
      "[create_queue 7 (invalidate_queue empty_queue)]"]
  by (simp add: empty_queue_def empty_semaphore_def)

end
