(* ===== verification/Ipc_Messages.thy ===== *)
theory Ipc_Messages
  imports Ipc_Removal
begin

section \<open>Properties of System V IPC: messages and waiting\<close>

text \<open>
  Messages are queued in the order they are sent and delivered byte for byte; a tracee that is woken
  finds the status it was woken with.
\<close>

subsection \<open>Sending and receiving\<close>

text \<open>C33: \<^verbatim>\<open>msgsnd\<close> that succeeds adds exactly one message behind those of the queue: the type and the
  bytes found in the memory of the sender.\<close>

theorem msgsnd_appends:
  assumes "ipc_ok s" "config_of s i = Some c" "cf_wait c = WSTATE_NOT_WAITING"
    "cf_chain c = CSTATE_NOT_CHAINED" "n = cf_ns c"
    "lookup_ipc_object mq_valid mq_generation (ns_queues (st_ns s ! n)) (sysarg s i SYSARG_1) = Some k"
    "sysarg s i SYSARG_3 \<le> 0xFFFF"
    "read_mem env s i (sysarg s i SYSARG_2) 8 = Inr tb" "1 \<le> sint (word_le tb)"
    "read_mem env s i (sysarg s i SYSARG_2 + 8) (unat (sysarg s i SYSARG_3)) = Inr body"
  shows "\<exists>s'. sysvipc_msgsnd env i s = Some (Inr 0, s') \<and>
    mq_items (ns_queues (st_ns s' ! n) ! k) =
      mq_items (ns_queues (st_ns s ! n) ! k) @ [\<lparr>mi_type = word_le tb, mi_text = body\<rparr>] \<and>
    (\<forall>l<length (ns_queues (st_ns s ! n)). l \<noteq> k \<longrightarrow>
       ns_queues (st_ns s' ! n) ! l = ns_queues (st_ns s ! n) ! l)"
proof -
  have rd: "ready i s c" using assms(1-4) by (rule ready_ok)
  note r = ready_self[OF rd]
  have n: "n < length (st_ns s)" using rd assms(5) by (simp add: ready_def)
  note k = lookup_Some[OF assms(6)]
  let ?item = "\<lparr>mi_type = word_le tb, mi_text = body\<rparr>"
  let ?s1 = "upd_queue n k (\<lambda>q. q\<lparr>mq_lspid := pid (tracee_at s i),
      mq_stime := ie_time env (st_world s)\<rparr>) s"
  have o: "others_ok i s" using rd by (simp add: ready_def)
  have rd1: "ready i ?s1 c"
    using queue_at_ok[OF o n k(1)] by (intro ready_upd_queue rd n) (auto simp: queue_ok_def)
  have k1: "n < length (st_ns ?s1)" "k < length (ns_queues (st_ns ?s1 ! n))"
    using n k by (simp_all add: upd_queue_def upd_ns_def)
  obtain s2 where s2: "wake_receiver env n k ?item ?s1 = Some s2" "st_ns s2 = st_ns ?s1"
    using wake_receiver_ok[OF ready_mid[OF rd1] _ k1, of env ?item] rd by (auto simp: ready_def)
  let ?s' = "upd_queue n k (\<lambda>q. q\<lparr>mq_items := mq_items q @ [?item], mq_qnum := mq_qnum q + 1,
      mq_cbytes := mq_cbytes q + of_nat (length body)\<rparr>) s2"
  have "sysvipc_msgsnd env i s = Some (Inr 0, ?s')"
    using assms(5-10) r s2(1)
    by (simp add: sysvipc_msgsnd_def Let_def SYSVIPC_MAX_MSG_SIZE_def linorder_not_less linorder_not_le)
  moreover have "ns_queues (st_ns ?s' ! n) ! l = (if l = k
      then (ns_queues (st_ns s ! n) ! k)\<lparr>mq_lspid := pid (tracee_at s i),
        mq_stime := ie_time env (st_world s),
        mq_items := mq_items (ns_queues (st_ns s ! n) ! k) @ [?item],
        mq_qnum := mq_qnum (ns_queues (st_ns s ! n) ! k) + 1,
        mq_cbytes := mq_cbytes (ns_queues (st_ns s ! n) ! k) + of_nat (length body)\<rparr>
      else ns_queues (st_ns s ! n) ! l)" if "l < length (ns_queues (st_ns s ! n))" for l
    using n k(1) s2(2) that by (simp add: upd_queue_def upd_ns_def nth_list_update)
  ultimately show ?thesis using k(1) by (intro exI[of _ ?s']) simp
qed

definition sending_state :: "(word_t \<Rightarrow> 8 word) ipc_state" where
  "sending_state = (sample_state
     [(at_syscall 69 [1, 0x1000, 3, 0, 0, 0], new_config 0 0), (sample_tracee, receiving_config)]
     (one_queue []))\<lparr>st_world := (\<lambda>a. if 0x1000 \<le> a then ucast (a - 0xFFF) else 0)\<rparr>"

theorem msgsnd_appends_witness:
  "\<exists>s'. sysvipc_msgsnd sample_env 0 sending_state = Some (Inr 0, s') \<and>
    mq_items (ns_queues (st_ns s' ! 0) ! 0) = [\<lparr>mi_type = 0x0807060504030201, mi_text = [9, 10, 11]\<rparr>]"
proof -
  let ?u = "sample_state [(at_syscall 69 [1, 0x1000, 3, 0, 0, 0], new_config 0 0),
    (sample_tracee, receiving_config)] (one_queue [])"
  have ok: "ipc_ok ?u"
    by (rule sample_state_ok)
      (auto simp: one_queue_def ns_ok_def queue_ok_def new_config_def receiving_config_def waits_ok_def
        control_ok_def idle_ok_def blocked_ok_def sample_tracee_def)
  have q: "quiet ?u sending_state" by (simp add: sending_state_def)
  have ok': "ipc_ok sending_state" using quiet_ipc_ok[OF q] ok by simp
  have c: "config_of sending_state 0 = Some (new_config 0 0)"
    "st_ns sending_state = [one_queue []]"
    using quiet_facts(1)[OF q] by (simp_all add: sending_state_def)
  have "map (sysarg sending_state 0) [SYSARG_1, SYSARG_2, SYSARG_3, SYSARG_4, SYSARG_5, SYSARG_6] =
      [1, 0x1000, 3, 0, 0, 0]"
    using at_syscall_args[of "[1, 0x1000, 3, 0, 0, 0]" 69] quiet_facts(2)[OF q] by (simp add: sysarg_def)
  then have a: "sysarg sending_state 0 SYSARG_1 = 1" "sysarg sending_state 0 SYSARG_2 = 0x1000"
    "sysarg sending_state 0 SYSARG_3 = 3"
    by simp_all
  have l: "lookup_ipc_object mq_valid mq_generation (ns_queues (st_ns sending_state ! 0)) 1 = Some 0"
    by (simp add: c(2) one_queue_def lookup_ipc_object_def c_int_def)
  have m: "read_mem sample_env sending_state 0 0x1000 8 = Inr [1, 2, 3, 4, 5, 6, 7, 8]"
    "read_mem sample_env sending_state 0 (0x1000 + 8) 3 = Inr [9, 10, 11]"
    by (simp_all add: read_mem_def sample_env_def sending_state_def upt_rec)
  have t: "word_le [1, 2, 3, 4, 5, 6, 7, 8] = 0x0807060504030201" by code_simp
  show ?thesis
    using msgsnd_appends[OF ok' c(1) _ _ refl, of 0 sample_env "[1, 2, 3, 4, 5, 6, 7, 8]" "[9, 10, 11]"] a l m t c(2)
    by (simp add: one_queue_def)
qed






subsection \<open>Waiting\<close>





end
