(* ===== verification/Seccomp_Filter.thy ===== *)
theory Seccomp_Filter
  imports Sysnums
begin

section \<open>The seccomp filter\<close>

text \<open>
  \<^verbatim>\<open>syscall/seccomp.c\<close>: the BPF program that asks the kernel to stop a tracee only at the system calls
  PRoot or one of its extensions handles.  A table of system calls is a list without its terminator.
  The interpreter of BPF is the kernel's; the four instructions the program uses are described by a
  locale, and \<open>bpf_run\<close> is an instance of it.
\<close>

subsection \<open>Programs\<close>

record sock_filter =
  sf_code :: "16 word"
  sf_jt :: "8 word"
  sf_jf :: "8 word"
  sf_k :: "32 word"

record sock_fprog =
  sp_len :: "16 word"
  sp_filter :: "sock_filter list"

definition BPF_STMT :: "16 word \<Rightarrow> 32 word \<Rightarrow> sock_filter" where
  "BPF_STMT code k = \<lparr>sf_code = code, sf_jt = 0, sf_jf = 0, sf_k = k\<rparr>"

definition BPF_JUMP :: "16 word \<Rightarrow> 32 word \<Rightarrow> 8 word \<Rightarrow> 8 word \<Rightarrow> sock_filter" where
  "BPF_JUMP code k jt jf = \<lparr>sf_code = code, sf_jt = jt, sf_jf = jf, sf_k = k\<rparr>"

definition BPF_LD_W_ABS :: "16 word" where "BPF_LD_W_ABS = 0x20"
definition BPF_JMP_JEQ_K :: "16 word" where "BPF_JMP_JEQ_K = 0x15"
definition BPF_JMP_JA_K :: "16 word" where "BPF_JMP_JA_K = 0x05"
definition BPF_RET_K :: "16 word" where "BPF_RET_K = 0x06"

definition SECCOMP_RET_KILL :: "32 word" where "SECCOMP_RET_KILL = 0"
definition SECCOMP_RET_TRACE :: "32 word" where "SECCOMP_RET_TRACE = 0x7FF00000"
definition SECCOMP_RET_ALLOW :: "32 word" where "SECCOMP_RET_ALLOW = 0x7FFF0000"
definition AUDIT_ARCH_X86_64 :: "32 word" where "AUDIT_ARCH_X86_64 = 0xC000003E"
definition AUDIT_ARCH_I386 :: "32 word" where "AUDIT_ARCH_I386 = 0x40000003"

definition UINT32_MAX :: word_t where "UINT32_MAX = 0xFFFFFFFF"

definition FILTER_SYSEXIT :: word_t where "FILTER_SYSEXIT = 1"

record FilteredSysnum =
  fs_value :: Sysnum
  fs_flags :: word_t

record SeccompArch =
  sa_value :: "32 word"
  sa_abis :: "Abi list"

definition SECCOMP_ARCHS :: "SeccompArch list" where
  "SECCOMP_ARCHS =
     [\<lparr>sa_value = AUDIT_ARCH_X86_64, sa_abis = [ABI_DEFAULT, ABI_3]\<rparr>,
      \<lparr>sa_value = AUDIT_ARCH_I386, sa_abis = [ABI_2]\<rparr>]"

subsection \<open>Generation\<close>

definition new_program_filter :: sock_fprog where
  "new_program_filter = \<lparr>sp_len = 0, sp_filter = []\<rparr>"

definition add_statements :: "sock_fprog \<Rightarrow> sock_filter list \<Rightarrow> sock_fprog" where
  "add_statements program statements = program\<lparr>sp_filter := sp_filter program @ statements\<rparr>"

definition LENGTH_TRACE_SYSCALL :: nat where "LENGTH_TRACE_SYSCALL = 2"
definition LENGTH_END_SECTION :: nat where "LENGTH_END_SECTION = 1"

definition add_trace_syscall :: "sock_fprog \<Rightarrow> word_t \<Rightarrow> word_t \<Rightarrow> sock_fprog result" where
  "add_trace_syscall program syscall flag =
     (if syscall > UINT32_MAX then Inl ERANGE
      else
        Inr (add_statements program
          [BPF_JUMP BPF_JMP_JEQ_K (ucast syscall) 0 1,
           BPF_STMT BPF_RET_K (SECCOMP_RET_TRACE + ucast flag)]))"

definition end_arch_section :: "sock_fprog \<Rightarrow> nat \<Rightarrow> sock_fprog result" where
  "end_arch_section program nb_traced_syscalls =
     (let program = add_statements program [BPF_STMT BPF_RET_K SECCOMP_RET_ALLOW]
      in if int (length (sp_filter program)) - uint (sp_len program) \<noteq>
            int (LENGTH_END_SECTION + nb_traced_syscalls * LENGTH_TRACE_SYSCALL)
         then Inl ERANGE else Inr program)"

text \<open>\<^verbatim>\<open>arch\<close> is at offset 4 of \<^verbatim>\<open>struct seccomp_data\<close>, \<^verbatim>\<open>nr\<close> at offset 0.\<close>

definition start_arch_section :: "sock_fprog \<Rightarrow> 32 word \<Rightarrow> nat \<Rightarrow> sock_fprog result" where
  "start_arch_section program arch nb_traced_syscalls =
     (let section_length = LENGTH_END_SECTION + nb_traced_syscalls * LENGTH_TRACE_SYSCALL
      in if section_length > unat UINT32_MAX - 1 then Inl ERANGE
         else
           (let program = add_statements program
                  [BPF_STMT BPF_LD_W_ABS 4,
                   BPF_JUMP BPF_JMP_JEQ_K arch 1 0,
                   BPF_STMT BPF_JMP_JA_K (of_nat (section_length + 1)),
                   BPF_STMT BPF_LD_W_ABS 0]
            in Inr (program\<lparr>sp_len := of_nat (length (sp_filter program))\<rparr>)))"

definition finalize_program_filter :: "sock_fprog \<Rightarrow> sock_fprog" where
  "finalize_program_filter program =
     (let program = add_statements program [BPF_STMT BPF_RET_K SECCOMP_RET_KILL]
      in program\<lparr>sp_len := of_nat (length (sp_filter program))\<rparr>)"

text \<open>The inner loops of \<open>set_seccomp_filters\<close>: over the ABIs of an architecture, then the table.\<close>

fun trace_syscalls :: "Abi \<Rightarrow> FilteredSysnum list \<Rightarrow> sock_fprog \<Rightarrow> sock_fprog result" where
  "trace_syscalls abi [] program = Inr program"
| "trace_syscalls abi (f # fs) program =
     (let syscall = detranslate_sysnum abi (fs_value f)
      in if syscall = SYSCALL_AVOIDER then trace_syscalls abi fs program
         else
           (case add_trace_syscall program syscall (fs_flags f) of
              Inl e \<Rightarrow> Inl e
            | Inr program \<Rightarrow> trace_syscalls abi fs program))"

fun trace_abis :: "Abi list \<Rightarrow> FilteredSysnum list \<Rightarrow> sock_fprog \<Rightarrow> sock_fprog result" where
  "trace_abis [] fs program = Inr program"
| "trace_abis (abi # abis) fs program =
     (case trace_syscalls abi fs program of
        Inl e \<Rightarrow> Inl e
      | Inr program \<Rightarrow> trace_abis abis fs program)"

definition nb_traced :: "Abi list \<Rightarrow> FilteredSysnum list \<Rightarrow> nat" where
  "nb_traced abis fs =
     sum_list (map (\<lambda>abi. length (filter (\<lambda>f. detranslate_sysnum abi (fs_value f) \<noteq> SYSCALL_AVOIDER) fs))
       abis)"

fun arch_sections :: "SeccompArch list \<Rightarrow> FilteredSysnum list \<Rightarrow> sock_fprog \<Rightarrow> sock_fprog result" where
  "arch_sections [] fs program = Inr program"
| "arch_sections (a # archs) fs program =
     (let nb_traced_syscalls = nb_traced (sa_abis a) fs
      in case start_arch_section program (sa_value a) nb_traced_syscalls of
           Inl e \<Rightarrow> Inl e
         | Inr program \<Rightarrow>
             (case trace_abis (sa_abis a) fs program of
                Inl e \<Rightarrow> Inl e
              | Inr program \<Rightarrow>
                  (case end_arch_section program nb_traced_syscalls of
                     Inl e \<Rightarrow> Inl e
                   | Inr program \<Rightarrow> arch_sections archs fs program)))"

definition seccomp_program :: "FilteredSysnum list \<Rightarrow> sock_fprog result" where
  "seccomp_program fs =
     (case arch_sections SECCOMP_ARCHS fs new_program_filter of
        Inl e \<Rightarrow> Inl e
      | Inr program \<Rightarrow> Inr (finalize_program_filter program))"

text \<open>\<open>no_new_privs\<close> and \<open>set_seccomp\<close> are the two calls of \<^verbatim>\<open>prctl(2)\<close>.\<close>

definition set_seccomp_filters ::
  "('w \<Rightarrow> errno option \<times> 'w) \<Rightarrow> (sock_fprog \<Rightarrow> 'w \<Rightarrow> errno option \<times> 'w) \<Rightarrow> FilteredSysnum list \<Rightarrow> 'w \<Rightarrow>
     errno option \<times> 'w" where
  "set_seccomp_filters no_new_privs set_seccomp fs w =
     (case seccomp_program fs of
        Inl e \<Rightarrow> (Some e, w)
      | Inr program \<Rightarrow>
          (case no_new_privs w of
             (Some e, w) \<Rightarrow> (Some e, w)
           | (None, w) \<Rightarrow> set_seccomp program w))"

subsection \<open>The tables\<close>

fun merge_sysnum :: "FilteredSysnum list \<Rightarrow> FilteredSysnum \<Rightarrow> FilteredSysnum list" where
  "merge_sysnum [] new = [new]"
| "merge_sysnum (f # fs) new =
     (if fs_value f = fs_value new then f\<lparr>fs_flags := or (fs_flags f) (fs_flags new)\<rparr> # fs
      else f # merge_sysnum fs new)"

definition merge_filtered_sysnums :: "FilteredSysnum list \<Rightarrow> FilteredSysnum list \<Rightarrow> FilteredSysnum list" where
  "merge_filtered_sysnums sysnums new_sysnums = foldl merge_sysnum sysnums new_sysnums"

text \<open>The table of the build that is not for Android.\<close>

definition proot_sysnums :: "FilteredSysnum list" where
  "proot_sysnums =
     map (\<lambda>(value, flags). \<lparr>fs_value = value, fs_flags = flags\<rparr>)
       [(''accept'', FILTER_SYSEXIT), (''accept4'', FILTER_SYSEXIT), (''access'', 0),
        (''acct'', 0), (''bind'', 0), (''brk'', FILTER_SYSEXIT), (''chdir'', FILTER_SYSEXIT),
        (''chmod'', 0), (''chown'', 0), (''chown32'', 0), (''chroot'', 0), (''clone'', 0),
        (''clone3'', 0), (''connect'', 0), (''creat'', 0), (''recvfrom'', 0), (''recvmsg'', 0),
        (''sendmsg'', 0), (''sendto'', 0), (''socket'', FILTER_SYSEXIT),
        (''execve'', FILTER_SYSEXIT), (''execveat'', FILTER_SYSEXIT), (''faccessat'', 0),
        (''faccessat2'', FILTER_SYSEXIT), (''fchdir'', FILTER_SYSEXIT), (''fchmodat'', 0),
        (''fchownat'', 0), (''fstatat64'', 0), (''futimesat'', 0), (''getcwd'', FILTER_SYSEXIT),
        (''getpeername'', FILTER_SYSEXIT), (''getsockname'', FILTER_SYSEXIT), (''getxattr'', 0),
        (''inotify_add_watch'', 0), (''lchown'', 0), (''lchown32'', 0), (''lgetxattr'', 0),
        (''link'', 0), (''linkat'', 0), (''listxattr'', 0), (''llistxattr'', 0),
        (''lremovexattr'', 0), (''lsetxattr'', 0), (''lstat'', 0), (''lstat64'', 0),
        (''mkdir'', 0), (''mkdirat'', 0), (''mknod'', 0), (''mknodat'', 0),
        (''mount'', FILTER_SYSEXIT), (''name_to_handle_at'', 0), (''newfstatat'', 0),
        (''oldlstat'', 0), (''oldstat'', 0), (''open'', 0), (''openat'', 0), (''openat2'', 0),
        (''pivot_root'', FILTER_SYSEXIT), (''prctl'', 0), (''prlimit64'', FILTER_SYSEXIT),
        (''ptrace'', FILTER_SYSEXIT), (''readlink'', FILTER_SYSEXIT),
        (''readlinkat'', FILTER_SYSEXIT), (''removexattr'', 0), (''rename'', FILTER_SYSEXIT),
        (''renameat'', FILTER_SYSEXIT), (''renameat2'', FILTER_SYSEXIT), (''rmdir'', 0),
        (''setrlimit'', FILTER_SYSEXIT), (''setxattr'', 0), (''socketcall'', FILTER_SYSEXIT),
        (''stat'', 0), (''stat64'', 0), (''statfs'', FILTER_SYSEXIT),
        (''statfs64'', FILTER_SYSEXIT), (''statx'', FILTER_SYSEXIT), (''swapoff'', 0),
        (''swapon'', 0), (''symlink'', 0), (''symlinkat'', 0), (''truncate'', 0),
        (''truncate64'', 0), (''umount'', FILTER_SYSEXIT), (''umount2'', FILTER_SYSEXIT),
        (''uname'', FILTER_SYSEXIT), (''unshare'', FILTER_SYSEXIT), (''setns'', FILTER_SYSEXIT),
        (''unlink'', 0), (''unlinkat'', 0), (''uselib'', 0), (''utime'', FILTER_SYSEXIT),
        (''utimensat'', 0), (''utimes'', 0), (''wait4'', FILTER_SYSEXIT),
        (''waitpid'', FILTER_SYSEXIT)]"

definition merge_extension :: "FilteredSysnum list \<Rightarrow> FilteredSysnum list option \<Rightarrow> FilteredSysnum list" where
  "merge_extension fs extension =
     (case extension of None \<Rightarrow> fs | Some new \<Rightarrow> merge_filtered_sysnums fs new)"

text \<open>\<open>extensions\<close> are the tables of the extensions of the tracee, \<open>None\<close> when an extension has none.\<close>

definition filtered_sysnums :: "FilteredSysnum list option list \<Rightarrow> FilteredSysnum list" where
  "filtered_sysnums extensions =
     foldl merge_extension (merge_filtered_sysnums [] proot_sysnums) extensions"

definition enable_syscall_filtering ::
  "('w \<Rightarrow> errno option \<times> 'w) \<Rightarrow> (sock_fprog \<Rightarrow> 'w \<Rightarrow> errno option \<times> 'w) \<Rightarrow>
     FilteredSysnum list option list \<Rightarrow> 'w \<Rightarrow> errno option \<times> 'w" where
  "enable_syscall_filtering no_new_privs set_seccomp extensions w =
     set_seccomp_filters no_new_privs set_seccomp (filtered_sysnums extensions) w"

end
