(* ===== verification/Seccomp_Properties.thy ===== *)
theory Seccomp_Properties
  imports Seccomp_Filter
begin

section \<open>Properties of the seccomp filter\<close>

text \<open>
  The program that is generated stops a tracee at exactly the listed system calls, for every
  interpreter that executes the four instructions as the kernel documents them.
\<close>

subsection \<open>The interpreter\<close>

record seccomp_data =
  sd_nr :: "32 word"
  sd_arch :: "32 word"

text \<open>\<open>run p pc a d\<close> is the verdict of program \<open>p\<close> from instruction \<open>pc\<close> on with the accumulator \<open>a\<close>.\<close>

locale bpf_machine =
  fixes run :: "sock_filter list \<Rightarrow> nat \<Rightarrow> 32 word \<Rightarrow> seccomp_data \<Rightarrow> 32 word"
  assumes load_nr: "pc < length p \<Longrightarrow> p ! pc = BPF_STMT BPF_LD_W_ABS 0 \<Longrightarrow>
      run p pc a d = run p (pc + 1) (sd_nr d) d"
    and load_arch: "pc < length p \<Longrightarrow> p ! pc = BPF_STMT BPF_LD_W_ABS 4 \<Longrightarrow>
      run p pc a d = run p (pc + 1) (sd_arch d) d"
    and jump_equal: "pc < length p \<Longrightarrow> p ! pc = BPF_JUMP BPF_JMP_JEQ_K k jt jf \<Longrightarrow>
      run p pc a d = run p (pc + 1 + unat (if a = k then jt else jf)) a d"
    and jump_always: "pc < length p \<Longrightarrow> p ! pc = BPF_STMT BPF_JMP_JA_K k \<Longrightarrow>
      run p pc a d = run p (pc + 1 + unat k) a d"
    and return: "pc < length p \<Longrightarrow> p ! pc = BPF_STMT BPF_RET_K k \<Longrightarrow> run p pc a d = k"

function bpf_run :: "sock_filter list \<Rightarrow> nat \<Rightarrow> 32 word \<Rightarrow> seccomp_data \<Rightarrow> 32 word" where
  "bpf_run p pc a d =
     (if length p \<le> pc then SECCOMP_RET_KILL
      else
        (let i = p ! pc in
         if sf_code i = BPF_RET_K then sf_k i
         else if sf_code i = BPF_LD_W_ABS then
           bpf_run p (pc + 1) (if sf_k i = 0 then sd_nr d else if sf_k i = 4 then sd_arch d else 0) d
         else if sf_code i = BPF_JMP_JEQ_K then
           bpf_run p (pc + 1 + unat (if a = sf_k i then sf_jt i else sf_jf i)) a d
         else if sf_code i = BPF_JMP_JA_K then bpf_run p (pc + 1 + unat (sf_k i)) a d
         else SECCOMP_RET_KILL))"
  by pat_completeness auto
termination by (relation "measure (\<lambda>(p, pc, a, d). length p - pc)") auto

declare bpf_run.simps [simp del]

lemma bpf_codes [simp]:
  "BPF_RET_K \<noteq> BPF_LD_W_ABS" "BPF_LD_W_ABS \<noteq> BPF_RET_K" "BPF_JMP_JEQ_K \<noteq> BPF_RET_K"
  "BPF_JMP_JEQ_K \<noteq> BPF_LD_W_ABS" "BPF_JMP_JA_K \<noteq> BPF_RET_K" "BPF_JMP_JA_K \<noteq> BPF_LD_W_ABS"
  "BPF_JMP_JA_K \<noteq> BPF_JMP_JEQ_K"
  by (simp_all add: BPF_RET_K_def BPF_LD_W_ABS_def BPF_JMP_JEQ_K_def BPF_JMP_JA_K_def)

interpretation bpf: bpf_machine bpf_run
  by unfold_locales (subst bpf_run.simps, simp add: BPF_STMT_def BPF_JUMP_def)+

subsection \<open>The shape of the program\<close>

text \<open>The numbers traced in the ABIs of an architecture, with the verdict for each.\<close>

definition traced :: "Abi list \<Rightarrow> FilteredSysnum list \<Rightarrow> (32 word \<times> 32 word) list" where
  "traced abis fs = concat (map (\<lambda>abi.
     map (\<lambda>f. (ucast (detranslate_sysnum abi (fs_value f)), SECCOMP_RET_TRACE + ucast (fs_flags f)))
       (filter (\<lambda>f. detranslate_sysnum abi (fs_value f) \<noteq> SYSCALL_AVOIDER) fs)) abis)"

definition trace_code :: "(32 word \<times> 32 word) list \<Rightarrow> sock_filter list" where
  "trace_code pairs = concat (map (\<lambda>(nr, v). [BPF_JUMP BPF_JMP_JEQ_K nr 0 1, BPF_STMT BPF_RET_K v]) pairs)"

definition section_code :: "32 word \<Rightarrow> (32 word \<times> 32 word) list \<Rightarrow> sock_filter list" where
  "section_code arch pairs =
     [BPF_STMT BPF_LD_W_ABS 4, BPF_JUMP BPF_JMP_JEQ_K arch 1 0,
      BPF_STMT BPF_JMP_JA_K (of_nat (2 * length pairs + 2)), BPF_STMT BPF_LD_W_ABS 0] @
     trace_code pairs @ [BPF_STMT BPF_RET_K SECCOMP_RET_ALLOW]"

lemma length_trace_code [simp]: "length (trace_code pairs) = 2 * length pairs"
  by (induction pairs) (auto simp: trace_code_def)

lemma length_section_code [simp]: "length (section_code arch pairs) = 2 * length pairs + 5"
  by (simp add: section_code_def)

lemma length_traced: "length (traced abis fs) = nb_traced abis fs"
  by (simp add: traced_def nb_traced_def length_concat comp_def)

lemma detranslate_small:
  assumes "detranslate_sysnum abi s \<noteq> SYSCALL_AVOIDER"
  shows "detranslate_sysnum abi s \<le> UINT32_MAX"
proof -
  obtain j where j: "find_sysnum (sn_table (get_sysnums abi)) s 0 = Some j" "s \<noteq> PR_void"
    using assms by (auto simp: detranslate_sysnum_def Let_def split: option.splits if_splits)
  have "unat j < 543" using find_sysnum_table[OF j(1)] by (simp split: if_splits)
  then have "unat (j + sn_offset (get_sysnums abi)) \<le> unat UINT32_MAX"
    by (simp add: unat_word_ariths UINT32_MAX_def)
  then show ?thesis using j by (simp add: detranslate_sysnum_def Let_def word_le_nat_alt)
qed

lemma trace_syscalls_code:
  "trace_syscalls abi fs program = Inr (program\<lparr>sp_filter := sp_filter program @ trace_code (traced [abi] fs)\<rparr>)"
proof (induction fs arbitrary: program)
  case (Cons f fs)
  show ?case
  proof (cases "detranslate_sysnum abi (fs_value f) = SYSCALL_AVOIDER")
    case True
    then show ?thesis using Cons by (simp add: traced_def)
  next
    case False
    then have "\<not> UINT32_MAX < detranslate_sysnum abi (fs_value f)"
      using detranslate_small by (simp add: linorder_not_less)
    then show ?thesis
      using Cons False by (simp add: add_trace_syscall_def add_statements_def traced_def trace_code_def)
  qed
qed (simp add: traced_def trace_code_def)

lemma traced_Cons: "traced (abi # abis) fs = traced [abi] fs @ traced abis fs"
  by (simp add: traced_def)

lemma trace_code_append: "trace_code (xs @ ys) = trace_code xs @ trace_code ys"
  by (simp add: trace_code_def)

lemma trace_abis_code:
  "trace_abis abis fs program = Inr (program\<lparr>sp_filter := sp_filter program @ trace_code (traced abis fs)\<rparr>)"
proof (induction abis arbitrary: program)
  case (Cons abi abis)
  then show ?case
    by (simp add: trace_syscalls_code traced_Cons[of abi abis] trace_code_append)
qed (simp add: traced_def trace_code_def)

lemma nb_traced_le: "nb_traced abis fs \<le> length abis * length fs"
  by (induction abis) (auto simp: nb_traced_def intro!: add_mono)

text \<open>The sanity checks pass while the program is shorter than 65536 instructions.\<close>

lemma arch_sections_code:
  assumes "length (sp_filter program) + sum_list (map (\<lambda>a. 2 * nb_traced (sa_abis a) fs + 5) archs) < 2 ^ 16"
  shows "\<exists>len. arch_sections archs fs program = Inr (program\<lparr>sp_len := len,
    sp_filter := sp_filter program @
      concat (map (\<lambda>a. section_code (sa_value a) (traced (sa_abis a) fs)) archs)\<rparr>)"
  using assms
proof (induction archs arbitrary: program)
  case Nil
  then show ?case by (intro exI[of _ "sp_len program"]) simp
next
  case (Cons a archs)
  let ?n = "nb_traced (sa_abis a) fs"
  let ?p1 = "program\<lparr>sp_filter := sp_filter program @ take 4 (section_code (sa_value a) (traced (sa_abis a) fs)),
    sp_len := of_nat (length (sp_filter program) + 4)\<rparr>"
  let ?p2 = "?p1\<lparr>sp_filter := sp_filter program @ section_code (sa_value a) (traced (sa_abis a) fs)\<rparr>"
  have n: "?n < 2 ^ 15" "length (sp_filter program) + 4 < 2 ^ 16" using Cons(2) by simp_all
  have "\<not> unat UINT32_MAX - 1 < 1 + ?n * 2" using n(1) by (simp add: UINT32_MAX_def)
  then have s: "start_arch_section program (sa_value a) ?n = Inr ?p1"
    by (simp add: start_arch_section_def Let_def add_statements_def LENGTH_END_SECTION_def
        LENGTH_TRACE_SYSCALL_def section_code_def length_traced algebra_simps)
  have "uint (of_nat (length (sp_filter program) + 4) :: 16 word) = int (length (sp_filter program) + 4)"
    using n(2) by (simp only: unsigned_of_nat) (simp add: take_bit_nat_eq_self)
  then have e: "end_arch_section (?p1\<lparr>sp_filter := sp_filter ?p1 @ trace_code (traced (sa_abis a) fs)\<rparr>) ?n =
      Inr ?p2"
    by (simp add: end_arch_section_def Let_def add_statements_def LENGTH_END_SECTION_def
        LENGTH_TRACE_SYSCALL_def length_traced section_code_def)
  obtain len where "arch_sections archs fs ?p2 = Inr (?p2\<lparr>sp_len := len, sp_filter := sp_filter ?p2 @
      concat (map (\<lambda>a. section_code (sa_value a) (traced (sa_abis a) fs)) archs)\<rparr>)"
    using Cons(1)[of ?p2] Cons(2) by (auto simp: length_traced)
  then show ?case using s e by (intro exI[of _ len]) (simp add: Let_def trace_abis_code)
qed

subsection \<open>The verdict of the program\<close>

context bpf_machine
begin

lemma run_trace_code:
  "run (pre @ trace_code pairs @ post) (length pre) a d =
     (case map_of pairs a of
        Some v \<Rightarrow> v
      | None \<Rightarrow> run (pre @ trace_code pairs @ post) (length pre + 2 * length pairs) a d)"
proof (induction pairs arbitrary: pre)
  case Nil
  then show ?case by (simp add: trace_code_def)
next
  case (Cons x pairs)
  obtain nr v where x: "x = (nr, v)" by fastforce
  let ?j = "BPF_JUMP BPF_JMP_JEQ_K nr 0 1" and ?r = "BPF_STMT BPF_RET_K v"
  let ?p = "pre @ ?j # ?r # trace_code pairs @ post"
  have p: "pre @ trace_code ((nr, v) # pairs) @ post = ?p" by (simp add: trace_code_def)
  have j: "run ?p (length pre) a d = run ?p (length pre + 1 + unat (if a = nr then 0 else 1 :: 8 word)) a d"
    by (rule jump_equal) simp_all
  show ?case
  proof (cases "a = nr")
    case True
    have "run ?p (length pre + 1) a d = v" by (rule return) (simp_all add: nth_append)
    then show ?thesis using j True by (simp add: p x)
  next
    case False
    have "run ?p (length pre + 2) a d = (case map_of pairs a of
        Some v \<Rightarrow> v | None \<Rightarrow> run ?p (length pre + 2 + 2 * length pairs) a d)"
      using Cons.IH[of "pre @ [?j, ?r]"] by (simp split: option.splits)
    then show ?thesis using j False by (simp add: p x numeral_2_eq_2 split: option.splits)
  qed
qed

lemma run_section:
  assumes "2 * length pairs + 2 < 2 ^ 32"
  shows "run (pre @ section_code arch pairs @ post) (length pre) a d =
    (if sd_arch d = arch
     then (case map_of pairs (sd_nr d) of Some v \<Rightarrow> v | None \<Rightarrow> SECCOMP_RET_ALLOW)
     else run (pre @ section_code arch pairs @ post) (length (pre @ section_code arch pairs)) (sd_arch d) d)"
proof -
  let ?head = "[BPF_STMT BPF_LD_W_ABS 4, BPF_JUMP BPF_JMP_JEQ_K arch 1 0,
      BPF_STMT BPF_JMP_JA_K (of_nat (2 * length pairs + 2)), BPF_STMT BPF_LD_W_ABS 0]"
  let ?tail = "BPF_STMT BPF_RET_K SECCOMP_RET_ALLOW # post"
  let ?p = "pre @ section_code arch pairs @ post"
  have p: "?p = (pre @ ?head) @ trace_code pairs @ ?tail" by (simp add: section_code_def)
  have at: "?p ! (length pre + k) = ?head ! k" if "k < 4" for k
    unfolding p nth_append using that by simp
  have len: "length pre + k < length ?p" if "k < 4" for k using that by simp
  have "run ?p (length pre) a d = run ?p (length pre + 1) (sd_arch d) d"
    using load_arch[of "length pre" ?p a d] at[of 0] len[of 0] by simp
  also have "\<dots> = run ?p (length pre + 2 + unat (if sd_arch d = arch then 1 else 0 :: 8 word)) (sd_arch d) d"
    using jump_equal[of "length pre + 1" ?p arch 1 0 "sd_arch d" d] at[of 1] len[of 1] by simp
  finally have h: "run ?p (length pre) a d =
      run ?p (length pre + 2 + unat (if sd_arch d = arch then 1 else 0 :: 8 word)) (sd_arch d) d" .
  show ?thesis
  proof (cases "sd_arch d = arch")
    case True
    have "run ?p (length pre + 3) (sd_arch d) d = run ?p (length (pre @ ?head)) (sd_nr d) d"
      using load_nr[of "length pre + 3" ?p "sd_arch d" d] at[of 3] len[of 3] by (simp add: eval_nat_numeral)
    also have "\<dots> = (case map_of pairs (sd_nr d) of Some v \<Rightarrow> v
        | None \<Rightarrow> run ?p (length (pre @ ?head) + 2 * length pairs) (sd_nr d) d)"
      unfolding p by (rule run_trace_code)
    also have "run ?p (length (pre @ ?head) + 2 * length pairs) (sd_nr d) d = SECCOMP_RET_ALLOW"
      unfolding p by (rule return) (simp_all add: nth_append)
    finally show ?thesis using h True by (simp add: numeral_3_eq_3)
  next
    case False
    have "unat (of_nat (2 * length pairs + 2) :: 32 word) = 2 * length pairs + 2"
      using assms by (simp only: unsigned_of_nat) (simp add: take_bit_nat_eq_self)
    then have "run ?p (length pre + 2) (sd_arch d) d =
        run ?p (length pre + 2 + 1 + (2 * length pairs + 2)) (sd_arch d) d"
      using jump_always[of "length pre + 2" ?p "of_nat (2 * length pairs + 2)" "sd_arch d" d]
        at[of 2] len[of 2] by (simp del: of_nat_add of_nat_mult)
    then show ?thesis using h False by (simp add: algebra_simps eval_nat_numeral)
  qed
qed

text \<open>The two sections and the end of the program.\<close>

lemma run_two_sections:
  assumes "2 * length p64 + 2 < 2 ^ 32" "2 * length p32 + 2 < 2 ^ 32"
  shows "run (section_code AUDIT_ARCH_X86_64 p64 @ section_code AUDIT_ARCH_I386 p32 @
      [BPF_STMT BPF_RET_K SECCOMP_RET_KILL]) 0 a d =
    (if sd_arch d = AUDIT_ARCH_X86_64
     then (case map_of p64 (sd_nr d) of Some v \<Rightarrow> v | None \<Rightarrow> SECCOMP_RET_ALLOW)
     else if sd_arch d = AUDIT_ARCH_I386
     then (case map_of p32 (sd_nr d) of Some v \<Rightarrow> v | None \<Rightarrow> SECCOMP_RET_ALLOW)
     else SECCOMP_RET_KILL)"
proof -
  let ?s64 = "section_code AUDIT_ARCH_X86_64 p64" and ?s32 = "section_code AUDIT_ARCH_I386 p32"
  let ?kill = "[BPF_STMT BPF_RET_K SECCOMP_RET_KILL]"
  let ?p = "?s64 @ ?s32 @ ?kill"
  have fst: "run ?p 0 a d = (if sd_arch d = AUDIT_ARCH_X86_64
     then (case map_of p64 (sd_nr d) of Some v \<Rightarrow> v | None \<Rightarrow> SECCOMP_RET_ALLOW)
     else run ?p (length ?s64) (sd_arch d) d)"
    using run_section[OF assms(1), of "[]" AUDIT_ARCH_X86_64 "?s32 @ ?kill" a d] by simp
  have snd: "run ?p (length ?s64) x d = (if sd_arch d = AUDIT_ARCH_I386
     then (case map_of p32 (sd_nr d) of Some v \<Rightarrow> v | None \<Rightarrow> SECCOMP_RET_ALLOW)
     else run ?p (length (?s64 @ ?s32)) (sd_arch d) d)" for x
    using run_section[OF assms(2), of ?s64 AUDIT_ARCH_I386 ?kill x d] by simp
  have "run ?p (length (?s64 @ ?s32)) x d = SECCOMP_RET_KILL" for x
    by (rule return) (simp_all add: nth_append)
  then show ?thesis using fst snd by simp
qed

end

subsection \<open>Merging the tables\<close>

text \<open>The flags of a system call in a table with several entries for it: all of them together.\<close>

definition flags_of :: "FilteredSysnum list \<Rightarrow> Sysnum \<Rightarrow> word_t option" where
  "flags_of fs s =
     (if s \<in> fs_value ` set fs
      then Some (fold (\<lambda>f x. or x (fs_flags f)) (filter (\<lambda>f. fs_value f = s) fs) 0) else None)"

definition well_merged :: "FilteredSysnum list \<Rightarrow> FilteredSysnum list \<Rightarrow> bool" where
  "well_merged fs entries =
     (distinct (map fs_value fs) \<and> fs_value ` set fs = fs_value ` set entries \<and>
      (\<forall>f\<in>set fs. flags_of entries (fs_value f) = Some (fs_flags f)))"

lemma merge_sysnum_absent:
  "fs_value new \<notin> fs_value ` set fs \<Longrightarrow> merge_sysnum fs new = fs @ [new]"
  by (induction fs new rule: merge_sysnum.induct) auto

lemma merge_sysnum_present:
  "fs_value new \<in> fs_value ` set fs \<Longrightarrow> distinct (map fs_value fs) \<Longrightarrow>
     merge_sysnum fs new = map (\<lambda>f. if fs_value f = fs_value new
       then f\<lparr>fs_flags := or (fs_flags f) (fs_flags new)\<rparr> else f) fs"
proof (induction fs new rule: merge_sysnum.induct)
  case (2 f fs new)
  have "map (\<lambda>f. if fs_value f = fs_value new
       then f\<lparr>fs_flags := or (fs_flags f) (fs_flags new)\<rparr> else f) fs = fs"
    if "fs_value f = fs_value new"
    using 2(3) that by (intro map_idI) (auto simp: image_iff)
  then show ?case using 2 by auto
qed simp

lemma flags_of_snoc:
  "flags_of (entries @ [new]) s =
     (if fs_value new = s then Some (or (case flags_of entries s of None \<Rightarrow> 0 | Some x \<Rightarrow> x) (fs_flags new))
      else flags_of entries s)"
proof -
  have "fold (\<lambda>f x. or x (fs_flags f)) (filter (\<lambda>f. fs_value f = s) entries) 0 = 0"
    if "s \<notin> fs_value ` set entries"
  proof -
    have "filter (\<lambda>f. fs_value f = s) entries = []" using that by (auto simp: filter_empty_conv)
    then show ?thesis by simp
  qed
  then show ?thesis by (auto simp: flags_of_def)
qed

lemma merge_sysnum_well:
  assumes "well_merged fs entries"
  shows "well_merged (merge_sysnum fs new) (entries @ [new])"
proof (cases "fs_value new \<in> fs_value ` set fs")
  case True
  have d: "distinct (map fs_value fs)" "fs_value ` set fs = fs_value ` set entries"
    "\<And>f. f \<in> set fs \<Longrightarrow> flags_of entries (fs_value f) = Some (fs_flags f)"
    using assms by (simp_all add: well_merged_def)
  note m = merge_sysnum_present[OF True d(1)]
  have v: "map fs_value (merge_sysnum fs new) = map fs_value fs" using m by auto
  have s: "fs_value ` set (merge_sysnum fs new) = fs_value ` set (entries @ [new])"
    using arg_cong[OF v, of set] True d(2) by auto
  have "flags_of (entries @ [new]) (fs_value f) = Some (fs_flags f)"
    if f: "f \<in> set (merge_sysnum fs new)" for f
  proof -
    obtain g where g: "g \<in> set fs" "f = (if fs_value g = fs_value new
        then g\<lparr>fs_flags := or (fs_flags g) (fs_flags new)\<rparr> else g)"
      using f unfolding m by auto
    show ?thesis using d(3)[OF g(1)] g(2) by (simp add: flags_of_snoc split: if_splits)
  qed
  then show ?thesis using s v d(1) unfolding well_merged_def by simp
next
  case False
  have "flags_of entries (fs_value new) = None"
    using assms False by (simp add: well_merged_def flags_of_def)
  then show ?thesis
    using assms False merge_sysnum_absent[OF False]
    by (auto simp: well_merged_def flags_of_snoc)
qed

lemma merge_filtered_well:
  "well_merged fs entries \<Longrightarrow> well_merged (merge_filtered_sysnums fs new) (entries @ new)"
proof (induction new arbitrary: fs entries)
  case (Cons f new)
  from Cons.IH[OF merge_sysnum_well[OF Cons.prems, of f]] show ?case
    by (simp add: merge_filtered_sysnums_def)
qed (simp add: merge_filtered_sysnums_def)

text \<open>Everything PRoot and the extensions of a tracee ask for.\<close>

definition requested :: "FilteredSysnum list option list \<Rightarrow> FilteredSysnum list" where
  "requested extensions = proot_sysnums @ concat (map (\<lambda>x. case x of None \<Rightarrow> [] | Some fs \<Rightarrow> fs) extensions)"

lemma filtered_well: "well_merged (filtered_sysnums extensions) (requested extensions)"
proof -
  have start: "well_merged (merge_filtered_sysnums [] proot_sysnums) proot_sysnums"
    using merge_filtered_well[of "[]" "[]" proot_sysnums] by (simp add: well_merged_def)
  have "well_merged (foldl merge_extension fs extensions)
      (entries @ concat (map (\<lambda>x. case x of None \<Rightarrow> [] | Some fs \<Rightarrow> fs) extensions))"
    if "well_merged fs entries" for fs entries
    using that
  proof (induction extensions arbitrary: fs entries)
    case (Cons x extensions)
    then show ?case
      using merge_filtered_well[OF Cons.prems]
      by (cases x) (auto simp: merge_extension_def simp flip: append_assoc)
  qed simp
  from this[OF start] show ?thesis by (simp add: filtered_sysnums_def requested_def)
qed

lemma length_filtered: "length (filtered_sysnums extensions) \<le> length (requested extensions)"
proof -
  have "length (filtered_sysnums extensions) = card (fs_value ` set (filtered_sysnums extensions))"
    using filtered_well[of extensions] by (metis well_merged_def distinct_card length_map list.set_map)
  also have "\<dots> = card (fs_value ` set (requested extensions))"
    using filtered_well[of extensions] by (simp add: well_merged_def)
  also have "\<dots> \<le> length (requested extensions)"
    by (meson card_image_le card_length finite_set le_trans)
  finally show ?thesis .
qed

subsection \<open>Numbers are not shared\<close>

lemma detranslate_inject:
  assumes "detranslate_sysnum abi s = detranslate_sysnum abi s'" "detranslate_sysnum abi s \<noteq> SYSCALL_AVOIDER"
  shows "s = s'"
proof -
  obtain j j' where j: "find_sysnum (sn_table (get_sysnums abi)) s 0 = Some j"
    "find_sysnum (sn_table (get_sysnums abi)) s' 0 = Some j'" "s \<noteq> PR_void" "s' \<noteq> PR_void"
    using assms by (auto simp: detranslate_sysnum_def Let_def split: option.splits if_splits)
  then have "j = j'" using assms(1) by (simp add: detranslate_sysnum_def Let_def)
  then show ?thesis using find_sysnum_table[OF j(1)] find_sysnum_table[OF j(2)] by simp
qed

lemma detranslate_range:
  assumes "detranslate_sysnum abi s \<noteq> SYSCALL_AVOIDER"
  shows "0x40000000 \<le> detranslate_sysnum abi s \<longleftrightarrow> abi = ABI_3"
proof -
  obtain j where j: "find_sysnum (sn_table (get_sysnums abi)) s 0 = Some j" "s \<noteq> PR_void"
    using assms by (auto simp: detranslate_sysnum_def Let_def split: option.splits if_splits)
  have u: "unat j < 543" using find_sysnum_table[OF j(1)] by (simp split: if_splits)
  have d: "detranslate_sysnum abi s = j + sn_offset (get_sysnums abi)"
    using j by (simp add: detranslate_sysnum_def Let_def)
  show ?thesis using u unfolding d by (auto simp: word_le_nat_alt unat_word_ariths)
qed

lemma ucast_32_inject:
  assumes "x \<le> UINT32_MAX" "y \<le> UINT32_MAX" "(ucast x :: 32 word) = ucast y"
  shows "x = y"
proof -
  have "take_bit 32 (uint z) = uint z" if "z \<le> UINT32_MAX" for z
    using that by (intro take_bit_int_eq_self) (auto simp: word_le_def UINT32_MAX_def)
  moreover have "take_bit 32 (uint x) = take_bit 32 (uint y)"
    using arg_cong[OF assms(3), of uint] by (simp add: unsigned_ucast_eq)
  ultimately show ?thesis using assms(1,2) by (simp add: word_uint_eq_iff)
qed

lemma in_traced:
  "(k, v) \<in> set (traced abis fs) \<longleftrightarrow>
     (\<exists>abi\<in>set abis. \<exists>f\<in>set fs. detranslate_sysnum abi (fs_value f) \<noteq> SYSCALL_AVOIDER \<and>
       k = ucast (detranslate_sysnum abi (fs_value f)) \<and> v = SECCOMP_RET_TRACE + ucast (fs_flags f))"
  by (auto simp: traced_def image_iff)

lemma map_of_traced:
  assumes w: "well_merged fs entries" and abi: "abi \<in> set abis" "abis = [ABI_DEFAULT, ABI_3] \<or> abis = [ABI_2]"
    and s: "s \<in> fs_value ` set entries" "detranslate_sysnum abi s \<noteq> SYSCALL_AVOIDER"
  shows "map_of (traced abis fs) (ucast (detranslate_sysnum abi s)) =
    Some (SECCOMP_RET_TRACE + ucast (the (flags_of entries s)))"
proof -
  let ?key = "ucast (detranslate_sysnum abi s) :: 32 word"
  obtain f where f: "f \<in> set fs" "fs_value f = s"
    using w s(1) unfolding well_merged_def by (metis imageE)
  have fl: "flags_of entries s = Some (fs_flags f)" using w f by (auto simp: well_merged_def)
  have mem: "(?key, SECCOMP_RET_TRACE + ucast (fs_flags f)) \<in> set (traced abis fs)"
    using f s(2) abi(1) unfolding in_traced by blast
  have uni: "v = SECCOMP_RET_TRACE + ucast (fs_flags f)" if mv: "(?key, v) \<in> set (traced abis fs)" for v
  proof -
    obtain abi' g where g: "abi' \<in> set abis" "g \<in> set fs" "detranslate_sysnum abi' (fs_value g) \<noteq> SYSCALL_AVOIDER"
      "?key = ucast (detranslate_sysnum abi' (fs_value g))" "v = SECCOMP_RET_TRACE + ucast (fs_flags g)"
      using mv unfolding in_traced by blast
    have e: "detranslate_sysnum abi s = detranslate_sysnum abi' (fs_value g)"
      using ucast_32_inject[OF detranslate_small[OF s(2)] detranslate_small[OF g(3)] g(4)] .
    have "abi = ABI_3 \<longleftrightarrow> abi' = ABI_3"
      using detranslate_range[OF s(2)] detranslate_range[OF g(3)] e by simp
    then have "abi' = abi" using abi g(1) by auto
    then have "fs_value g = s" using detranslate_inject[of abi s "fs_value g"] e s(2) by simp
    then have "g = f" using w f g(2) by (auto simp: well_merged_def distinct_map inj_on_def)
    then show ?thesis using g(5) by simp
  qed
  have "map_of (traced abis fs) ?key \<noteq> None" using mem weak_map_of_SomeI by (metis option.distinct(1))
  then obtain v where "map_of (traced abis fs) ?key = Some v" by blast
  then show ?thesis using uni map_of_SomeD fl by fastforce
qed

subsection \<open>The properties\<close>

lemma seccomp_program_code:
  assumes "length fs \<le> 10000"
  shows "\<exists>program. seccomp_program fs = Inr program \<and> uint (sp_len program) = int (length (sp_filter program)) \<and>
    sp_filter program = section_code AUDIT_ARCH_X86_64 (traced [ABI_DEFAULT, ABI_3] fs) @
      section_code AUDIT_ARCH_I386 (traced [ABI_2] fs) @ [BPF_STMT BPF_RET_K SECCOMP_RET_KILL]"
proof -
  have n: "nb_traced [ABI_DEFAULT, ABI_3] fs \<le> 20000" "nb_traced [ABI_2] fs \<le> 10000"
    using nb_traced_le[of "[ABI_DEFAULT, ABI_3]" fs] nb_traced_le[of "[ABI_2]" fs] assms by simp_all
  obtain len where "arch_sections SECCOMP_ARCHS fs new_program_filter =
      Inr (new_program_filter\<lparr>sp_len := len, sp_filter :=
        section_code AUDIT_ARCH_X86_64 (traced [ABI_DEFAULT, ABI_3] fs) @
        section_code AUDIT_ARCH_I386 (traced [ABI_2] fs)\<rparr>)"
    using arch_sections_code[of new_program_filter fs SECCOMP_ARCHS] n
    by (auto simp: SECCOMP_ARCHS_def new_program_filter_def)
  moreover have "take_bit 16 (2 * a + 5 + (2 * b + 5) + 1) = 2 * a + 5 + (2 * b + 5) + (1 :: nat)"
    if "a \<le> 20000" "b \<le> 10000" for a b
    using that by (intro take_bit_nat_eq_self) simp
  then have "uint (of_nat (2 * a + 5 + (2 * b + 5) + 1) :: 16 word) = int (2 * a + 5 + (2 * b + 5) + 1)"
    if "a \<le> 20000" "b \<le> 10000" for a b
    using that by (simp only: unsigned_of_nat) simp
  note this[OF n]
  ultimately show ?thesis
    by (simp add: seccomp_program_def finalize_program_filter_def add_statements_def Let_def length_traced
        del: of_nat_add of_nat_mult of_nat_Suc add_Suc_right)
qed

lemma seccomp_program_runs:
  assumes "length fs \<le> 10000" "bpf_machine run"
  shows "\<exists>program. seccomp_program fs = Inr program \<and>
    uint (sp_len program) = int (length (sp_filter program)) \<and>
    (\<forall>d. run (sp_filter program) 0 0 d =
      (if sd_arch d = AUDIT_ARCH_X86_64 then
         (case map_of (traced [ABI_DEFAULT, ABI_3] fs) (sd_nr d) of
            Some v \<Rightarrow> v | None \<Rightarrow> SECCOMP_RET_ALLOW)
       else if sd_arch d = AUDIT_ARCH_I386 then
         (case map_of (traced [ABI_2] fs) (sd_nr d) of Some v \<Rightarrow> v | None \<Rightarrow> SECCOMP_RET_ALLOW)
       else SECCOMP_RET_KILL))"
proof -
  obtain program where p: "seccomp_program fs = Inr program"
    "uint (sp_len program) = int (length (sp_filter program))"
    "sp_filter program = section_code AUDIT_ARCH_X86_64 (traced [ABI_DEFAULT, ABI_3] fs) @
      section_code AUDIT_ARCH_I386 (traced [ABI_2] fs) @ [BPF_STMT BPF_RET_K SECCOMP_RET_KILL]"
    using seccomp_program_code[OF assms(1)] by blast
  have l: "length (traced [ABI_DEFAULT, ABI_3] fs) \<le> 20000" "length (traced [ABI_2] fs) \<le> 10000"
    using nb_traced_le[of "[ABI_DEFAULT, ABI_3]" fs] nb_traced_le[of "[ABI_2]" fs] assms(1)
    by (simp_all add: length_traced)
  have "2 * length (traced [ABI_DEFAULT, ABI_3] fs) + 2 < 2 ^ 32"
    by (rule le_less_trans[of _ 40002]) (use l in simp_all)
  moreover have "2 * length (traced [ABI_2] fs) + 2 < 2 ^ 32"
    by (rule le_less_trans[of _ 20002]) (use l in simp_all)
  ultimately have "\<forall>d. run (sp_filter program) 0 0 d =
    (if sd_arch d = AUDIT_ARCH_X86_64 then
       (case map_of (traced [ABI_DEFAULT, ABI_3] fs) (sd_nr d) of
          Some v \<Rightarrow> v | None \<Rightarrow> SECCOMP_RET_ALLOW)
     else if sd_arch d = AUDIT_ARCH_I386 then
       (case map_of (traced [ABI_2] fs) (sd_nr d) of Some v \<Rightarrow> v | None \<Rightarrow> SECCOMP_RET_ALLOW)
     else SECCOMP_RET_KILL)"
    unfolding p(3) using bpf_machine.run_two_sections[OF assms(2)] by blast
  with p(1,2) show ?thesis by blast
qed

text \<open>C17: for every table of at most 10000 system calls the generation succeeds, the length that is
  handed to the kernel is the length of the program, and the verdict of the program on a system
  call is to kill the tracee for an unknown architecture, to stop it for a listed number, and to let
  it go otherwise.\<close>

theorem seccomp_program_verdict:
  assumes "length fs \<le> 10000" "bpf_machine run"
  shows "\<exists>program. seccomp_program fs = Inr program \<and>
    uint (sp_len program) = int (length (sp_filter program)) \<and>
    (\<forall>d. run (sp_filter program) 0 0 d =
      (if sd_arch d = AUDIT_ARCH_X86_64 then
         (case map_of (traced [ABI_DEFAULT, ABI_3] fs) (sd_nr d) of
            Some v \<Rightarrow> v | None \<Rightarrow> SECCOMP_RET_ALLOW)
       else if sd_arch d = AUDIT_ARCH_I386 then
         (case map_of (traced [ABI_2] fs) (sd_nr d) of Some v \<Rightarrow> v | None \<Rightarrow> SECCOMP_RET_ALLOW)
       else SECCOMP_RET_KILL))"
  using seccomp_program_runs[OF assms] .

theorem seccomp_program_verdict_witness:
  "\<exists>program. seccomp_program [\<lparr>fs_value = ''openat'', fs_flags = 1\<rparr>] = Inr program \<and>
    bpf_run (sp_filter program) 0 0 \<lparr>sd_nr = 257, sd_arch = AUDIT_ARCH_X86_64\<rparr> = 0x7FF00001 \<and>
    bpf_run (sp_filter program) 0 0 \<lparr>sd_nr = 0, sd_arch = AUDIT_ARCH_X86_64\<rparr> = SECCOMP_RET_ALLOW"
proof -
  let ?fs = "[\<lparr>fs_value = ''openat'', fs_flags = 1\<rparr>]"
  have "traced [ABI_DEFAULT, ABI_3] ?fs = [(257, 0x7FF00001), (0x40000101, 0x7FF00001)]" by code_simp
  then show ?thesis
    using seccomp_program_verdict[of ?fs bpf_run, OF _ bpf.bpf_machine_axioms]
    by (auto simp: SECCOMP_RET_ALLOW_def)
qed

text \<open>C8: once the tables of the extensions are merged, a tracee is stopped at every system call that
  PRoot or one of its extensions asks for, in each mode that has a number for it, with all the flags
  asked for together; and it is stopped at no other.\<close>

theorem requested_sysnums_traced:
  assumes "length (requested extensions) \<le> 10000" "bpf_machine run" "archi \<in> set SECCOMP_ARCHS"
  shows "\<exists>program. seccomp_program (filtered_sysnums extensions) = Inr program \<and>
    (\<forall>abi\<in>set (sa_abis archi). \<forall>s\<in>fs_value ` set (requested extensions).
       detranslate_sysnum abi s \<noteq> SYSCALL_AVOIDER \<longrightarrow>
       run (sp_filter program) 0 0 \<lparr>sd_nr = ucast (detranslate_sysnum abi s), sd_arch = sa_value archi\<rparr> =
         SECCOMP_RET_TRACE + ucast (the (flags_of (requested extensions) s))) \<and>
    (\<forall>nr. (\<forall>abi\<in>set (sa_abis archi). \<forall>s\<in>fs_value ` set (requested extensions).
         ucast (detranslate_sysnum abi s) \<noteq> nr) \<longrightarrow>
       run (sp_filter program) 0 0 \<lparr>sd_nr = nr, sd_arch = sa_value archi\<rparr> = SECCOMP_RET_ALLOW)"
proof -
  let ?fs = "filtered_sysnums extensions"
  note w = filtered_well[of extensions]
  have l: "length ?fs \<le> 10000" using length_filtered[of extensions] assms(1) by simp
  obtain program where p: "seccomp_program ?fs = Inr program"
    "\<forall>d. run (sp_filter program) 0 0 d =
      (if sd_arch d = AUDIT_ARCH_X86_64 then
         (case map_of (traced [ABI_DEFAULT, ABI_3] ?fs) (sd_nr d) of
            Some v \<Rightarrow> v | None \<Rightarrow> SECCOMP_RET_ALLOW)
       else if sd_arch d = AUDIT_ARCH_I386 then
         (case map_of (traced [ABI_2] ?fs) (sd_nr d) of Some v \<Rightarrow> v | None \<Rightarrow> SECCOMP_RET_ALLOW)
       else SECCOMP_RET_KILL)"
    using seccomp_program_runs[OF l assms(2)] by blast
  have a: "sa_value archi = AUDIT_ARCH_X86_64 \<and> sa_abis archi = [ABI_DEFAULT, ABI_3] \<or>
      sa_value archi = AUDIT_ARCH_I386 \<and> sa_abis archi = [ABI_2]"
    using assms(3) by (auto simp: SECCOMP_ARCHS_def)
  have run: "run (sp_filter program) 0 0 \<lparr>sd_nr = nr, sd_arch = sa_value archi\<rparr> =
      (case map_of (traced (sa_abis archi) ?fs) nr of Some v \<Rightarrow> v | None \<Rightarrow> SECCOMP_RET_ALLOW)" for nr
    using a p(2) by (auto simp: AUDIT_ARCH_X86_64_def AUDIT_ARCH_I386_def)
  have none: "map_of (traced (sa_abis archi) ?fs) nr = None"
    if "\<forall>abi\<in>set (sa_abis archi). \<forall>s\<in>fs_value ` set (requested extensions).
      ucast (detranslate_sysnum abi s) \<noteq> nr" for nr
  proof -
    have "fs_value ` set ?fs = fs_value ` set (requested extensions)" using w by (simp add: well_merged_def)
    then have "(nr, v) \<notin> set (traced (sa_abis archi) ?fs)" for v
      using that unfolding in_traced by (metis imageI)
    then show ?thesis by (metis map_of_SomeD not_None_eq)
  qed
  show ?thesis
    using p(1) run none map_of_traced[OF w] a by (intro exI[of _ program]) auto
qed

theorem requested_sysnums_traced_witness:
  "\<exists>program. seccomp_program (filtered_sysnums []) = Inr program \<and>
    bpf_run (sp_filter program) 0 0 \<lparr>sd_nr = 5, sd_arch = AUDIT_ARCH_I386\<rparr> = SECCOMP_RET_TRACE"
proof -
  have l: "length (requested []) \<le> 10000" by (simp add: requested_def proot_sysnums_def)
  have s: "''open'' \<in> fs_value ` set (requested [])" "flags_of (requested []) ''open'' = Some 0"
    by (simp_all add: requested_def proot_sysnums_def flags_of_def)
  have n: "detranslate_sysnum ABI_2 ''open'' = 5" by code_simp
  show ?thesis
    using requested_sysnums_traced[OF l bpf.bpf_machine_axioms,
        of "\<lparr>sa_value = AUDIT_ARCH_I386, sa_abis = [ABI_2]\<rparr>"] s n
    by (auto simp: SECCOMP_ARCHS_def SYSCALL_AVOIDER_def dest!: bspec)
qed

end
