(* ===== verification/Spec2Isabelle.thy ===== *)
theory Spec2Isabelle
  imports Path_Properties Setup_Properties Push_Properties Shebang_Properties Auxv_Properties Execve
    Ipc_Messages Seccomp_Properties
begin

text \<open>
  \<^bold>\<open>PRoot: translation of paths and system calls of traced processes.\<close>

  PRoot runs a program in another root file system without privileges.  It traces every process
  of the program (a \<^emph>\<open>tracee\<close>) with \<^verbatim>\<open>ptrace(2)\<close>, stops it at the system calls it asked the kernel for
  with a seccomp filter, and changes the registers and the memory of the tracee so that the kernel
  works on host paths while the tracee sees guest paths.  Extensions hook into the system calls; the
  one modelled here emulates System V IPC.  File names below are under \<^verbatim>\<open>src/src/\<close>.

  The model is the x86\_64 build for Linux, without the parts for Android.  Data is modelled as the
  code has it: structures are records, enumerations datatypes, machine words \<^typ>\<open>64 word\<close>, C strings
  character lists without their NUL, circular queues lists, shared objects identities.  A C function
  that returns a negative error number is a function into \<open>errno + 'a\<close>; a failed assertion is the
  value \<open>None\<close> of an outer option.

  \<^bold>\<open>Shared.\<close>  \<^verbatim>\<open>Prelude\<close> has the error numbers, C strings, limits and decimal conversions; \<^verbatim>\<open>Bytes\<close> the
  little-endian bytes of a word.

  \<^bold>\<open>Paths\<close> (\<^verbatim>\<open>path/\<close>).
  \<^item> \<^verbatim>\<open>Paths\<close>, \<^verbatim>\<open>Path_Lemmas\<close>: comparing, joining, cutting and walking over path strings, against
    lists of components.
  \<^item> \<^verbatim>\<open>Bindings\<close>, \<^verbatim>\<open>Binding_Order\<close>, \<^verbatim>\<open>Binding_Invariant\<close>: the three queues of bindings
    (\<^verbatim>\<open>binding.c\<close>), look-up, substitution, sorted insertion; the invariant \<open>fs_ok\<close> of the queues, the
    locale \<open>nested_paths\<close> of sorted nested paths and its interpretation on either side of a binding.
  \<^item> \<^verbatim>\<open>Canon\<close>, \<^verbatim>\<open>Canon_Safety\<close>: \<open>canonicalize\<close> (\<^verbatim>\<open>canon.c\<close>) with the emulated links of \<^verbatim>\<open>/proc\<close>
    (\<^verbatim>\<open>proc.c\<close>), \<open>detranslate_path\<close> and the glue (\<^verbatim>\<open>glue.c\<close>).  The recursion ends because the level
    grows with every link and the cursor shrinks otherwise.
  \<^item> \<^verbatim>\<open>Translate\<close>, \<^verbatim>\<open>Path_Examples\<close>, \<^verbatim>\<open>Path_Properties\<close>: \<open>translate_path\<close> (\<^verbatim>\<open>path.c\<close>), a concrete tracee,
    and the properties: translated paths stay inside the bindings, results are canonical, the
    first match is the deepest binding, detranslation undoes translation.
  \<^item> \<^verbatim>\<open>Binding_Init\<close>, \<^verbatim>\<open>Setup_Properties\<close>: \<open>new_binding\<close>, \<open>initialize_bindings\<close> and \<open>which\<close>: the set-up
    establishes the invariant the rest relies on.

  \<^bold>\<open>System calls\<close> (\<^verbatim>\<open>tracee/\<close>, \<^verbatim>\<open>syscall/\<close>).
  \<^item> \<^verbatim>\<open>Tracee_Regs\<close> (\<^verbatim>\<open>tracee/reg.c\<close>, \<^verbatim>\<open>abi.h\<close>), \<^verbatim>\<open>Sysnums\<close> (\<^verbatim>\<open>syscall/sysnum.c\<close> and its three tables),
    \<^verbatim>\<open>Chain\<close> (\<^verbatim>\<open>syscall/chain.c\<close>), \<^verbatim>\<open>Heap\<close> (\<^verbatim>\<open>syscall/heap.c\<close>), \<^verbatim>\<open>Syscall_Properties\<close>.
  \<^item> \<^verbatim>\<open>Tracee_Memory\<close>, \<^verbatim>\<open>Memory_Lemmas\<close>, \<^verbatim>\<open>Memory_Properties\<close>: the transfers of \<^verbatim>\<open>tracee/mem.c\<close> with
    \<^verbatim>\<open>process_vm_readv(2)\<close> and the fallback word by word; the locale \<open>process_vm_laws\<close> says what is
    assumed of the kernel.
  \<^item> \<^verbatim>\<open>Seccomp_Filter\<close>, \<^verbatim>\<open>Seccomp_Properties\<close> (\<^verbatim>\<open>syscall/seccomp.c\<close>): the generated BPF program, and
    that any machine that satisfies the laws of the locale \<open>bpf_machine\<close> decides with it as the table
    of system calls says.

  \<^bold>\<open>System V IPC\<close> (\<^verbatim>\<open>extension/sysvipc/\<close>).
  \<^item> \<^verbatim>\<open>Ipc_State\<close>, \<^verbatim>\<open>Ipc_Sem\<close>, \<^verbatim>\<open>Ipc_Msg\<close>, \<^verbatim>\<open>Ipc_Shm\<close>: the namespace and the operations on semaphores,
    message queues and shared memory; \<^verbatim>\<open>Ipc_Machine\<close>, \<^verbatim>\<open>Ipc_Steps\<close>: the callback of the extension and
    the steps of the tracees, an inductive relation.
  \<^item> \<^verbatim>\<open>Ipc_Invariant\<close>, \<^verbatim>\<open>Ipc_Handlers\<close>, \<^verbatim>\<open>Ipc_Control\<close>, \<^verbatim>\<open>Ipc_Receive\<close>, \<^verbatim>\<open>Ipc_Segments\<close>, \<^verbatim>\<open>Ipc_Stages\<close>,
    \<^verbatim>\<open>Ipc_Reachable\<close>, \<^verbatim>\<open>Ipc_Safety\<close>: every operation keeps the invariant, hence every reachable state
    has it.
  \<^item> \<^verbatim>\<open>Ipc_Objects\<close>: the locale \<open>ipc_objects\<close> of objects found by an identifier that carries a
    generation, interpreted on the three kinds of objects; \<^verbatim>\<open>Ipc_Properties\<close>, \<^verbatim>\<open>Ipc_Removal\<close>,
    \<^verbatim>\<open>Ipc_Messages\<close>: the properties.

  \<^bold>\<open>Not modelled.\<close>  The kernel is a parameter wherever the code calls it: \<^verbatim>\<open>lstat\<close>, \<^verbatim>\<open>readlink\<close>,
  \<^verbatim>\<open>realpath\<close>, \<^verbatim>\<open>mkdir\<close>, \<^verbatim>\<open>ptrace\<close> and the like.  Failures of the allocator are left out.
  Messages to the user, temporary files, the command line, the loader, and the bindings to Python and
  libarchive are input and output or glue.  The dispatch over all the system calls
  (\<^verbatim>\<open>syscall/enter.c\<close>, \<^verbatim>\<open>exit.c\<close>) and the other extensions are not part of the model yet.
\<close>

end
